(* ===== verification/Prelude.thy ===== *)
theory Prelude
  imports "HOL-Library.Word" "HOL-Library.Monad_Syntax"
begin

text \<open>
  What the component theories share: the machine integer types, the arithmetic of the two
  build profiles, the casts, the little-endian byte encodings, \<open>Result\<close> chaining, and the
  collections of rules the proofs of the components draw on.

  \<^item> A stored integer (a field of a struct, a byte of a buffer) is a word of its width.  Rust's
    \<open>i32\<close> and \<open>u32\<close> are the same words, read with \<open>sint\<close> and \<open>uint\<close>.
  \<^item> Arithmetic is computed on \<open>int\<close>, through operators that check the result against the
    range of the Rust type.  Out of range, a build with overflow checks (\<open>Debug\<close>) panics
    (\<open>None\<close>) and a build without them (\<open>Release\<close>) wraps around.
  \<^item> \<open>usize\<close> values are \<open>nat\<close>: every one in the model is bounded by the length of a buffer
    or vector, which Rust keeps below \<open>isize::MAX\<close>.
\<close>

unbundle bit_operations_syntax

subsection \<open>Rule collections\<close>

named_theorems arith_ok \<comment> \<open>in range, checked arithmetic is arithmetic\<close>

named_theorems wire_writes \<comment> \<open>which bytes a serialisation routine writes\<close>

named_theorems wire_reads \<comment> \<open>what a parsing routine consumes and returns\<close>

subsection \<open>Machine integers and build profiles\<close>

type_synonym u8 = "8 word"
type_synonym u16 = "16 word"
type_synonym i16 = "16 word"
type_synonym u32 = "32 word"
type_synonym i32 = "32 word"

datatype profile = Debug | Release

definition overflow :: "profile \<Rightarrow> 'a \<Rightarrow> 'a option" where
  "overflow p wrapped = (case p of Debug \<Rightarrow> None | Release \<Rightarrow> Some wrapped)"

definition arith_i32 :: "profile \<Rightarrow> int \<Rightarrow> int option" where
  "arith_i32 p x =
     (if - 2147483648 \<le> x \<and> x \<le> 2147483647 then Some x
      else overflow p (signed_take_bit 31 x))"

definition arith_i64 :: "profile \<Rightarrow> int \<Rightarrow> int option" where
  "arith_i64 p x =
     (if - 9223372036854775808 \<le> x \<and> x \<le> 9223372036854775807 then Some x
      else overflow p (signed_take_bit 63 x))"

definition arith_u64 :: "profile \<Rightarrow> int \<Rightarrow> int option" where
  "arith_u64 p x =
     (if 0 \<le> x \<and> x \<le> 18446744073709551615 then Some x else overflow p (take_bit 64 x))"

lemma arith_i32_ok [arith_ok]:
  "- 2147483648 \<le> x \<Longrightarrow> x \<le> 2147483647 \<Longrightarrow> arith_i32 p x = Some x"
  by (simp add: arith_i32_def)

lemma arith_i64_ok [arith_ok]:
  "- 9223372036854775808 \<le> x \<Longrightarrow> x \<le> 9223372036854775807 \<Longrightarrow> arith_i64 p x = Some x"
  by (simp add: arith_i64_def)

lemma arith_u64_ok [arith_ok]:
  "0 \<le> x \<Longrightarrow> x \<le> 18446744073709551615 \<Longrightarrow> arith_u64 p x = Some x"
  by (simp add: arith_u64_def)

text \<open>Arithmetic that stays in the type of its operands, for any width.\<close>

definition arith_word :: "profile \<Rightarrow> int \<Rightarrow> 'w::len word option" where
  "arith_word p x =
     (let w = word_of_int x in if sint w = x then Some w else overflow p w)"

lemma arith_word_sint: "arith_word p (sint w) = Some w"
  by (simp add: arith_word_def)

text \<open>The casts \<open>as u64\<close> and \<open>as i32\<close>, and the integer division \<open>/\<close>, which truncates.\<close>

definition as_u64 :: "int \<Rightarrow> int" where
  "as_u64 x = take_bit 64 x"

definition as_i64 :: "int \<Rightarrow> int" where
  "as_i64 x = signed_take_bit 63 x"

definition as_i32 :: "int \<Rightarrow> i32" where
  "as_i32 x = word_of_int x"

definition trunc_div :: "int \<Rightarrow> int \<Rightarrow> int" where
  "trunc_div a b = sgn a * sgn b * (\<bar>a\<bar> div \<bar>b\<bar>)"

definition saturate_i32 :: "int \<Rightarrow> int" where
  "saturate_i32 x = max (- 2147483648) (min 2147483647 x)"

lemma sint_i32_range:
  "- 2147483648 \<le> sint (w :: i32)" "sint (w :: i32) \<le> 2147483647"
  using sint_range_size [of w] by (simp_all add: word_size)

lemma sint_i16_range:
  "- 32768 \<le> sint (w :: i16)" "sint (w :: i16) \<le> 32767"
  using sint_range_size [of w] by (simp_all add: word_size)

lemma sint_inject: "sint (a :: 'w::len word) = sint b \<longleftrightarrow> a = b"
  by (rule word_eq_iff_signed [symmetric])

lemma as_u64_id: "0 \<le> x \<Longrightarrow> x \<le> 18446744073709551615 \<Longrightarrow> as_u64 x = x"
  by (simp add: as_u64_def take_bit_int_eq_self_iff)

lemma as_u64_nonneg [simp]: "0 \<le> as_u64 x"
  by (simp add: as_u64_def)

lemma as_i64_id:
  "- 9223372036854775808 \<le> x \<Longrightarrow> x \<le> 9223372036854775807 \<Longrightarrow> as_i64 x = x"
  by (simp add: as_i64_def signed_take_bit_int_eq_self_iff)

lemma sint_as_i32 [simp]:
  "- 2147483648 \<le> x \<Longrightarrow> x \<le> 2147483647 \<Longrightarrow> sint (as_i32 x) = x"
  by (simp add: as_i32_def sint_sbintrunc' signed_take_bit_int_eq_self_iff)

lemma as_i32_sint [simp]: "as_i32 (sint w) = w"
  by (simp add: as_i32_def)

lemma saturate_i32_range: "- 2147483648 \<le> saturate_i32 x" "saturate_i32 x \<le> 2147483647"
  by (auto simp: saturate_i32_def)

text \<open>Truncating division by a positive divisor differs from the quotient by less than one.\<close>

lemma trunc_div_pos:
  assumes "0 < b"
  shows "trunc_div a b = (if 0 \<le> a then a div b else - ((- a) div b))"
  using assms by (auto simp: trunc_div_def sgn_if)

lemma trunc_div_error:
  assumes "0 < b"
  shows "\<bar>a - b * trunc_div a b\<bar> < b"
proof -
  have "b * (x div b) \<le> x \<and> x < b * (x div b) + b" for x :: int
    using assms pos_mod_bound [OF assms, of x] pos_mod_sign [OF assms, of x]
      mult_div_mod_eq [of b x] by linarith
  from this [of a] this [of "- a"] show ?thesis
    by (auto simp: trunc_div_pos [OF assms] algebra_simps abs_if)
qed

lemma trunc_div_0 [simp]: "trunc_div 0 b = 0"
  by (simp add: trunc_div_def)

lemma trunc_div_bound:
  assumes "0 < b" and "\<bar>a\<bar> \<le> b * c"
  shows "\<bar>trunc_div a b\<bar> \<le> c"
proof -
  have "\<bar>a\<bar> div b \<le> c"
    using zdiv_mono1 [OF assms(2,1)] assms(1) by simp
  moreover have "\<bar>trunc_div a b\<bar> = \<bar>a\<bar> div b \<or> trunc_div a b = 0"
    using assms(1) by (cases "a = 0") (auto simp: trunc_div_def abs_mult abs_sgn_eq
      pos_imp_zdiv_nonneg_iff)
  moreover have "0 \<le> c"
    using assms by (metis abs_ge_zero order_trans zero_le_mult_iff linorder_not_le)
  ultimately show ?thesis by auto
qed

subsection \<open>\<open>Ord::clamp\<close>\<close>

text \<open>\<open>clamp\<close> asserts \<open>min \<le> max\<close> in every build profile.\<close>

definition ord_clamp :: "'a::linorder \<Rightarrow> 'a \<Rightarrow> 'a \<Rightarrow> 'a option" where
  "ord_clamp x lo hi =
     (if lo \<le> hi then Some (if x < lo then lo else if hi < x then hi else x) else None)"

lemma ord_clamp_Some [simp]: "lo \<le> hi \<Longrightarrow> ord_clamp x lo hi = Some (max lo (min hi x))"
  by (auto simp: ord_clamp_def max_def min_def)

lemma ord_clamp_range: "ord_clamp x lo hi = Some y \<Longrightarrow> lo \<le> y \<and> y \<le> hi"
  by (auto simp: ord_clamp_def split: if_splits)

lemma ord_clamp_None_iff: "ord_clamp x lo hi = None \<longleftrightarrow> hi < lo"
  by (auto simp: ord_clamp_def)

lemma ord_clamp_id: "lo \<le> x \<Longrightarrow> x \<le> hi \<Longrightarrow> ord_clamp x lo hi = Some x"
  by (auto simp: ord_clamp_def)

subsection \<open>\<open>Result\<close> and the \<open>?\<close> operator\<close>

text \<open>\<open>Inl\<close> is \<open>Err\<close> and \<open>Inr\<close> is \<open>Ok\<close>; \<open>andthen r f\<close> is \<open>let x = r?; f(x)\<close>.\<close>

definition andthen :: "'e + 'a \<Rightarrow> ('a \<Rightarrow> 'e + 'b) \<Rightarrow> 'e + 'b" where
  "andthen r f = (case r of Inl e \<Rightarrow> Inl e | Inr x \<Rightarrow> f x)"

lemma andthen_simps [simp]: "andthen (Inl e) f = Inl e" "andthen (Inr x) f = f x"
  by (simp_all add: andthen_def)

lemma andthen_assoc: "andthen (andthen r f) g = andthen r (\<lambda>x. andthen (f x) g)"
  by (cases r) simp_all

lemma andthen_eq_Inr: "andthen r f = Inr y \<longleftrightarrow> (\<exists>x. r = Inr x \<and> f x = Inr y)"
  by (cases r) simp_all

lemma andthen_eq_Inl: "andthen r f = Inl e \<longleftrightarrow> r = Inl e \<or> (\<exists>x. r = Inr x \<and> f x = Inl e)"
  by (cases r) simp_all

subsection \<open>Little-endian bytes\<close>

text \<open>A buffer of a given length, written out.\<close>

lemma replicate_cons: "replicate (numeral n) x = x # replicate (pred_numeral n) x"
  by (simp add: numeral_eq_Suc)

text \<open>\<open>to_le_bytes\<close> and \<open>from_le_bytes\<close> of Rust's integer types, for any width.\<close>

definition to_le_bytes :: "'w::len word \<Rightarrow> u8 list" where
  "to_le_bytes w = map (\<lambda>i. ucast (drop_bit (8 * i) w)) [0..<LENGTH('w) div 8]"

definition from_le_bytes :: "u8 list \<Rightarrow> 'w::len word" where
  "from_le_bytes bs = foldr (\<lambda>b w. ucast b OR push_bit 8 w) bs 0"

lemma length_to_le_bytes [simp]: "length (to_le_bytes (w :: 'w::len word)) = LENGTH('w) div 8"
  by (simp add: to_le_bytes_def)

lemma bit_from_le_bytes:
  "bit (from_le_bytes bs :: 'w::len word) n \<longleftrightarrow>
     n < LENGTH('w) \<and> n div 8 < length bs \<and> bit (bs ! (n div 8)) (n mod 8)"
proof (induction bs arbitrary: n)
  case Nil
  then show ?case by (simp add: from_le_bytes_def)
next
  case (Cons b bs)
  have step: "from_le_bytes (b # bs) = (ucast b OR push_bit 8 (from_le_bytes bs) :: 'w word)"
    by (simp add: from_le_bytes_def)
  show ?case
  proof (cases "n < 8")
    case True
    then show ?thesis
      unfolding step by (auto simp: bit_simps)
  next
    case False
    then have "n div 8 = Suc ((n - 8) div 8)" and "n mod 8 = (n - 8) mod 8"
      by (simp_all add: le_div_geq le_mod_geq)
    moreover from False have "\<not> bit b n"
      using bit_imp_le_length [of b n] by auto
    ultimately show ?thesis
      unfolding step using False by (auto simp: bit_simps Cons.IH)
  qed
qed

lemma from_le_bytes_inverse:
  assumes "8 dvd LENGTH('w)"
  shows "from_le_bytes (to_le_bytes w) = (w :: 'w::len word)"
proof (rule bit_word_eqI)
  fix n
  assume n: "n < LENGTH('w)"
  with assms have "n div 8 < LENGTH('w) div 8"
    by (auto elim!: dvdE simp: less_mult_imp_div_less mult.commute)
  with n show "bit (from_le_bytes (to_le_bytes w) :: 'w word) n = bit w n"
    by (simp add: bit_from_le_bytes to_le_bytes_def bit_simps)
qed

lemma from_le_bytes_to_le_bytes [simp]:
  "from_le_bytes (to_le_bytes (a :: u8)) = a"
  "from_le_bytes (to_le_bytes (b :: u16)) = b"
  "from_le_bytes (to_le_bytes (c :: u32)) = c"
  by (simp_all add: from_le_bytes_inverse)

lemma to_le_bytes_from_le_bytes:
  assumes "length bs = LENGTH('w) div 8" and "8 dvd LENGTH('w)"
  shows "to_le_bytes (from_le_bytes bs :: 'w::len word) = bs"
proof (rule nth_equalityI)
  show "length (to_le_bytes (from_le_bytes bs :: 'w word)) = length bs"
    using assms by simp
next
  fix i
  assume i: "i < length (to_le_bytes (from_le_bytes bs :: 'w word))"
  with assms have lt: "8 * i + 8 \<le> LENGTH('w)"
    by (auto elim!: dvdE)
  show "to_le_bytes (from_le_bytes bs :: 'w word) ! i = bs ! i"
  proof (rule bit_word_eqI)
    fix n
    assume "n < LENGTH(8)"
    then have "n < 8" by simp
    moreover from this have "(8 * i + n) div 8 = i" and "(8 * i + n) mod 8 = n"
      by simp_all
    ultimately show "bit (to_le_bytes (from_le_bytes bs :: 'w word) ! i) n = bit (bs ! i) n"
      using i lt assms by (simp add: to_le_bytes_def bit_simps bit_from_le_bytes add.commute)
  qed
qed

subsection \<open>Decimal rendering\<close>

text \<open>\<open>Display\<close> of the unsigned integers.\<close>

fun show_nat :: "nat \<Rightarrow> string" where
  "show_nat n =
     (if n < 10 then [char_of (48 + n)] else show_nat (n div 10) @ [char_of (48 + n mod 10)])"

declare show_nat.simps [simp del]

end
