(* ===== verification/Wire.thy ===== *)
theory Wire
  imports Prelude
begin

text \<open>
  The cursor-based little-endian reader and the bounded writer of LinUDP
  (\<open>linmot/src/udp/reader.rs\<close>, \<open>linmot/src/udp/writer.rs\<close>), with the traits
  \<open>WireRead\<close> and \<open>WireWrite\<close> as locales: what an implementation of the trait promises to
  the code that chains it.  The primitive integers are the first implementations.
\<close>

subsection \<open>Reader\<close>

datatype ReadError = Underflow nat nat \<comment> \<open>needed, have\<close>

record reader =
  reader_buf :: "u8 list"
  reader_idx :: nat

definition Reader_new :: "u8 list \<Rightarrow> reader" where
  "Reader_new buf = \<lparr>reader_buf = buf, reader_idx = 0\<rparr>"

definition read_bytes :: "nat \<Rightarrow> reader \<Rightarrow> ReadError + u8 list \<times> reader" where
  "read_bytes n r =
     (if reader_idx r + n > length (reader_buf r)
      then Inl (Underflow n (length (reader_buf r) - reader_idx r))
      else Inr (take n (drop (reader_idx r) (reader_buf r)), r\<lparr>reader_idx := reader_idx r + n\<rparr>))"

definition read_u8 :: "reader \<Rightarrow> ReadError + u8 \<times> reader" where
  "read_u8 r = andthen (read_bytes 1 r) (\<lambda>(b, r). Inr (b ! 0, r))"

definition read_u16_le :: "reader \<Rightarrow> ReadError + u16 \<times> reader" where
  "read_u16_le r = andthen (read_bytes 2 r) (\<lambda>(b, r). Inr (from_le_bytes [b ! 0, b ! 1], r))"

definition read_i16_le :: "reader \<Rightarrow> ReadError + i16 \<times> reader" where
  "read_i16_le r = andthen (read_bytes 2 r) (\<lambda>(b, r). Inr (from_le_bytes [b ! 0, b ! 1], r))"

definition read_u32_le :: "reader \<Rightarrow> ReadError + u32 \<times> reader" where
  "read_u32_le r =
     andthen (read_bytes 4 r) (\<lambda>(b, r). Inr (from_le_bytes [b ! 0, b ! 1, b ! 2, b ! 3], r))"

definition read_i32_le :: "reader \<Rightarrow> ReadError + i32 \<times> reader" where
  "read_i32_le r =
     andthen (read_bytes 4 r) (\<lambda>(b, r). Inr (from_le_bytes [b ! 0, b ! 1, b ! 2, b ! 3], r))"

definition read_tuple4 ::
    "(reader \<Rightarrow> ReadError + 'a \<times> reader) \<Rightarrow> reader \<Rightarrow> ReadError + ('a \<times> 'a \<times> 'a \<times> 'a) \<times> reader"
where
  "read_tuple4 read_from r =
     andthen (read_from r) (\<lambda>(a, r).
     andthen (read_from r) (\<lambda>(b, r).
     andthen (read_from r) (\<lambda>(c, r).
     andthen (read_from r) (\<lambda>(d, r). Inr ((a, b, c, d), r)))))"

subsection \<open>Writer\<close>

datatype WriteError =
    Overflow nat nat \<comment> \<open>needed, have\<close>
  | TooManyParameters nat \<comment> \<open>length\<close>

record writer =
  writer_buf :: "u8 list"
  writer_idx :: nat

definition Writer_new :: "u8 list \<Rightarrow> writer" where
  "Writer_new buf = \<lparr>writer_buf = buf, writer_idx = 0\<rparr>"

definition Writer_pos :: "writer \<Rightarrow> nat" where
  "Writer_pos w = writer_idx w"

definition Writer_remaining :: "writer \<Rightarrow> nat" where
  "Writer_remaining w = length (writer_buf w) - writer_idx w"

definition write_bytes :: "u8 list \<Rightarrow> writer \<Rightarrow> WriteError + writer" where
  "write_bytes bytes w =
     (let needed = length bytes in
      if writer_idx w + needed > length (writer_buf w)
      then Inl (Overflow needed (Writer_remaining w))
      else
        let end = writer_idx w + needed in
        Inr (w\<lparr>writer_buf := take (writer_idx w) (writer_buf w) @ bytes @ drop end (writer_buf w),
               writer_idx := end\<rparr>))"

definition write_u8 :: "u8 \<Rightarrow> writer \<Rightarrow> WriteError + writer" where
  "write_u8 v w = write_bytes [v] w"

definition write_u16_le :: "u16 \<Rightarrow> writer \<Rightarrow> WriteError + writer" where
  "write_u16_le v w = write_bytes (to_le_bytes v) w"

definition write_i16_le :: "i16 \<Rightarrow> writer \<Rightarrow> WriteError + writer" where
  "write_i16_le v w = write_bytes (to_le_bytes v) w"

definition write_u32_le :: "u32 \<Rightarrow> writer \<Rightarrow> WriteError + writer" where
  "write_u32_le v w = write_bytes (to_le_bytes v) w"

definition write_i32_le :: "i32 \<Rightarrow> writer \<Rightarrow> WriteError + writer" where
  "write_i32_le v w = write_bytes (to_le_bytes v) w"

subsection \<open>The contract of \<open>WireRead\<close>\<close>

lemma take_drop_append: "n = k + m \<Longrightarrow> take m (drop k xs) @ drop n xs = drop k xs"
  by (metis append_take_drop_id drop_drop add.commute)

definition unread :: "reader \<Rightarrow> u8 list" where
  "unread r = drop (reader_idx r) (reader_buf r)"

definition advance :: "nat \<Rightarrow> reader \<Rightarrow> reader" where
  "advance n r = r\<lparr>reader_idx := reader_idx r + n\<rparr>"

lemma advance_0 [simp]: "advance 0 r = r"
  by (simp add: advance_def)

lemma unread_advance [simp]: "unread (advance n r) = drop n (unread r)"
  by (simp add: unread_def advance_def add.commute)

lemma advance_advance [simp]: "advance n (advance m r) = advance (m + n) r"
  by (simp add: advance_def add.assoc)

lemma unread_Reader_new [simp]: "unread (Reader_new buf) = buf"
  by (simp add: unread_def Reader_new_def)

lemma read_bytes_eq:
  "reader_idx r \<le> length (reader_buf r) \<or> 0 < n \<Longrightarrow>
   read_bytes n r =
     (if length (unread r) < n then Inl (Underflow n (length (unread r)))
      else Inr (take n (unread r), advance n r))"
  by (auto simp: read_bytes_def unread_def advance_def)

text \<open>
  A \<open>WireRead\<close> implementation takes a fixed number of bytes off the unread input and decodes
  them, or reports an underflow: it never looks past them and never stops short.
\<close>

locale wire_read =
  fixes read_from :: "reader \<Rightarrow> ReadError + 'a \<times> reader"
    and size_of :: nat
    and dec :: "u8 list \<Rightarrow> 'a"
  assumes read_ok: "size_of \<le> length (unread r) \<Longrightarrow>
      read_from r = Inr (dec (take size_of (unread r)), advance size_of r)"
    and read_underflow: "length (unread r) < size_of \<Longrightarrow>
      \<exists>needed avail. read_from r = Inl (Underflow needed avail)"
begin

lemma read_Inr_iff: "(\<exists>x. read_from r = Inr x) \<longleftrightarrow> size_of \<le> length (unread r)"
  using read_ok [of r] read_underflow [of r] by (cases "size_of \<le> length (unread r)") auto

lemma read_bind:
  assumes "size_of \<le> length (unread r)"
  shows "andthen (read_from r) f = f (dec (take size_of (unread r)), advance size_of r)"
  using read_ok [OF assms] by simp

lemma read_bind_underflow:
  assumes "length (unread r) < size_of"
  shows "\<exists>needed avail. andthen (read_from r) f = Inl (Underflow needed avail)"
  using read_underflow [OF assms] by auto

end

text \<open>
  Implementations compose: returning a value reads nothing, and reading one value and then
  another, chosen by the first, reads both.
\<close>

lemma wire_read_return [wire_reads]: "wire_read (\<lambda>r. Inr (x, r)) 0 (\<lambda>_. x)"
  by unfold_locales simp_all

lemma wire_read_bind [wire_reads]:
  assumes f: "wire_read f m d" and g: "\<And>x. wire_read (g x) n (e x)"
  shows "wire_read (\<lambda>r. andthen (f r) (\<lambda>(x, r). g x r)) (m + n)
    (\<lambda>bs. e (d (take m bs)) (drop m bs))"
proof
  fix r
  assume "m + n \<le> length (unread r)"
  then have "m \<le> length (unread r)" and "n \<le> length (unread (advance m r))"
    by simp_all
  then show "andthen (f r) (\<lambda>(x, r). g x r) =
      Inr (e (d (take m (take (m + n) (unread r)))) (drop m (take (m + n) (unread r))),
           advance (m + n) r)"
    by (simp add: wire_read.read_ok [OF f] wire_read.read_ok [OF g] drop_take min_absorb1)
next
  fix r
  assume short: "length (unread r) < m + n"
  show "\<exists>needed avail. andthen (f r) (\<lambda>(x, r). g x r) = Inl (Underflow needed avail)"
  proof (cases "m \<le> length (unread r)")
    case True
    with short have "length (unread (advance m r)) < n"
      by simp
    with True show ?thesis
      using wire_read.read_underflow [OF g, of "advance m r"]
      by (auto simp: wire_read.read_ok [OF f])
  next
    case False
    then show ?thesis
      using wire_read.read_underflow [OF f, of r] by auto
  qed
qed

lemma wire_read_map:
  assumes f: "wire_read f n d"
  shows "wire_read (\<lambda>r. andthen (f r) (\<lambda>(x, r). Inr (h x, r))) n (\<lambda>bs. h (d bs))"
proof
  show "\<exists>needed avail. andthen (f r) (\<lambda>(x, r). Inr (h x, r)) = Inl (Underflow needed avail)"
    if "length (unread r) < n" for r
    using wire_read.read_underflow [OF f that] by auto
qed (simp add: wire_read.read_ok [OF f])

lemma wire_read_from_bytes:
  assumes "0 < n" and "\<And>r. f r = andthen (read_bytes n r) (\<lambda>(b, r). Inr (d b, r))"
  shows "wire_read f n d"
  using assms by unfold_locales (simp_all add: read_bytes_eq)

subsection \<open>The contract of \<open>WireWrite\<close>\<close>

definition put :: "u8 list \<Rightarrow> writer \<Rightarrow> writer" where
  "put bs w = w\<lparr>writer_buf := take (writer_idx w) (writer_buf w) @ bs
                    @ drop (writer_idx w + length bs) (writer_buf w),
                 writer_idx := writer_idx w + length bs\<rparr>"

definition room :: "writer \<Rightarrow> nat \<Rightarrow> bool" where
  "room w n \<longleftrightarrow> writer_idx w + n \<le> length (writer_buf w)"

definition writer_ok :: "writer \<Rightarrow> bool" where
  "writer_ok w \<longleftrightarrow> writer_idx w \<le> length (writer_buf w)"

lemma writer_ok_new [simp]: "writer_ok (Writer_new buf)"
  by (simp add: writer_ok_def Writer_new_def)

lemma writer_ok_put [simp]: "room w (length bs) \<Longrightarrow> writer_ok (put bs w)"
  by (simp add: writer_ok_def room_def put_def)

lemma put_Nil [simp]: "put [] w = w"
  by (simp add: put_def)

lemma put_put: "room w (length as) \<Longrightarrow> put bs (put as w) = put (as @ bs) w"
  by (simp add: put_def room_def ac_simps)

lemma room_put [simp]: "room w (length as) \<Longrightarrow> room (put as w) n \<longleftrightarrow> room w (length as + n)"
  by (auto simp: put_def room_def)

lemma room_mono: "room w n \<Longrightarrow> m \<le> n \<Longrightarrow> room w m"
  by (simp add: room_def)

lemma writer_idx_put [simp]: "writer_idx (put bs w) = writer_idx w + length bs"
  by (simp add: put_def)

lemma length_writer_buf_put [simp]:
  "room w (length bs) \<Longrightarrow> length (writer_buf (put bs w)) = length (writer_buf w)"
  by (simp add: put_def room_def)

lemma write_bytes_eq:
  "write_bytes bs w =
     (if room w (length bs) then Inr (put bs w)
      else Inl (Overflow (length bs) (Writer_remaining w)))"
  by (auto simp: write_bytes_def room_def put_def Let_def)

text \<open>
  A \<open>WireWrite\<close> implementation appends the encoding of its value at the cursor and leaves the
  rest of the buffer as it was, or reports an overflow.
\<close>

locale wire_write =
  fixes write_to :: "'a \<Rightarrow> writer \<Rightarrow> WriteError + writer"
    and enc :: "'a \<Rightarrow> u8 list"
  assumes write_ok: "room w (length (enc x)) \<Longrightarrow> write_to x w = Inr (put (enc x) w)"
    and write_overflow: "writer_ok w \<Longrightarrow> \<not> room w (length (enc x)) \<Longrightarrow>
      \<exists>needed avail. write_to x w = Inl (Overflow needed avail)"
begin

lemma write_Inr_iff:
  "writer_ok w \<Longrightarrow> (\<exists>w'. write_to x w = Inr w') \<longleftrightarrow> room w (length (enc x))"
  using write_ok [of w x] write_overflow [of w x] by (cases "room w (length (enc x))") auto

end

text \<open>
  Composition, as rules on one value: \<open>emits f bs\<close> is the contract of the write \<open>f\<close> of a
  value with encoding \<open>bs\<close>.
\<close>

definition emits :: "(writer \<Rightarrow> WriteError + writer) \<Rightarrow> u8 list \<Rightarrow> bool" where
  "emits f bs \<longleftrightarrow>
     (\<forall>w. (room w (length bs) \<longrightarrow> f w = Inr (put bs w)) \<and>
          (writer_ok w \<and> \<not> room w (length bs) \<longrightarrow>
             (\<exists>needed avail. f w = Inl (Overflow needed avail))))"

lemma emitsI:
  assumes "\<And>w. room w (length bs) \<Longrightarrow> f w = Inr (put bs w)"
    and "\<And>w. writer_ok w \<Longrightarrow> \<not> room w (length bs) \<Longrightarrow>
          \<exists>needed avail. f w = Inl (Overflow needed avail)"
  shows "emits f bs"
  using assms by (auto simp: emits_def)

lemma emits_ok: "emits f bs \<Longrightarrow> room w (length bs) \<Longrightarrow> f w = Inr (put bs w)"
  by (simp add: emits_def)

lemma emits_overflow:
  "emits f bs \<Longrightarrow> writer_ok w \<Longrightarrow> \<not> room w (length bs) \<Longrightarrow>
   \<exists>needed avail. f w = Inl (Overflow needed avail)"
  by (auto simp: emits_def)

lemma emits_bytes [wire_writes]: "emits (write_bytes bs) bs"
  by (rule emitsI) (simp_all add: write_bytes_eq)

lemma emits_nothing [wire_writes]: "emits Inr []"
  by (rule emitsI) (simp_all add: room_def writer_ok_def)

lemma emits_andthen [wire_writes]:
  assumes f: "emits f as" and g: "emits g bs"
  shows "emits (\<lambda>w. andthen (f w) g) (as @ bs)"
proof (rule emitsI)
  fix w
  assume "room w (length (as @ bs))"
  then have "room w (length as)" and "room w (length as + length bs)"
    by (auto elim: room_mono)
  then show "andthen (f w) g = Inr (put (as @ bs) w)"
    using emits_ok [OF f, of w] emits_ok [OF g, of "put as w"] by (simp add: put_put)
next
  fix w
  assume ok: "writer_ok w" and short: "\<not> room w (length (as @ bs))"
  show "\<exists>needed avail. andthen (f w) g = Inl (Overflow needed avail)"
  proof (cases "room w (length as)")
    case True
    with short emits_overflow [OF g, of "put as w"] show ?thesis
      by (simp add: emits_ok [OF f])
  next
    case False
    with emits_overflow [OF f ok] show ?thesis
      by fastforce
  qed
qed

lemma wire_write_emits: "wire_write write_to enc \<longleftrightarrow> (\<forall>x. emits (write_to x) (enc x))"
  unfolding wire_write_def by (auto intro: emitsI emits_ok emits_overflow)

text \<open>An optional value is written if it is there.\<close>

definition opt_bytes :: "('a \<Rightarrow> u8 list) \<Rightarrow> 'a option \<Rightarrow> u8 list" where
  "opt_bytes enc x = (case x of None \<Rightarrow> [] | Some x \<Rightarrow> enc x)"

lemma opt_bytes_simps [simp]: "opt_bytes enc None = []" "opt_bytes enc (Some x) = enc x"
  by (simp_all add: opt_bytes_def)

lemma emits_option [wire_writes]:
  "(\<And>x. emits (f x) (enc x)) \<Longrightarrow>
   emits (\<lambda>w. case v of None \<Rightarrow> Inr w | Some x \<Rightarrow> f x w) (opt_bytes enc v)"
  by (cases v) (simp_all add: emits_nothing)

subsection \<open>Types that are both read and written\<close>

locale wire_codec = wire_read read_from size_of dec + wire_write write_to enc
  for read_from :: "reader \<Rightarrow> ReadError + 'a \<times> reader"
    and size_of :: nat
    and dec :: "u8 list \<Rightarrow> 'a"
    and write_to :: "'a \<Rightarrow> writer \<Rightarrow> WriteError + writer"
    and enc :: "'a \<Rightarrow> u8 list" +
  assumes length_enc: "length (enc x) = size_of"
    and dec_enc: "dec (enc x) = x"
    and enc_dec: "length bs = size_of \<Longrightarrow> enc (dec bs) = bs"
begin

lemma read_enc: "unread r = enc x @ bs \<Longrightarrow> read_from r = Inr (x, advance size_of r)"
  using read_ok [of r] by (simp add: length_enc dec_enc)

text \<open>Writing a value and reading the buffer from the same place gives the value back.\<close>

lemma write_then_read:
  assumes "write_to x w = Inr w'" and "writer_ok w"
  shows "\<exists>r'. read_from \<lparr>reader_buf = writer_buf w', reader_idx = writer_idx w\<rparr> = Inr (x, r')"
proof -
  have room: "room w (length (enc x))"
    using assms write_Inr_iff by blast
  then have "unread \<lparr>reader_buf = writer_buf w', reader_idx = writer_idx w\<rparr> =
      enc x @ drop (writer_idx w + length (enc x)) (writer_buf w)"
    using assms write_ok [OF room] by (auto simp: unread_def put_def room_def)
  then show ?thesis
    using read_enc by blast
qed

lemma enc_inject: "enc x = enc y \<longleftrightarrow> x = y"
  by (metis dec_enc)

end

subsection \<open>The primitive integers\<close>

lemma from_le_bytes_nths:
  "length b = 1 \<Longrightarrow> b ! 0 = from_le_bytes b"
  "length b = 2 \<Longrightarrow> [b ! 0, b ! 1] = b"
  "length b = 4 \<Longrightarrow> [b ! 0, b ! 1, b ! 2, b ! 3] = b"
  by (auto simp: length_Suc_conv eval_nat_numeral from_le_bytes_def)

lemma read_bytes_cong:
  assumes "0 < n" and "\<And>b. length b = n \<Longrightarrow> f b = g b"
  shows "andthen (read_bytes n r) (\<lambda>(b, r). Inr (f b, r)) =
         andthen (read_bytes n r) (\<lambda>(b, r). Inr (g b, r))"
  using assms by (simp add: read_bytes_eq)

lemma wire_read_prims [wire_reads]:
  "wire_read read_u8 1 from_le_bytes"
  "wire_read read_u16_le 2 from_le_bytes"
  "wire_read read_i16_le 2 from_le_bytes"
  "wire_read read_u32_le 4 from_le_bytes"
  "wire_read read_i32_le 4 from_le_bytes"
  unfolding read_u8_def [abs_def] read_u16_le_def [abs_def] read_i16_le_def [abs_def]
    read_u32_le_def [abs_def] read_i32_le_def [abs_def]
  by (rule wire_read_from_bytes, simp, rule read_bytes_cong, simp, simp add: from_le_bytes_nths del: One_nat_def)+

lemma to_le_bytes_u8: "to_le_bytes (v :: u8) = [v]"
  by (simp add: to_le_bytes_def)

lemma emits_prims [wire_writes]:
  "emits (write_u8 a) (to_le_bytes a)"
  "emits (write_u16_le b) (to_le_bytes b)"
  "emits (write_i16_le c) (to_le_bytes c)"
  "emits (write_u32_le d) (to_le_bytes d)"
  "emits (write_i32_le e) (to_le_bytes e)"
  by (simp_all add: write_u8_def [abs_def] write_u16_le_def [abs_def] write_i16_le_def [abs_def]
      write_u32_le_def [abs_def] write_i32_le_def [abs_def] to_le_bytes_u8 emits_bytes)

interpretation u8_codec: wire_codec read_u8 1 from_le_bytes write_u8 to_le_bytes
  by (intro wire_codec.intro wire_codec_axioms.intro)
    (simp_all add: wire_read_prims wire_write_emits emits_prims to_le_bytes_from_le_bytes
      del: One_nat_def)

interpretation u16_codec: wire_codec read_u16_le 2 from_le_bytes write_u16_le to_le_bytes
  by (intro wire_codec.intro wire_codec_axioms.intro)
    (simp_all add: wire_read_prims wire_write_emits emits_prims to_le_bytes_from_le_bytes
      del: One_nat_def)

interpretation i16_codec: wire_codec read_i16_le 2 from_le_bytes write_i16_le to_le_bytes
  by (intro wire_codec.intro wire_codec_axioms.intro)
    (simp_all add: wire_read_prims wire_write_emits emits_prims to_le_bytes_from_le_bytes
      del: One_nat_def)

interpretation u32_codec: wire_codec read_u32_le 4 from_le_bytes write_u32_le to_le_bytes
  by (intro wire_codec.intro wire_codec_axioms.intro)
    (simp_all add: wire_read_prims wire_write_emits emits_prims to_le_bytes_from_le_bytes
      del: One_nat_def)

interpretation i32_codec: wire_codec read_i32_le 4 from_le_bytes write_i32_le to_le_bytes
  by (intro wire_codec.intro wire_codec_axioms.intro)
    (simp_all add: wire_read_prims wire_write_emits emits_prims to_le_bytes_from_le_bytes
      del: One_nat_def)

end
