(* ===== verification/Units.thy ===== *)
theory Units
  imports Wire
begin

text \<open>
  The physical quantities of \<open>linmot/src/mci/units.rs\<close>: newtypes over \<open>i32\<close> and
  \<open>i16\<close> with the derived order (the signed order of the payload), the operator
  implementations the macro \<open>impl_std_ops\<close> generates, the integer unit conversions, and the
  wire format of the quantities that travel.  The conversions from \<open>f64\<close> are in the theory
  \<open>Conversions\<close>, the \<open>Debug\<close> formatting (\<open>fmt_scaled\<close>) in \<open>QuantityText\<close>.
\<close>

subsection \<open>The newtypes and their order\<close>

text \<open>0.1 \<open>\<mu>m\<close>; 1 \<open>\<mu>m/s\<close>; 10 \<open>\<mu>m/s\<^sup>2\<close>; 100 \<open>\<mu>m/s\<^sup>3\<close>; 1 mA; 0.1 degrees C; 50/51 degrees C.\<close>

datatype Position = Position (position_0: i32)

datatype Velocity = Velocity (velocity_0: i32)

datatype Acceleration = Acceleration (acceleration_0: i32)

datatype Jerk = Jerk (jerk_0: i32)

datatype Current = Current (current_0: i16)

datatype DriveTemperature = DriveTemperature (drive_temperature_0: i16)

datatype MotorTemperature = MotorTemperature (motor_temperature_0: i16)

text \<open>\<open>derive(PartialOrd, Ord)\<close>.\<close>

instantiation Position :: linorder
begin
definition less_eq_Position :: "Position \<Rightarrow> Position \<Rightarrow> bool" where
  "less_eq_Position a b \<longleftrightarrow> sint (position_0 a) \<le> sint (position_0 b)"
definition less_Position :: "Position \<Rightarrow> Position \<Rightarrow> bool" where
  "less_Position a b \<longleftrightarrow> sint (position_0 a) < sint (position_0 b)"
instance
  by standard (auto simp: less_eq_Position_def less_Position_def sint_inject intro: Position.expand)
end

instantiation Velocity :: linorder
begin
definition less_eq_Velocity :: "Velocity \<Rightarrow> Velocity \<Rightarrow> bool" where
  "less_eq_Velocity a b \<longleftrightarrow> sint (velocity_0 a) \<le> sint (velocity_0 b)"
definition less_Velocity :: "Velocity \<Rightarrow> Velocity \<Rightarrow> bool" where
  "less_Velocity a b \<longleftrightarrow> sint (velocity_0 a) < sint (velocity_0 b)"
instance
  by standard (auto simp: less_eq_Velocity_def less_Velocity_def sint_inject intro: Velocity.expand)
end

instantiation Acceleration :: linorder
begin
definition less_eq_Acceleration :: "Acceleration \<Rightarrow> Acceleration \<Rightarrow> bool" where
  "less_eq_Acceleration a b \<longleftrightarrow> sint (acceleration_0 a) \<le> sint (acceleration_0 b)"
definition less_Acceleration :: "Acceleration \<Rightarrow> Acceleration \<Rightarrow> bool" where
  "less_Acceleration a b \<longleftrightarrow> sint (acceleration_0 a) < sint (acceleration_0 b)"
instance
  by standard (auto simp: less_eq_Acceleration_def less_Acceleration_def sint_inject intro: Acceleration.expand)
end

instantiation Jerk :: linorder
begin
definition less_eq_Jerk :: "Jerk \<Rightarrow> Jerk \<Rightarrow> bool" where
  "less_eq_Jerk a b \<longleftrightarrow> sint (jerk_0 a) \<le> sint (jerk_0 b)"
definition less_Jerk :: "Jerk \<Rightarrow> Jerk \<Rightarrow> bool" where
  "less_Jerk a b \<longleftrightarrow> sint (jerk_0 a) < sint (jerk_0 b)"
instance
  by standard (auto simp: less_eq_Jerk_def less_Jerk_def sint_inject intro: Jerk.expand)
end

instantiation Current :: linorder
begin
definition less_eq_Current :: "Current \<Rightarrow> Current \<Rightarrow> bool" where
  "less_eq_Current a b \<longleftrightarrow> sint (current_0 a) \<le> sint (current_0 b)"
definition less_Current :: "Current \<Rightarrow> Current \<Rightarrow> bool" where
  "less_Current a b \<longleftrightarrow> sint (current_0 a) < sint (current_0 b)"
instance
  by standard (auto simp: less_eq_Current_def less_Current_def sint_inject intro: Current.expand)
end

instantiation DriveTemperature :: linorder
begin
definition less_eq_DriveTemperature :: "DriveTemperature \<Rightarrow> DriveTemperature \<Rightarrow> bool" where
  "less_eq_DriveTemperature a b \<longleftrightarrow> sint (drive_temperature_0 a) \<le> sint (drive_temperature_0 b)"
definition less_DriveTemperature :: "DriveTemperature \<Rightarrow> DriveTemperature \<Rightarrow> bool" where
  "less_DriveTemperature a b \<longleftrightarrow> sint (drive_temperature_0 a) < sint (drive_temperature_0 b)"
instance
  by standard (auto simp: less_eq_DriveTemperature_def less_DriveTemperature_def sint_inject intro: DriveTemperature.expand)
end

instantiation MotorTemperature :: linorder
begin
definition less_eq_MotorTemperature :: "MotorTemperature \<Rightarrow> MotorTemperature \<Rightarrow> bool" where
  "less_eq_MotorTemperature a b \<longleftrightarrow> sint (motor_temperature_0 a) \<le> sint (motor_temperature_0 b)"
definition less_MotorTemperature :: "MotorTemperature \<Rightarrow> MotorTemperature \<Rightarrow> bool" where
  "less_MotorTemperature a b \<longleftrightarrow> sint (motor_temperature_0 a) < sint (motor_temperature_0 b)"
instance
  by standard (auto simp: less_eq_MotorTemperature_def less_MotorTemperature_def sint_inject intro: MotorTemperature.expand)
end

text \<open>
  What the rest of the program uses of a quantity: its payload determines it, and its order is
  the signed order of the payload, so a clamped quantity has a clamped payload.
\<close>

locale signed_quantity =
  fixes mk :: "'w::len word \<Rightarrow> 'a::linorder"
    and raw :: "'a \<Rightarrow> 'w word"
  assumes raw_mk: "raw (mk w) = w"
    and mk_raw: "mk (raw a) = a"
    and le_iff: "a \<le> b \<longleftrightarrow> sint (raw a) \<le> sint (raw b)"
begin

lemma less_iff: "a < b \<longleftrightarrow> sint (raw a) < sint (raw b)"
  by (metis le_iff not_le)

lemma raw_inject: "raw a = raw b \<longleftrightarrow> a = b"
  by (metis mk_raw)

lemma sint_max: "sint (raw (max a b)) = max (sint (raw a)) (sint (raw b))"
  by (simp add: max_def le_iff)

lemma sint_min: "sint (raw (min a b)) = min (sint (raw a)) (sint (raw b))"
  by (simp add: min_def le_iff)

lemma sint_clamp:
  "ord_clamp x lo hi = Some y \<Longrightarrow>
   sint (raw y) = max (sint (raw lo)) (min (sint (raw hi)) (sint (raw x)))"
  by (auto simp: ord_clamp_def le_iff less_iff split: if_splits)

lemma clamp_bounds:
  "ord_clamp x lo hi = Some y \<Longrightarrow>
   sint (raw lo) \<le> sint (raw y) \<and> sint (raw y) \<le> sint (raw hi)"
  using ord_clamp_range [of x lo hi y] by (simp add: le_iff)

end

interpretation position: signed_quantity Position position_0
  by unfold_locales (simp_all add: less_eq_Position_def)

interpretation velocity: signed_quantity Velocity velocity_0
  by unfold_locales (simp_all add: less_eq_Velocity_def)

interpretation acceleration: signed_quantity Acceleration acceleration_0
  by unfold_locales (simp_all add: less_eq_Acceleration_def)

interpretation jerk: signed_quantity Jerk jerk_0
  by unfold_locales (simp_all add: less_eq_Jerk_def)

interpretation current: signed_quantity Current current_0
  by unfold_locales (simp_all add: less_eq_Current_def)

interpretation drive_temperature: signed_quantity DriveTemperature drive_temperature_0
  by unfold_locales (simp_all add: less_eq_DriveTemperature_def)

interpretation motor_temperature: signed_quantity MotorTemperature motor_temperature_0
  by unfold_locales (simp_all add: less_eq_MotorTemperature_def)

subsection \<open>Operators\<close>

text \<open>
  \<open>impl_std_ops!\<close> gives every quantity \<open>ZERO\<close>, negation and the four operations (with
  their assigning forms) on the payload.  Addition, subtraction, multiplication and negation
  follow the build profile on overflow; division panics on a zero divisor and on
  \<open>MIN / -1\<close> in every profile.
\<close>

definition ops_ZERO :: "'w::len word" where
  "ops_ZERO = 0"

definition ops_neg :: "profile \<Rightarrow> 'w::len word \<Rightarrow> 'w word option" where
  "ops_neg p a = arith_word p (- sint a)"

definition ops_add :: "profile \<Rightarrow> 'w::len word \<Rightarrow> 'w word \<Rightarrow> 'w word option" where
  "ops_add p a b = arith_word p (sint a + sint b)"

definition ops_sub :: "profile \<Rightarrow> 'w::len word \<Rightarrow> 'w word \<Rightarrow> 'w word option" where
  "ops_sub p a b = arith_word p (sint a - sint b)"

definition ops_mul :: "profile \<Rightarrow> 'w::len word \<Rightarrow> 'w word \<Rightarrow> 'w word option" where
  "ops_mul p a b = arith_word p (sint a * sint b)"

definition ops_div :: "'w::len word \<Rightarrow> 'w word \<Rightarrow> 'w word option" where
  "ops_div a b =
     (if b = 0 then None else arith_word Debug (trunc_div (sint a) (sint b)))"

abbreviation Position_ZERO :: Position where
  "Position_ZERO \<equiv> Position ops_ZERO"

text \<open>\<open>Default\<close> of every quantity is zero.\<close>

abbreviation Position_default :: Position where
  "Position_default \<equiv> Position 0"

abbreviation Velocity_default :: Velocity where
  "Velocity_default \<equiv> Velocity 0"

abbreviation Acceleration_default :: Acceleration where
  "Acceleration_default \<equiv> Acceleration 0"

subsection \<open>Conversions\<close>

definition Position_from_millimeters :: "profile \<Rightarrow> i32 \<Rightarrow> Position option" where
  "Position_from_millimeters p mm = map_option Position (arith_word p (sint mm * 10000))"

definition Velocity_from_millimeters_per_second :: "profile \<Rightarrow> i32 \<Rightarrow> Velocity option" where
  "Velocity_from_millimeters_per_second p v = map_option Velocity (arith_word p (sint v * 1000))"

definition Velocity_from_meters_per_second :: "profile \<Rightarrow> i32 \<Rightarrow> Velocity option" where
  "Velocity_from_meters_per_second p v = map_option Velocity (arith_word p (sint v * 1000000))"

definition Acceleration_from_meters_per_second_squared ::
    "profile \<Rightarrow> i32 \<Rightarrow> Acceleration option" where
  "Acceleration_from_meters_per_second_squared p a =
     map_option Acceleration (arith_word p (sint a * 100000))"

definition Acceleration_from_millimeters_per_second_squared ::
    "profile \<Rightarrow> i32 \<Rightarrow> Acceleration option" where
  "Acceleration_from_millimeters_per_second_squared p a =
     map_option Acceleration (arith_word p (sint a * 100))"

definition Jerk_from_meters_per_second_cubed :: "profile \<Rightarrow> i32 \<Rightarrow> Jerk option" where
  "Jerk_from_meters_per_second_cubed p j = map_option Jerk (arith_word p (sint j * 10000))"

definition Jerk_from_millimeters_per_second_cubed :: "profile \<Rightarrow> i32 \<Rightarrow> Jerk option" where
  "Jerk_from_millimeters_per_second_cubed p j = map_option Jerk (arith_word p (sint j * 10))"

subsection \<open>Wire format\<close>

definition Position_read_from :: "reader \<Rightarrow> ReadError + Position \<times> reader" where
  "Position_read_from r = andthen (read_i32_le r) (\<lambda>(x, r). Inr (Position x, r))"

definition Position_write_to :: "Position \<Rightarrow> writer \<Rightarrow> WriteError + writer" where
  "Position_write_to x w = write_i32_le (position_0 x) w"

definition Velocity_read_from :: "reader \<Rightarrow> ReadError + Velocity \<times> reader" where
  "Velocity_read_from r = andthen (read_i32_le r) (\<lambda>(x, r). Inr (Velocity x, r))"

definition Velocity_write_to :: "Velocity \<Rightarrow> writer \<Rightarrow> WriteError + writer" where
  "Velocity_write_to x w = write_i32_le (velocity_0 x) w"

definition Acceleration_read_from :: "reader \<Rightarrow> ReadError + Acceleration \<times> reader" where
  "Acceleration_read_from r = andthen (read_i32_le r) (\<lambda>(x, r). Inr (Acceleration x, r))"

definition Acceleration_write_to :: "Acceleration \<Rightarrow> writer \<Rightarrow> WriteError + writer" where
  "Acceleration_write_to x w = write_i32_le (acceleration_0 x) w"

definition Jerk_write_to :: "Jerk \<Rightarrow> writer \<Rightarrow> WriteError + writer" where
  "Jerk_write_to x w = write_i32_le (jerk_0 x) w"

definition Current_read_from :: "reader \<Rightarrow> ReadError + Current \<times> reader" where
  "Current_read_from r = andthen (read_i16_le r) (\<lambda>(x, r). Inr (Current x, r))"

text \<open>The bytes of a quantity are the little-endian bytes of its payload.\<close>

lemma emits_quantities [wire_writes]:
  "emits (Position_write_to x) (to_le_bytes (position_0 x))"
  "emits (Velocity_write_to v) (to_le_bytes (velocity_0 v))"
  "emits (Acceleration_write_to a) (to_le_bytes (acceleration_0 a))"
  "emits (Jerk_write_to j) (to_le_bytes (jerk_0 j))"
  by (simp_all add: Position_write_to_def [abs_def] Velocity_write_to_def [abs_def]
      Acceleration_write_to_def [abs_def] Jerk_write_to_def [abs_def] emits_prims)

lemma wire_read_quantities [wire_reads]:
  "wire_read Position_read_from 4 (\<lambda>bs. Position (from_le_bytes bs))"
  "wire_read Velocity_read_from 4 (\<lambda>bs. Velocity (from_le_bytes bs))"
  "wire_read Acceleration_read_from 4 (\<lambda>bs. Acceleration (from_le_bytes bs))"
  "wire_read Current_read_from 2 (\<lambda>bs. Current (from_le_bytes bs))"
  unfolding Position_read_from_def [abs_def] Velocity_read_from_def [abs_def]
    Acceleration_read_from_def [abs_def] Current_read_from_def [abs_def]
  by (rule wire_read_map, rule wire_read_prims)+

interpretation position_codec: wire_codec Position_read_from 4
    "\<lambda>bs. Position (from_le_bytes bs)" Position_write_to "\<lambda>x. to_le_bytes (position_0 x)"
  by (intro wire_codec.intro wire_codec_axioms.intro)
    (simp_all add: wire_read_quantities wire_write_emits emits_quantities to_le_bytes_from_le_bytes)

interpretation velocity_codec: wire_codec Velocity_read_from 4
    "\<lambda>bs. Velocity (from_le_bytes bs)" Velocity_write_to "\<lambda>x. to_le_bytes (velocity_0 x)"
  by (intro wire_codec.intro wire_codec_axioms.intro)
    (simp_all add: wire_read_quantities wire_write_emits emits_quantities to_le_bytes_from_le_bytes)

interpretation acceleration_codec: wire_codec Acceleration_read_from 4
    "\<lambda>bs. Acceleration (from_le_bytes bs)" Acceleration_write_to
    "\<lambda>x. to_le_bytes (acceleration_0 x)"
  by (intro wire_codec.intro wire_codec_axioms.intro)
    (simp_all add: wire_read_quantities wire_write_emits emits_quantities to_le_bytes_from_le_bytes)

end
