(* ===== verification/Mci.thy ===== *)
theory Mci
  imports Units
begin

text \<open>
  The LinMot motion control interface (\<open>linmot/src/mci.rs\<close>,
  \<open>linmot/src/mci/commands.rs\<close>): the flag words, the error codes, the drive's state word,
  and the 32-byte motion command block.
\<close>

subsection \<open>Flag words\<close>

text \<open>A \<open>bitflags\<close> type is its bits; all 16 bits of these three are declared.\<close>

type_synonym ControlFlags = u16
type_synonym StatusFlags = u16
type_synonym WarningFlags = u16

datatype ControlFlags_bit =
    ControlFlags_SWITCH_ON
  | ControlFlags_VOLTAGE_ENABLE
  | ControlFlags_QUICK_STOP_DISABLE
  | ControlFlags_ENABLE_OPERATION
  | ControlFlags_ABORT_DISABLE
  | ControlFlags_FREEZE_DISABLE
  | ControlFlags_GO_TO_POSITION
  | ControlFlags_ERROR_ACKNOWLEDGE
  | ControlFlags_JOG_MOVE_POSITIVE
  | ControlFlags_JOG_MOVE_NEGATIVE
  | ControlFlags_SPECIAL_MODE
  | ControlFlags_HOME
  | ControlFlags_CLEARANCE_CHECK
  | ControlFlags_GO_TO_INITIAL_POSITION
  | ControlFlags_RESERVED_14
  | ControlFlags_PHASE_SEARCH

fun ControlFlags_const :: "ControlFlags_bit \<Rightarrow> ControlFlags" where
  "ControlFlags_const ControlFlags_SWITCH_ON = push_bit 0 1"
| "ControlFlags_const ControlFlags_VOLTAGE_ENABLE = push_bit 1 1"
| "ControlFlags_const ControlFlags_QUICK_STOP_DISABLE = push_bit 2 1"
| "ControlFlags_const ControlFlags_ENABLE_OPERATION = push_bit 3 1"
| "ControlFlags_const ControlFlags_ABORT_DISABLE = push_bit 4 1"
| "ControlFlags_const ControlFlags_FREEZE_DISABLE = push_bit 5 1"
| "ControlFlags_const ControlFlags_GO_TO_POSITION = push_bit 6 1"
| "ControlFlags_const ControlFlags_ERROR_ACKNOWLEDGE = push_bit 7 1"
| "ControlFlags_const ControlFlags_JOG_MOVE_POSITIVE = push_bit 8 1"
| "ControlFlags_const ControlFlags_JOG_MOVE_NEGATIVE = push_bit 9 1"
| "ControlFlags_const ControlFlags_SPECIAL_MODE = push_bit 10 1"
| "ControlFlags_const ControlFlags_HOME = push_bit 11 1"
| "ControlFlags_const ControlFlags_CLEARANCE_CHECK = push_bit 12 1"
| "ControlFlags_const ControlFlags_GO_TO_INITIAL_POSITION = push_bit 13 1"
| "ControlFlags_const ControlFlags_RESERVED_14 = push_bit 14 1"
| "ControlFlags_const ControlFlags_PHASE_SEARCH = push_bit 15 1"

datatype StatusFlags_bit =
    StatusFlags_OPERATION_ENABLED
  | StatusFlags_SWITCH_ON_ACTIVE
  | StatusFlags_ENABLE_OPERATION
  | StatusFlags_ERROR
  | StatusFlags_VOLTAGE_ENABLE
  | StatusFlags_QUICK_STOP_DISABLE
  | StatusFlags_SWITCH_ON_LOCKED
  | StatusFlags_WARNING
  | StatusFlags_EVENT_HANDLER_ACTIVE
  | StatusFlags_SPECIAL_MOTION_ACTIVE
  | StatusFlags_IN_TARGET_POSITION
  | StatusFlags_HOMED
  | StatusFlags_FATAL_ERROR
  | StatusFlags_MOTION_ACTIVE
  | StatusFlags_RANGE_INDICATOR_1
  | StatusFlags_RANGE_INDICATOR_2

fun StatusFlags_const :: "StatusFlags_bit \<Rightarrow> StatusFlags" where
  "StatusFlags_const StatusFlags_OPERATION_ENABLED = push_bit 0 1"
| "StatusFlags_const StatusFlags_SWITCH_ON_ACTIVE = push_bit 1 1"
| "StatusFlags_const StatusFlags_ENABLE_OPERATION = push_bit 2 1"
| "StatusFlags_const StatusFlags_ERROR = push_bit 3 1"
| "StatusFlags_const StatusFlags_VOLTAGE_ENABLE = push_bit 4 1"
| "StatusFlags_const StatusFlags_QUICK_STOP_DISABLE = push_bit 5 1"
| "StatusFlags_const StatusFlags_SWITCH_ON_LOCKED = push_bit 6 1"
| "StatusFlags_const StatusFlags_WARNING = push_bit 7 1"
| "StatusFlags_const StatusFlags_EVENT_HANDLER_ACTIVE = push_bit 8 1"
| "StatusFlags_const StatusFlags_SPECIAL_MOTION_ACTIVE = push_bit 9 1"
| "StatusFlags_const StatusFlags_IN_TARGET_POSITION = push_bit 10 1"
| "StatusFlags_const StatusFlags_HOMED = push_bit 11 1"
| "StatusFlags_const StatusFlags_FATAL_ERROR = push_bit 12 1"
| "StatusFlags_const StatusFlags_MOTION_ACTIVE = push_bit 13 1"
| "StatusFlags_const StatusFlags_RANGE_INDICATOR_1 = push_bit 14 1"
| "StatusFlags_const StatusFlags_RANGE_INDICATOR_2 = push_bit 15 1"

datatype WarningFlags_bit =
    WarningFlags_MOTOR_HOT_SENSOR
  | WarningFlags_MOTOR_SHORT_TIME_OVERLOAD
  | WarningFlags_MOTOR_SUPPLY_VOLTAGE_LOW
  | WarningFlags_MOTOR_SUPPLY_VOLTAGE_HIGH
  | WarningFlags_POSITION_LAG_ALWAYS
  | WarningFlags_RESERVED_5
  | WarningFlags_DRIVE_HOT
  | WarningFlags_MOTOR_NOT_HOMED
  | WarningFlags_PTC_SENSOR_1_HOT
  | WarningFlags_PTC_SENSOR_2_HOT
  | WarningFlags_REGENERATIVE_TEMP_OVERLOAD
  | WarningFlags_SPEED_LAG_ALWAYS
  | WarningFlags_POSITION_SENSOR
  | WarningFlags_RESERVED_13
  | WarningFlags_INTERFACE_WARN_FLAG
  | WarningFlags_APPLICATION_WARN_FLAG

fun WarningFlags_const :: "WarningFlags_bit \<Rightarrow> WarningFlags" where
  "WarningFlags_const WarningFlags_MOTOR_HOT_SENSOR = push_bit 0 1"
| "WarningFlags_const WarningFlags_MOTOR_SHORT_TIME_OVERLOAD = push_bit 1 1"
| "WarningFlags_const WarningFlags_MOTOR_SUPPLY_VOLTAGE_LOW = push_bit 2 1"
| "WarningFlags_const WarningFlags_MOTOR_SUPPLY_VOLTAGE_HIGH = push_bit 3 1"
| "WarningFlags_const WarningFlags_POSITION_LAG_ALWAYS = push_bit 4 1"
| "WarningFlags_const WarningFlags_RESERVED_5 = push_bit 5 1"
| "WarningFlags_const WarningFlags_DRIVE_HOT = push_bit 6 1"
| "WarningFlags_const WarningFlags_MOTOR_NOT_HOMED = push_bit 7 1"
| "WarningFlags_const WarningFlags_PTC_SENSOR_1_HOT = push_bit 8 1"
| "WarningFlags_const WarningFlags_PTC_SENSOR_2_HOT = push_bit 9 1"
| "WarningFlags_const WarningFlags_REGENERATIVE_TEMP_OVERLOAD = push_bit 10 1"
| "WarningFlags_const WarningFlags_SPEED_LAG_ALWAYS = push_bit 11 1"
| "WarningFlags_const WarningFlags_POSITION_SENSOR = push_bit 12 1"
| "WarningFlags_const WarningFlags_RESERVED_13 = push_bit 13 1"
| "WarningFlags_const WarningFlags_INTERFACE_WARN_FLAG = push_bit 14 1"
| "WarningFlags_const WarningFlags_APPLICATION_WARN_FLAG = push_bit 15 1"

definition flags_empty :: "u16" where
  "flags_empty = 0"

definition flags_insert :: "u16 \<Rightarrow> u16 \<Rightarrow> u16" where
  "flags_insert fs f = fs OR f"

definition flags_remove :: "u16 \<Rightarrow> u16 \<Rightarrow> u16" where
  "flags_remove fs f = fs AND NOT f"

definition flags_contains :: "u16 \<Rightarrow> u16 \<Rightarrow> bool" where
  "flags_contains fs f \<longleftrightarrow> fs AND f = f"

text \<open>
  \<open>Display\<close> of one warning flag; a reserved bit falls to the derived \<open>Debug\<close> of the
  \<open>bitflags\<close> type.  \<open>iter\<close> yields the set bits in declaration order.
\<close>

fun WarningFlags_name :: "WarningFlags_bit \<Rightarrow> string" where
  "WarningFlags_name WarningFlags_MOTOR_HOT_SENSOR = ''Motor hot sensor''"
| "WarningFlags_name WarningFlags_MOTOR_SHORT_TIME_OVERLOAD = ''Motor short time overload''"
| "WarningFlags_name WarningFlags_MOTOR_SUPPLY_VOLTAGE_LOW = ''Motor supply voltage low''"
| "WarningFlags_name WarningFlags_MOTOR_SUPPLY_VOLTAGE_HIGH = ''Motor supply voltage high''"
| "WarningFlags_name WarningFlags_POSITION_LAG_ALWAYS = ''Position lag always''"
| "WarningFlags_name WarningFlags_RESERVED_5 = ''WarningFlags(_RESERVED_5)''"
| "WarningFlags_name WarningFlags_DRIVE_HOT = ''Drive hot''"
| "WarningFlags_name WarningFlags_MOTOR_NOT_HOMED = ''Motor not homed''"
| "WarningFlags_name WarningFlags_PTC_SENSOR_1_HOT = ''PTC sensor 1 hot''"
| "WarningFlags_name WarningFlags_PTC_SENSOR_2_HOT = ''PTC sensor 2 hot''"
| "WarningFlags_name WarningFlags_REGENERATIVE_TEMP_OVERLOAD = ''Regenerative temp overload''"
| "WarningFlags_name WarningFlags_SPEED_LAG_ALWAYS = ''Speed lag always''"
| "WarningFlags_name WarningFlags_POSITION_SENSOR = ''Position sensor''"
| "WarningFlags_name WarningFlags_RESERVED_13 = ''WarningFlags(_RESERVED_13)''"
| "WarningFlags_name WarningFlags_INTERFACE_WARN_FLAG = ''Interface warn flag''"
| "WarningFlags_name WarningFlags_APPLICATION_WARN_FLAG = ''Application warn flag''"

definition WarningFlags_all :: "WarningFlags_bit list" where
  "WarningFlags_all =
     [WarningFlags_MOTOR_HOT_SENSOR,
      WarningFlags_MOTOR_SHORT_TIME_OVERLOAD,
      WarningFlags_MOTOR_SUPPLY_VOLTAGE_LOW,
      WarningFlags_MOTOR_SUPPLY_VOLTAGE_HIGH,
      WarningFlags_POSITION_LAG_ALWAYS,
      WarningFlags_RESERVED_5,
      WarningFlags_DRIVE_HOT,
      WarningFlags_MOTOR_NOT_HOMED,
      WarningFlags_PTC_SENSOR_1_HOT,
      WarningFlags_PTC_SENSOR_2_HOT,
      WarningFlags_REGENERATIVE_TEMP_OVERLOAD,
      WarningFlags_SPEED_LAG_ALWAYS,
      WarningFlags_POSITION_SENSOR,
      WarningFlags_RESERVED_13,
      WarningFlags_INTERFACE_WARN_FLAG,
      WarningFlags_APPLICATION_WARN_FLAG]"

definition WarningFlags_iter :: "WarningFlags \<Rightarrow> WarningFlags_bit list" where
  "WarningFlags_iter fs = filter (\<lambda>b. flags_contains fs (WarningFlags_const b)) WarningFlags_all"

definition WarningFlags_display :: "WarningFlags \<Rightarrow> string list" where
  "WarningFlags_display fs = map WarningFlags_name (WarningFlags_iter fs)"

subsection \<open>Error codes\<close>

datatype ErrorCode =
    NoError
  | LogicSupplyTooLow
  | LogicSupplyTooHigh
  | MotorSupplyTooLow
  | MotorSupplyTooHigh
  | MinPositionUndershot
  | MaxPositionOvershot
  | PositionLagAlwaysTooBig
  | MotorHotSensor
  | MotorSliderMissing
  | MotorShortTimeOverload
  | MotorCommunicationLost
  | NotHomed
  | UnknownMotionCommand
  | PvtBufferOverflow
  | PvtBufferUnderflow
  | PvtControllerTooFast
  | PvtControllerTooSlow
  | MotionCommandInWrongState
  | LessCalcTimeC0
  | LessCalcTimeC1
  | LessCalcTimeC2
  | LessCalcTimeC3
  | ErrorCode_Unknown u16

definition ErrorCode_from :: "u16 \<Rightarrow> ErrorCode" where
  "ErrorCode_from e =
     (if e = 0x00 then NoError
      else if e = 0x01 then LogicSupplyTooLow
      else if e = 0x02 then LogicSupplyTooHigh
      else if e = 0x03 then MotorSupplyTooLow
      else if e = 0x04 then MotorSupplyTooHigh
      else if e = 0x07 then MinPositionUndershot
      else if e = 0x08 then MaxPositionOvershot
      else if e = 0x0B then PositionLagAlwaysTooBig
      else if e = 0x20 then MotorHotSensor
      else if e = 0x22 then MotorSliderMissing
      else if e = 0x23 then MotorShortTimeOverload
      else if e = 0x45 then MotorCommunicationLost
      else if e = 0x80 then NotHomed
      else if e = 0x81 then UnknownMotionCommand
      else if e = 0x82 then PvtBufferOverflow
      else if e = 0x83 then PvtBufferUnderflow
      else if e = 0x84 then PvtControllerTooFast
      else if e = 0x85 then PvtControllerTooSlow
      else if e = 0x86 then MotionCommandInWrongState
      else if e = 0x90 then LessCalcTimeC0
      else if e = 0x91 then LessCalcTimeC1
      else if e = 0x92 then LessCalcTimeC2
      else if e = 0x93 then LessCalcTimeC3
      else ErrorCode_Unknown e)"

definition ErrorCode_from_u8 :: "u8 \<Rightarrow> ErrorCode" where
  "ErrorCode_from_u8 e = ErrorCode_from (ucast e)"

fun ErrorCode_display :: "ErrorCode \<Rightarrow> string" where
  "ErrorCode_display NoError = ''No error''"
| "ErrorCode_display LogicSupplyTooLow = ''Logic supply too low''"
| "ErrorCode_display LogicSupplyTooHigh = ''Logic supply too high''"
| "ErrorCode_display MotorSupplyTooLow = ''Motor supply too low''"
| "ErrorCode_display MotorSupplyTooHigh = ''Motor supply too high''"
| "ErrorCode_display MinPositionUndershot = ''Min position undershot''"
| "ErrorCode_display MaxPositionOvershot = ''Max position overshot''"
| "ErrorCode_display PositionLagAlwaysTooBig = ''Position lag always too big''"
| "ErrorCode_display MotorHotSensor = ''Motor hot sensor''"
| "ErrorCode_display MotorSliderMissing = ''Motor slider missing''"
| "ErrorCode_display MotorShortTimeOverload = ''Motor short time overload''"
| "ErrorCode_display MotorCommunicationLost = ''Motor communication lost''"
| "ErrorCode_display NotHomed = ''Not homed''"
| "ErrorCode_display UnknownMotionCommand = ''Unknown motion command''"
| "ErrorCode_display PvtBufferOverflow = ''PVT buffer overflow''"
| "ErrorCode_display PvtBufferUnderflow = ''PVT buffer underflow''"
| "ErrorCode_display PvtControllerTooFast = ''PVT controller too fast''"
| "ErrorCode_display PvtControllerTooSlow = ''PVT controller too slow''"
| "ErrorCode_display MotionCommandInWrongState = ''Motion command in wrong state''"
| "ErrorCode_display LessCalcTimeC0 = ''Less calc time C0''"
| "ErrorCode_display LessCalcTimeC1 = ''Less calc time C1''"
| "ErrorCode_display LessCalcTimeC2 = ''Less calc time C2''"
| "ErrorCode_display LessCalcTimeC3 = ''Less calc time C3''"
| "ErrorCode_display (ErrorCode_Unknown e) = ''Unknown error code '' @ show_nat (unat e)"

text \<open>The number the drive uses for an error: what \<open>ErrorCode_from\<close> must invert.\<close>

fun ErrorCode_value :: "ErrorCode \<Rightarrow> u16" where
  "ErrorCode_value NoError = 0x00"
| "ErrorCode_value LogicSupplyTooLow = 0x01"
| "ErrorCode_value LogicSupplyTooHigh = 0x02"
| "ErrorCode_value MotorSupplyTooLow = 0x03"
| "ErrorCode_value MotorSupplyTooHigh = 0x04"
| "ErrorCode_value MinPositionUndershot = 0x07"
| "ErrorCode_value MaxPositionOvershot = 0x08"
| "ErrorCode_value PositionLagAlwaysTooBig = 0x0B"
| "ErrorCode_value MotorHotSensor = 0x20"
| "ErrorCode_value MotorSliderMissing = 0x22"
| "ErrorCode_value MotorShortTimeOverload = 0x23"
| "ErrorCode_value MotorCommunicationLost = 0x45"
| "ErrorCode_value NotHomed = 0x80"
| "ErrorCode_value UnknownMotionCommand = 0x81"
| "ErrorCode_value PvtBufferOverflow = 0x82"
| "ErrorCode_value PvtBufferUnderflow = 0x83"
| "ErrorCode_value PvtControllerTooFast = 0x84"
| "ErrorCode_value PvtControllerTooSlow = 0x85"
| "ErrorCode_value MotionCommandInWrongState = 0x86"
| "ErrorCode_value LessCalcTimeC0 = 0x90"
| "ErrorCode_value LessCalcTimeC1 = 0x91"
| "ErrorCode_value LessCalcTimeC2 = 0x92"
| "ErrorCode_value LessCalcTimeC3 = 0x93"
| "ErrorCode_value (ErrorCode_Unknown e) = e"

lemma ErrorCode_value_from [simp]: "ErrorCode_value (ErrorCode_from e) = e"
  by (simp add: ErrorCode_from_def)

lemma ErrorCode_value_from_u8 [simp]: "ErrorCode_value (ErrorCode_from_u8 e) = ucast e"
  by (simp add: ErrorCode_from_u8_def)

subsection \<open>The drive's state word\<close>

datatype State =
    NotReadyToSwitchOn
  | SwitchOnDisabled
  | ReadyToSwitchOn
  | SetupError ErrorCode
  | State_Error ErrorCode
  | HardwareTests
  | ReadyToOperate
  | OperationEnabled u8 bool bool bool bool
      \<comment> \<open>motion command count, event handler, motion active, in target position, homed\<close>
  | Homing bool
  | ClearanceCheck bool
  | GoingToInitialPosition bool
  | Aborting
  | Freezing
  | QuickStop
  | GoingToPosition bool
  | JoggingPositive bool
  | JoggingNegative bool
  | Linearizing
  | PhaseSearch
  | SpecialMode
  | BrakeDelay
  | State_Unknown u8 u8 \<comment> \<open>main state, sub state\<close>

definition State_from :: "u16 \<Rightarrow> State" where
  "State_from val =
     (let sub_state = ucast (val AND 0xFF) :: u8;
          main_state = ucast (drop_bit 8 val) :: u8 in
      if main_state = 0 then NotReadyToSwitchOn
      else if main_state = 1 then SwitchOnDisabled
      else if main_state = 2 then ReadyToSwitchOn
      else if main_state = 3 then SetupError (ErrorCode_from_u8 sub_state)
      else if main_state = 4 then State_Error (ErrorCode_from_u8 sub_state)
      else if main_state = 5 then HardwareTests
      else if main_state = 6 then ReadyToOperate
      else if main_state = 8 then
        OperationEnabled (sub_state AND 15) (sub_state AND push_bit 4 1 \<noteq> 0)
          (sub_state AND push_bit 5 1 \<noteq> 0) (sub_state AND push_bit 6 1 \<noteq> 0)
          (sub_state AND push_bit 7 1 \<noteq> 0)
      else if main_state = 9 then Homing (sub_state = 0xF)
      else if main_state = 10 then ClearanceCheck (sub_state = 0xF)
      else if main_state = 11 then GoingToInitialPosition (sub_state = 0xF)
      else if main_state = 12 then Aborting
      else if main_state = 13 then Freezing
      else if main_state = 14 then QuickStop
      else if main_state = 15 then GoingToPosition (sub_state = 0xF)
      else if main_state = 16 then JoggingPositive (sub_state = 0xF)
      else if main_state = 17 then JoggingNegative (sub_state = 0xF)
      else if main_state = 18 then Linearizing
      else if main_state = 19 then PhaseSearch
      else if main_state = 20 then SpecialMode
      else if main_state = 21 then BrakeDelay
      else State_Unknown main_state sub_state)"

text \<open>
  The state word read back: which main and sub state each decoded state stands for.  The sub
  state of \<open>OperationEnabled\<close> is recomposed from the counter and the four bits by
  arithmetic, independently of the masks of the code.
\<close>

definition main_state :: "u16 \<Rightarrow> u8" where
  "main_state val = ucast (drop_bit 8 val)"

definition sub_state :: "u16 \<Rightarrow> u8" where
  "sub_state val = ucast (val AND 0xFF)"

fun state_matches :: "State \<Rightarrow> u8 \<Rightarrow> u8 \<Rightarrow> bool" where
  "state_matches NotReadyToSwitchOn m s \<longleftrightarrow> m = 0"
| "state_matches SwitchOnDisabled m s \<longleftrightarrow> m = 1"
| "state_matches ReadyToSwitchOn m s \<longleftrightarrow> m = 2"
| "state_matches (SetupError e) m s \<longleftrightarrow> m = 3 \<and> e = ErrorCode_from_u8 s"
| "state_matches (State_Error e) m s \<longleftrightarrow> m = 4 \<and> e = ErrorCode_from_u8 s"
| "state_matches HardwareTests m s \<longleftrightarrow> m = 5"
| "state_matches ReadyToOperate m s \<longleftrightarrow> m = 6"
| "state_matches (OperationEnabled c eh ma tp h) m s \<longleftrightarrow>
     m = 8 \<and> unat c < 16 \<and>
     unat s = unat c + 16 * of_bool eh + 32 * of_bool ma + 64 * of_bool tp + 128 * of_bool h"
| "state_matches (Homing f) m s \<longleftrightarrow> m = 9 \<and> f = (s = 15)"
| "state_matches (ClearanceCheck f) m s \<longleftrightarrow> m = 10 \<and> f = (s = 15)"
| "state_matches (GoingToInitialPosition f) m s \<longleftrightarrow> m = 11 \<and> f = (s = 15)"
| "state_matches Aborting m s \<longleftrightarrow> m = 12"
| "state_matches Freezing m s \<longleftrightarrow> m = 13"
| "state_matches QuickStop m s \<longleftrightarrow> m = 14"
| "state_matches (GoingToPosition f) m s \<longleftrightarrow> m = 15 \<and> f = (s = 15)"
| "state_matches (JoggingPositive f) m s \<longleftrightarrow> m = 16 \<and> f = (s = 15)"
| "state_matches (JoggingNegative f) m s \<longleftrightarrow> m = 17 \<and> f = (s = 15)"
| "state_matches Linearizing m s \<longleftrightarrow> m = 18"
| "state_matches PhaseSearch m s \<longleftrightarrow> m = 19"
| "state_matches SpecialMode m s \<longleftrightarrow> m = 20"
| "state_matches BrakeDelay m s \<longleftrightarrow> m = 21"
| "state_matches (State_Unknown m' s') m s \<longleftrightarrow>
     m' = m \<and> s' = s \<and> (m = 7 \<or> 21 < m)"

lemma and_bit_masks:
  fixes s :: u8
  shows "s AND 16 = 0 \<longleftrightarrow> \<not> bit s 4" "s AND 32 = 0 \<longleftrightarrow> \<not> bit s 5"
    "s AND 64 = 0 \<longleftrightarrow> \<not> bit s 6" "s AND 128 = 0 \<longleftrightarrow> \<not> bit s 7"
  using and_exp_eq_0_iff_not_bit [of s 4] and_exp_eq_0_iff_not_bit [of s 5]
    and_exp_eq_0_iff_not_bit [of s 6] and_exp_eq_0_iff_not_bit [of s 7] by simp_all

lemma u8_bit: "bit (s :: u8) k \<longleftrightarrow> odd (unat s div 2 ^ k)"
  proof -
  have "bit (unat s) k \<longleftrightarrow> bit s k"
    by (simp add: bit_unsigned_iff)
  then show ?thesis
    by (simp add: bit_iff_odd [of "unat s"])
qed

lemma u8_low_nibble: "unat ((s :: u8) AND 15) = unat s mod 16"
proof -
  have "s AND 15 = take_bit 4 s"
    by (simp add: take_bit_eq_mask mask_eq_exp_minus_1)
  then show ?thesis
    by (simp add: take_bit_eq_mod unat_mod_distrib)
qed

lemma operation_enabled_unique:
  fixes s c :: u8
  shows "c = s AND 15 \<and> eh = bit s 4 \<and> ma = bit s 5 \<and> tp = bit s 6 \<and> h = bit s 7 \<longleftrightarrow>
    unat c < 16 \<and>
    unat s = unat c + 16 * of_bool eh + 32 * of_bool ma + 64 * of_bool tp + 128 * of_bool h"
    (is "?l \<longleftrightarrow> ?r")
proof -
  let ?n = "unat s"
  have n: "?n < 256"
    using unsigned_less [of s, where ?'a = nat] by simp
  have l: "?l \<longleftrightarrow> unat c = ?n mod 16 \<and> eh = odd (?n div 16) \<and> ma = odd (?n div 32) \<and>
      tp = odd (?n div 64) \<and> h = odd (?n div 128)"
    by (simp add: word_unat_eq_iff u8_low_nibble u8_bit)
  have compose: "k = k mod 16 + 16 * (k div 16 mod 2) + 32 * (k div 32 mod 2)
      + 64 * (k div 64 mod 2) + 128 * (k div 128 mod 2)" if "k < 256" for k :: nat
  proof -
    have bits: "m = m mod 2 + 2 * (m div 2 mod 2) + 4 * (m div 4 mod 2) + 8 * (m div 8 mod 2)"
      if "m < 16" for m :: nat
    proof -
      from that have "m \<in> set [0..<16]"
        by simp
      then show ?thesis
        by (auto simp: upt_conv_Cons)
    qed
    have "k = k mod 16 + 16 * (k div 16)"
      by simp
    moreover have "k div 16 < 16"
      using that by simp
    then have "k div 16 = k div 16 mod 2 + 2 * (k div 32 mod 2) + 4 * (k div 64 mod 2)
        + 8 * (k div 128 mod 2)"
      using bits [of "k div 16"] by (simp flip: div_mult2_eq)
    ultimately show ?thesis
      by linarith
  qed
  have split: "k mod 16 = a \<and> k div 16 = m \<and> k div 32 = m div 2 \<and> k div 64 = m div 4 \<and>
      k div 128 = m div 8" if "k = a + 16 * m" "a < 16" for a k m :: nat
    using that by (auto simp: div_mult2_eq [of _ 16 2, simplified]
      div_mult2_eq [of _ 16 4, simplified] div_mult2_eq [of _ 16 8, simplified])
  show ?thesis
  proof
    assume ?l
    then show ?r
      using compose [OF n] unfolding l by (simp add: of_bool_odd_eq_mod_2)
  next
    assume ?r
    then show ?l
      using split [of ?n "unat c" "of_bool eh + 2 * of_bool ma + 4 * of_bool tp + 8 * of_bool h"]
      unfolding l by (cases eh; cases ma; cases tp; cases h; simp)
  qed
qed

lemma unknown_main_state:
  fixes m :: u8
  shows "m \<noteq> 0 \<and> m \<noteq> 1 \<and> m \<noteq> 2 \<and> m \<noteq> 3 \<and> m \<noteq> 4 \<and> m \<noteq> 5 \<and> m \<noteq> 6 \<and> m \<noteq> 8 \<and> m \<noteq> 9 \<and>
    m \<noteq> 10 \<and> m \<noteq> 11 \<and> m \<noteq> 12 \<and> m \<noteq> 13 \<and> m \<noteq> 14 \<and> m \<noteq> 15 \<and> m \<noteq> 16 \<and> m \<noteq> 17 \<and>
    m \<noteq> 18 \<and> m \<noteq> 19 \<and> m \<noteq> 20 \<and> m \<noteq> 21 \<longleftrightarrow> m = 7 \<or> 21 < m"
proof -
  have "n \<noteq> 0 \<and> n \<noteq> 1 \<and> n \<noteq> 2 \<and> n \<noteq> 3 \<and> n \<noteq> 4 \<and> n \<noteq> 5 \<and> n \<noteq> 6 \<and> n \<noteq> 8 \<and> n \<noteq> 9 \<and>
    n \<noteq> 10 \<and> n \<noteq> 11 \<and> n \<noteq> 12 \<and> n \<noteq> 13 \<and> n \<noteq> 14 \<and> n \<noteq> 15 \<and> n \<noteq> 16 \<and> n \<noteq> 17 \<and>
    n \<noteq> 18 \<and> n \<noteq> 19 \<and> n \<noteq> 20 \<and> n \<noteq> 21 \<longleftrightarrow> n = 7 \<or> 21 < n" for n :: nat
    by presburger
  from this [of "unat m"] show ?thesis
    by (simp add: word_unat_eq_iff word_less_nat_alt)
qed

text \<open>
  The decoder of the drive's state word is exactly the table of main and sub states: it
  returns a state if and only if that state stands for the word.
\<close>

theorem State_from_iff:
  "State_from val = st \<longleftrightarrow> state_matches st (main_state val) (sub_state val)"
proof (cases st)
  case (OperationEnabled c eh ma tp h)
  show ?thesis
    unfolding OperationEnabled state_matches.simps operation_enabled_unique [symmetric]
    by (auto simp: State_from_def Let_def and_bit_masks simp flip: main_state_def sub_state_def)
next
  case (State_Unknown m s)
  show ?thesis
    unfolding State_Unknown state_matches.simps unknown_main_state [symmetric]
    by (auto simp: State_from_def Let_def simp flip: main_state_def sub_state_def)
qed (simp_all add: State_from_def Let_def flip: main_state_def sub_state_def, auto)


lemma bit_foldr_OR:
  "bit (foldr (OR) ws (0 :: 'w::len word)) n \<longleftrightarrow> (\<exists>w\<in>set ws. bit w n)"
  by (induction ws) (auto simp: bit_simps)

lemma WarningFlags_const_nth:
  assumes "n < 16"
  shows "WarningFlags_const (WarningFlags_all ! n) = push_bit n 1"
proof -
  have "n \<in> set [0..<16]"
    using assms by simp
  then show ?thesis
    by (auto simp: upt_conv_Cons WarningFlags_all_def)
qed

lemma set_WarningFlags_all: "set WarningFlags_all = (\<lambda>n. WarningFlags_all ! n) ` {..<16}"
  by (auto simp: set_conv_nth WarningFlags_all_def)

text \<open>
  No warning is lost or invented between the warning word and the list of flags the core
  reports: the flags the iterator yields are distinct and join to the word.
\<close>

theorem WarningFlags_iter_joins:
  "foldr (OR) (map WarningFlags_const (WarningFlags_iter fs)) 0 = fs \<and> distinct (WarningFlags_iter fs)"
proof
  have "bit (foldr (OR) (map WarningFlags_const (WarningFlags_iter fs)) 0) n \<longleftrightarrow> bit fs n"
    if "n < 16" for n
  proof -
    have contains: "flags_contains fs (2 ^ i) \<longleftrightarrow> bit fs i" if "i < 16" for i
      using that by (auto simp: flags_contains_def bit_simps dest: arg_cong [where f = "\<lambda>w. bit w i"]
          intro: bit_word_eqI)
    have "bit (foldr (OR) (map WarningFlags_const (WarningFlags_iter fs)) 0) n \<longleftrightarrow>
        (\<exists>i<16. flags_contains fs (push_bit i 1) \<and> bit (push_bit i 1 :: u16) n)"
      by (auto simp: bit_foldr_OR WarningFlags_iter_def set_WarningFlags_all WarningFlags_const_nth)
    also have "\<dots> \<longleftrightarrow> bit fs n"
      using that by (auto simp: contains bit_simps)
    finally show ?thesis .
  qed
  then show "foldr (OR) (map WarningFlags_const (WarningFlags_iter fs)) 0 = fs"
    by (intro bit_word_eqI) simp
  show "distinct (WarningFlags_iter fs)"
    unfolding WarningFlags_iter_def
    by (rule distinct_filter) (simp add: WarningFlags_all_def)
qed

end
