(* ===== verification/Commands.thy ===== *)
theory Commands
  imports Mci
begin

text \<open>
  The motion commands of \<open>linmot/src/mci/commands.rs\<close> and the 32-byte command block that
  carries one (\<open>MotionCommand\<close> of \<open>linmot/src/mci.rs\<close>).  The drive's reading of a block
  is stated as a decoder, and every block the code writes decodes to the command it was given.
\<close>

subsection \<open>Commands\<close>

datatype Command =
    NoOperation
  | VaiGoToPos Position Velocity Acceleration Acceleration
      \<comment> \<open>target position, maximal velocity, acceleration, deceleration\<close>
  | VaiIncrementDemPos Position Velocity Acceleration Acceleration
  | VaiGoToPosFromActPosAndActVel Position Velocity Acceleration Acceleration
  | VaiStop Acceleration \<comment> \<open>deceleration\<close>
  | PStreamWithDriveGeneratedTimeStamp Position
  | PvStreamWithDriveGeneratedTimeStamp Position Velocity
  | PStreamWithDriveGeneratedTimeStampAndConfiguredPeriodTime Position
  | PvStreamWithDriveGeneratedTimeStampAndConfiguredPeriodTime Position Velocity
  | PvaStreamWithDriveGeneratedTimeStamp Position Velocity Acceleration
  | PvaStreamWithDriveGeneratedTimeStampAndConfiguredPeriodTime Position Velocity Acceleration
  | PvaStreamWithControllerGeneratedTimeStamp Position Velocity Acceleration
  | StopStream
  | VajiGoToPos Position Velocity Acceleration Acceleration Jerk

fun Command_id :: "Command \<Rightarrow> u16" where
  "Command_id NoOperation = 0x000"
| "Command_id (VaiGoToPos _ _ _ _) = 0x010"
| "Command_id (VaiIncrementDemPos _ _ _ _) = 0x011"
| "Command_id (VaiGoToPosFromActPosAndActVel _ _ _ _) = 0x013"
| "Command_id (VaiStop _) = 0x017"
| "Command_id (PStreamWithDriveGeneratedTimeStamp _) = 0x030"
| "Command_id (PvStreamWithDriveGeneratedTimeStamp _ _) = 0x031"
| "Command_id (PStreamWithDriveGeneratedTimeStampAndConfiguredPeriodTime _) = 0x032"
| "Command_id (PvStreamWithDriveGeneratedTimeStampAndConfiguredPeriodTime _ _) = 0x033"
| "Command_id (PvaStreamWithDriveGeneratedTimeStamp _ _ _) = 0x034"
| "Command_id (PvaStreamWithDriveGeneratedTimeStampAndConfiguredPeriodTime _ _ _) = 0x035"
| "Command_id (PvaStreamWithControllerGeneratedTimeStamp _ _ _) = 0x03A"
| "Command_id StopStream = 0x03F"
| "Command_id (VajiGoToPos _ _ _ _ _) = 0x3A0"

fun write_parameters :: "Command \<Rightarrow> writer \<Rightarrow> WriteError + writer" where
  "write_parameters NoOperation w = Inr w"
| "write_parameters (VaiGoToPos target_position maximal_velocity acceleration deceleration) w =
     andthen (Position_write_to target_position w) (\<lambda>w.
     andthen (Velocity_write_to maximal_velocity w) (\<lambda>w.
     andthen (Acceleration_write_to acceleration w) (\<lambda>w.
     Acceleration_write_to deceleration w)))"
| "write_parameters
     (VaiIncrementDemPos position_increment maximal_velocity acceleration deceleration) w =
     andthen (Position_write_to position_increment w) (\<lambda>w.
     andthen (Velocity_write_to maximal_velocity w) (\<lambda>w.
     andthen (Acceleration_write_to acceleration w) (\<lambda>w.
     Acceleration_write_to deceleration w)))"
| "write_parameters
     (VaiGoToPosFromActPosAndActVel target_position maximal_velocity acceleration deceleration) w =
     andthen (Position_write_to target_position w) (\<lambda>w.
     andthen (Velocity_write_to maximal_velocity w) (\<lambda>w.
     andthen (Acceleration_write_to acceleration w) (\<lambda>w.
     Acceleration_write_to deceleration w)))"
| "write_parameters (VaiStop deceleration) w = Acceleration_write_to deceleration w"
| "write_parameters (PStreamWithDriveGeneratedTimeStamp position) w =
     Position_write_to position w"
| "write_parameters (PvStreamWithDriveGeneratedTimeStamp position velocity) w =
     andthen (Position_write_to position w) (\<lambda>w. Velocity_write_to velocity w)"
| "write_parameters (PStreamWithDriveGeneratedTimeStampAndConfiguredPeriodTime position) w =
     Position_write_to position w"
| "write_parameters
     (PvStreamWithDriveGeneratedTimeStampAndConfiguredPeriodTime position velocity) w =
     andthen (Position_write_to position w) (\<lambda>w. Velocity_write_to velocity w)"
| "write_parameters (PvaStreamWithDriveGeneratedTimeStamp position velocity acceleration) w =
     andthen (Position_write_to position w) (\<lambda>w.
     andthen (Velocity_write_to velocity w) (\<lambda>w. Acceleration_write_to acceleration w))"
| "write_parameters
     (PvaStreamWithDriveGeneratedTimeStampAndConfiguredPeriodTime position velocity acceleration) w =
     andthen (Position_write_to position w) (\<lambda>w.
     andthen (Velocity_write_to velocity w) (\<lambda>w. Acceleration_write_to acceleration w))"
| "write_parameters (PvaStreamWithControllerGeneratedTimeStamp position velocity acceleration) w =
     andthen (Position_write_to position w) (\<lambda>w.
     andthen (Velocity_write_to velocity w) (\<lambda>w. Acceleration_write_to acceleration w))"
| "write_parameters StopStream w = Inr w"
| "write_parameters
     (VajiGoToPos target_position maximal_velocity maximal_acceleration maximal_deceleration jerk) w =
     andthen (Position_write_to target_position w) (\<lambda>w.
     andthen (Velocity_write_to maximal_velocity w) (\<lambda>w.
     andthen (Acceleration_write_to maximal_acceleration w) (\<lambda>w.
     andthen (Acceleration_write_to maximal_deceleration w) (\<lambda>w.
     Jerk_write_to jerk w))))"

subsection \<open>The command block\<close>

text \<open>\<open>linmot::mci::MotionCommand\<close>, named as \<open>drive.rs\<close> imports it.\<close>

record MciMotionCommand =
  mci_count :: u8
  mci_command :: Command

definition MciMotionCommand_write_to :: "MciMotionCommand \<Rightarrow> writer \<Rightarrow> WriteError + writer" where
  "MciMotionCommand_write_to mc w =
     (let header = push_bit 4 (Command_id (mci_command mc)) OR ucast (mci_count mc AND 0xF);
          start = Writer_pos w in
      andthen (write_u16_le header w) (\<lambda>w.
      andthen (write_parameters (mci_command mc) w) (\<lambda>w.
      let length = Writer_pos w - start in
      if length > 32 then Inl (TooManyParameters length)
      else
        let padding_length = 32 - length in
        if padding_length > 0 then write_bytes (take padding_length (replicate 32 0)) w
        else Inr w)))"

subsection \<open>What is written\<close>

text \<open>The parameters of a command, as the words that are written in order.\<close>

fun parameter_words :: "Command \<Rightarrow> i32 list" where
  "parameter_words NoOperation = []"
| "parameter_words (VaiGoToPos p v a d) =
     [position_0 p, velocity_0 v, acceleration_0 a, acceleration_0 d]"
| "parameter_words (VaiIncrementDemPos p v a d) =
     [position_0 p, velocity_0 v, acceleration_0 a, acceleration_0 d]"
| "parameter_words (VaiGoToPosFromActPosAndActVel p v a d) =
     [position_0 p, velocity_0 v, acceleration_0 a, acceleration_0 d]"
| "parameter_words (VaiStop d) = [acceleration_0 d]"
| "parameter_words (PStreamWithDriveGeneratedTimeStamp p) = [position_0 p]"
| "parameter_words (PvStreamWithDriveGeneratedTimeStamp p v) = [position_0 p, velocity_0 v]"
| "parameter_words (PStreamWithDriveGeneratedTimeStampAndConfiguredPeriodTime p) =
     [position_0 p]"
| "parameter_words (PvStreamWithDriveGeneratedTimeStampAndConfiguredPeriodTime p v) =
     [position_0 p, velocity_0 v]"
| "parameter_words (PvaStreamWithDriveGeneratedTimeStamp p v a) =
     [position_0 p, velocity_0 v, acceleration_0 a]"
| "parameter_words (PvaStreamWithDriveGeneratedTimeStampAndConfiguredPeriodTime p v a) =
     [position_0 p, velocity_0 v, acceleration_0 a]"
| "parameter_words (PvaStreamWithControllerGeneratedTimeStamp p v a) =
     [position_0 p, velocity_0 v, acceleration_0 a]"
| "parameter_words StopStream = []"
| "parameter_words (VajiGoToPos p v a d j) =
     [position_0 p, velocity_0 v, acceleration_0 a, acceleration_0 d, jerk_0 j]"

definition words_bytes :: "i32 list \<Rightarrow> u8 list" where
  "words_bytes ws = concat (map to_le_bytes ws)"

lemma words_bytes_simps [simp]:
  "words_bytes [] = []"
  "words_bytes (w # ws) = to_le_bytes w @ words_bytes ws"
  by (simp_all add: words_bytes_def)

lemma words_bytes_append: "words_bytes (vs @ ws) = words_bytes vs @ words_bytes ws"
  by (simp add: words_bytes_def)

lemma length_words_bytes [simp]: "length (words_bytes ws) = 4 * length ws"
  by (induction ws) simp_all

lemma length_parameter_words: "length (parameter_words c) \<le> 5"
  by (cases c) simp_all

lemma emits_parameters [wire_writes]:
  "emits (write_parameters c) (words_bytes (parameter_words c))"
  by (cases c; simp add: write_parameters.simps [abs_def]; intro wire_writes)

definition command_header :: "MciMotionCommand \<Rightarrow> u16" where
  "command_header mc = push_bit 4 (Command_id (mci_command mc)) OR ucast (mci_count mc AND 0xF)"

definition command_block :: "MciMotionCommand \<Rightarrow> u8 list" where
  "command_block mc =
     (let params = words_bytes (parameter_words (mci_command mc)) in
      to_le_bytes (command_header mc) @ params @ replicate (30 - length params) 0)"

lemma length_command_block [simp]: "length (command_block mc) = 32"
  using length_parameter_words [of "mci_command mc"] by (simp add: command_block_def Let_def)

lemma emits_command_block [wire_writes]:
  "emits (MciMotionCommand_write_to mc) (command_block mc)"
proof (rule emitsI)
  fix w
  let ?params = "words_bytes (parameter_words (mci_command mc))"
  have small: "length ?params \<le> 20"
    using length_parameter_words [of "mci_command mc"] by simp
  assume "room w (length (command_block mc))"
  then have r32: "room w 32"
    by simp
  have rooms: "room w (2 + length ?params)" "room w 2"
    using r32 small by (auto elim: room_mono)
  have "room w (2 + length ?params + (30 - length ?params))"
    using r32 small by simp
  with rooms small show "MciMotionCommand_write_to mc w = Inr (put (command_block mc) w)"
    by (simp add: MciMotionCommand_write_to_def Let_def command_block_def put_put Writer_pos_def
        emits_ok [OF emits_prims(2)] emits_ok [OF emits_parameters] emits_ok [OF emits_bytes]
        flip: command_header_def)
next
  fix w
  let ?params = "words_bytes (parameter_words (mci_command mc))"
  have small: "length ?params \<le> 20"
    using length_parameter_words [of "mci_command mc"] by simp
  assume ok: "writer_ok w" and short: "\<not> room w (length (command_block mc))"
  show "\<exists>needed avail. MciMotionCommand_write_to mc w = Inl (Overflow needed avail)"
  proof (cases "room w 2")
    case False
    then obtain n h where "write_u16_le (command_header mc) w = Inl (Overflow n h)"
      using emits_overflow [OF emits_prims(2) [of "command_header mc"] ok] by auto
    then show ?thesis
      by (simp add: MciMotionCommand_write_to_def Let_def flip: command_header_def)
  next
    case head: True
    show ?thesis
    proof (cases "room w (2 + length ?params)")
      case False
      with head obtain n h where
        "write_parameters (mci_command mc) (put (to_le_bytes (command_header mc)) w) =
          Inl (Overflow n h)"
        using emits_overflow [OF emits_parameters [of "mci_command mc"],
          of "put (to_le_bytes (command_header mc)) w"]
        by auto
      with head show ?thesis
        by (simp add: MciMotionCommand_write_to_def Let_def emits_ok [OF emits_prims(2)]
            flip: command_header_def)
    next
      case True
      moreover from short small have "\<not> room w (2 + length ?params + (30 - length ?params))"
        by simp
      ultimately show ?thesis
        using head small
        by (simp add: MciMotionCommand_write_to_def Let_def put_put Writer_pos_def
            emits_ok [OF emits_prims(2)] emits_ok [OF emits_parameters] write_bytes_eq
            flip: command_header_def)
    qed
  qed
qed

interpretation command_block: wire_write MciMotionCommand_write_to command_block
  by (simp add: wire_write_emits emits_command_block)

subsection \<open>How the drive reads it\<close>

text \<open>
  The block as the drive's documentation describes it: a 16-bit header holding the command id
  above a 4-bit toggle counter, then the command's parameters as little-endian 32-bit words.
\<close>

definition block_word :: "u8 list \<Rightarrow> nat \<Rightarrow> i32" where
  "block_word block i = from_le_bytes (take 4 (drop (2 + 4 * i) block))"

definition drive_command :: "u8 list \<Rightarrow> Command option" where
  "drive_command block =
     (let ident = drop_bit 4 (from_le_bytes (take 2 block) :: u16);
          p = Position (block_word block 0); v = Velocity (block_word block 1);
          a = Acceleration (block_word block 2); d = Acceleration (block_word block 3);
          j = Jerk (block_word block 4) in
      if ident = 0x000 then Some NoOperation
      else if ident = 0x010 then Some (VaiGoToPos p v a d)
      else if ident = 0x011 then Some (VaiIncrementDemPos p v a d)
      else if ident = 0x013 then Some (VaiGoToPosFromActPosAndActVel p v a d)
      else if ident = 0x017 then Some (VaiStop (Acceleration (block_word block 0)))
      else if ident = 0x030 then Some (PStreamWithDriveGeneratedTimeStamp p)
      else if ident = 0x031 then Some (PvStreamWithDriveGeneratedTimeStamp p v)
      else if ident = 0x032 then Some (PStreamWithDriveGeneratedTimeStampAndConfiguredPeriodTime p)
      else if ident = 0x033 then
        Some (PvStreamWithDriveGeneratedTimeStampAndConfiguredPeriodTime p v)
      else if ident = 0x034 then Some (PvaStreamWithDriveGeneratedTimeStamp p v a)
      else if ident = 0x035 then
        Some (PvaStreamWithDriveGeneratedTimeStampAndConfiguredPeriodTime p v a)
      else if ident = 0x03A then Some (PvaStreamWithControllerGeneratedTimeStamp p v a)
      else if ident = 0x03F then Some StopStream
      else if ident = 0x3A0 then Some (VajiGoToPos p v a d j)
      else None)"

definition drive_toggle :: "u8 list \<Rightarrow> u8" where
  "drive_toggle block = ucast (from_le_bytes (take 2 block) AND 0xF :: u16)"

lemma take_2_command_block: "take 2 (command_block mc) = to_le_bytes (command_header mc)"
  by (simp add: command_block_def Let_def)

lemma drop_bit_command_header: "drop_bit 4 (command_header mc) = Command_id (mci_command mc)"
proof -
  have "take_bit 12 (Command_id c) = Command_id c" for c
    by (cases c) (simp_all add: take_bit_eq_mask mask_eq_exp_minus_1)
  then have id: "bit (Command_id c) n \<Longrightarrow> n < 12" for c n
    by (metis bit_take_bit_iff)
  have "mci_count mc AND 15 = take_bit 4 (mci_count mc)"
    by (simp add: take_bit_eq_mask mask_eq_exp_minus_1)
  then show ?thesis
    by (intro bit_word_eqI) (auto simp: command_header_def bit_simps dest: id)
qed

lemma low_command_header:
  "ucast (command_header mc AND 0xF) = mci_count mc AND 0xF"
proof -
  have masks: "w AND 15 = take_bit 4 w" for w :: "'w::len word"
    by (simp add: take_bit_eq_mask mask_eq_exp_minus_1)
  show ?thesis
    unfolding masks command_header_def
    by (intro bit_word_eqI) (auto simp: bit_simps)
qed

lemma block_word_nth:
  assumes "i < length (parameter_words (mci_command mc))"
  shows "block_word (command_block mc) i = parameter_words (mci_command mc) ! i"
proof -
  let ?ws = "parameter_words (mci_command mc)"
  have "?ws = take i ?ws @ ?ws ! i # drop (Suc i) ?ws"
    using assms by (rule id_take_nth_drop)
  then have "words_bytes ?ws =
      words_bytes (take i ?ws) @ to_le_bytes (?ws ! i) @ words_bytes (drop (Suc i) ?ws)"
    by (metis words_bytes_append words_bytes_simps(2))
  moreover have "length (words_bytes (take i ?ws)) = 4 * i"
    using assms by simp
  ultimately have "drop (2 + 4 * i) (command_block mc) =
      to_le_bytes (?ws ! i) @ words_bytes (drop (Suc i) ?ws) @
      replicate (30 - length (words_bytes ?ws)) 0"
    by (simp add: command_block_def Let_def del: length_words_bytes)
  then show ?thesis
    by (simp add: block_word_def)
qed

lemma drive_toggle_block: "drive_toggle (command_block mc) = mci_count mc AND 0xF"
  by (simp add: drive_toggle_def take_2_command_block low_command_header)

lemma drive_command_block: "drive_command (command_block mc) = Some (mci_command mc)"
  using block_word_nth [of 0 mc] block_word_nth [of 1 mc] block_word_nth [of 2 mc]
    block_word_nth [of 3 mc] block_word_nth [of 4 mc]
  by (cases "mci_command mc")
    (simp_all add: drive_command_def take_2_command_block drop_bit_command_header)

end
