(* ===== verification/Udp.thy ===== *)
theory Udp
  imports Commands
begin

text \<open>
  The LinUDP datagrams (\<open>linmot/src/udp.rs\<close>): serialising a request, parsing a response.
  The drive's side of both is stated as an encoder and a decoder, and the code is proved to
  agree with it in both directions.
\<close>

subsection \<open>Flag words\<close>

type_synonym RequestFlags = u32
type_synonym ResponseFlags = u32

definition CONTROLLER_PORT :: u16 where "CONTROLLER_PORT = 0xA0B0"

definition DRIVE_PORT :: u16 where "DRIVE_PORT = 0xC0D0"

definition BUFFER_SIZE :: nat where "BUFFER_SIZE = 64"

datatype RequestFlags_bit =
    RequestFlags_CONTROL_FLAGS
  | RequestFlags_MOTION_COMMAND
  | RequestFlags_REALTIME_CONFIGURATION

fun RequestFlags_const :: "RequestFlags_bit \<Rightarrow> RequestFlags" where
  "RequestFlags_const RequestFlags_CONTROL_FLAGS = push_bit 0 1"
| "RequestFlags_const RequestFlags_MOTION_COMMAND = push_bit 1 1"
| "RequestFlags_const RequestFlags_REALTIME_CONFIGURATION = push_bit 2 1"

datatype ResponseFlags_bit =
    ResponseFlags_STATUS_FLAGS
  | ResponseFlags_STATE
  | ResponseFlags_ACTUAL_POSITION
  | ResponseFlags_DEMAND_POSITION
  | ResponseFlags_CURRENT
  | ResponseFlags_WARNING_FLAGS
  | ResponseFlags_ERROR_CODE
  | ResponseFlags_MONITORING_CHANNEL
  | ResponseFlags_REALTIME_CONFIGURATION

fun ResponseFlags_const :: "ResponseFlags_bit \<Rightarrow> ResponseFlags" where
  "ResponseFlags_const ResponseFlags_STATUS_FLAGS = push_bit 0 1"
| "ResponseFlags_const ResponseFlags_STATE = push_bit 1 1"
| "ResponseFlags_const ResponseFlags_ACTUAL_POSITION = push_bit 2 1"
| "ResponseFlags_const ResponseFlags_DEMAND_POSITION = push_bit 3 1"
| "ResponseFlags_const ResponseFlags_CURRENT = push_bit 4 1"
| "ResponseFlags_const ResponseFlags_WARNING_FLAGS = push_bit 5 1"
| "ResponseFlags_const ResponseFlags_ERROR_CODE = push_bit 6 1"
| "ResponseFlags_const ResponseFlags_MONITORING_CHANNEL = push_bit 7 1"
| "ResponseFlags_const ResponseFlags_REALTIME_CONFIGURATION = push_bit 8 1"

text \<open>
  \<open>from_bits_truncate\<close> keeps the declared bits; \<open>all\<close> is their union; \<open>contains\<close> of a
  one-bit flag tests that bit.
\<close>

definition from_bits_truncate :: "'w::len word \<Rightarrow> 'w word \<Rightarrow> 'w word" where
  "from_bits_truncate declared bits = bits AND declared"

definition RequestFlags_all :: RequestFlags where
  "RequestFlags_all = 0x7"

definition ResponseFlags_all :: ResponseFlags where
  "ResponseFlags_all = 0x1FF"

definition bits_contain :: "u32 \<Rightarrow> u32 \<Rightarrow> bool" where
  "bits_contain fs f \<longleftrightarrow> fs AND f = f"

subsection \<open>Realtime configuration\<close>

record RealtimeConfiguration =
  rtc_command :: u16
  rtc_params :: "u16 \<times> u16 \<times> u16"

definition RealtimeConfiguration_write_to ::
    "RealtimeConfiguration \<Rightarrow> writer \<Rightarrow> WriteError + writer" where
  "RealtimeConfiguration_write_to rtc w =
     (case rtc_params rtc of (p0, p1, p2) \<Rightarrow>
      andthen (write_u16_le (rtc_command rtc) w) (\<lambda>w.
      andthen (write_u16_le p0 w) (\<lambda>w.
      andthen (write_u16_le p1 w) (\<lambda>w. write_u16_le p2 w))))"

definition RealtimeConfiguration_read_from ::
    "reader \<Rightarrow> ReadError + RealtimeConfiguration \<times> reader" where
  "RealtimeConfiguration_read_from r =
     andthen (read_u16_le r) (\<lambda>(command, r).
     andthen (read_u16_le r) (\<lambda>(p0, r).
     andthen (read_u16_le r) (\<lambda>(p1, r).
     andthen (read_u16_le r) (\<lambda>(p2, r).
     Inr (\<lparr>rtc_command = command, rtc_params = (p0, p1, p2)\<rparr>, r)))))"

subsection \<open>Requests\<close>

record Request =
  req_control_flags :: "ControlFlags option"
  req_motion_command :: "MciMotionCommand option"
  req_realtime_configuration :: "RealtimeConfiguration option"
  req_response_flags :: ResponseFlags

definition Request_default :: Request where
  "Request_default = \<lparr>req_control_flags = None, req_motion_command = None,
     req_realtime_configuration = None, req_response_flags = 0\<rparr>"

definition Request_flags :: "Request \<Rightarrow> RequestFlags" where
  "Request_flags req =
     (let f = 0;
          f = (if req_control_flags req \<noteq> None
               then f OR RequestFlags_const RequestFlags_CONTROL_FLAGS else f);
          f = (if req_motion_command req \<noteq> None
               then f OR RequestFlags_const RequestFlags_MOTION_COMMAND else f);
          f = (if req_realtime_configuration req \<noteq> None
               then f OR RequestFlags_const RequestFlags_REALTIME_CONFIGURATION else f) in
      f)"

text \<open>The result is the number of bytes written and the buffer after the call.\<close>

definition Request_to_wire :: "Request \<Rightarrow> u8 list \<Rightarrow> WriteError + nat \<times> u8 list" where
  "Request_to_wire req out =
     andthen (write_u32_le (Request_flags req) (Writer_new out)) (\<lambda>w.
     andthen (write_u32_le (req_response_flags req) w) (\<lambda>w.
     andthen (case req_control_flags req of Some cw \<Rightarrow> write_u16_le cw w | None \<Rightarrow> Inr w) (\<lambda>w.
     andthen (case req_motion_command req of Some mc \<Rightarrow> MciMotionCommand_write_to mc w
              | None \<Rightarrow> Inr w) (\<lambda>w.
     andthen (case req_realtime_configuration req of
                Some rtc \<Rightarrow> RealtimeConfiguration_write_to rtc w | None \<Rightarrow> Inr w) (\<lambda>w.
     Inr (Writer_pos w, writer_buf w))))))"

subsection \<open>Responses\<close>

record Response =
  rsp_status_flags :: "StatusFlags option"
  rsp_raw_state :: "u16 option"
  rsp_actual_position :: "Position option"
  rsp_demand_position :: "Position option"
  rsp_current :: "Current option"
  rsp_warning_flags :: "WarningFlags option"
  rsp_raw_error_code :: "u16 option"
  rsp_monitoring_channel :: "(u32 \<times> u32 \<times> u32 \<times> u32) option"
  rsp_realtime_configuration :: "RealtimeConfiguration option"

definition Response_default :: Response where
  "Response_default = \<lparr>rsp_status_flags = None, rsp_raw_state = None, rsp_actual_position = None,
     rsp_demand_position = None, rsp_current = None, rsp_warning_flags = None,
     rsp_raw_error_code = None, rsp_monitoring_channel = None, rsp_realtime_configuration = None\<rparr>"

definition Response_state :: "Response \<Rightarrow> State option" where
  "Response_state rsp = map_option State_from (rsp_raw_state rsp)"

definition Response_error_code :: "Response \<Rightarrow> ErrorCode option" where
  "Response_error_code rsp = map_option ErrorCode_from (rsp_raw_error_code rsp)"

definition read_opt ::
    "(reader \<Rightarrow> ReadError + 'a \<times> reader) \<Rightarrow> ResponseFlags \<Rightarrow> ResponseFlags_bit \<Rightarrow> reader
     \<Rightarrow> ReadError + 'a option \<times> reader" where
  "read_opt read_from flags flag rd =
     (if bits_contain flags (ResponseFlags_const flag)
      then andthen (read_from rd) (\<lambda>(x, rd). Inr (Some x, rd))
      else Inr (None, rd))"

definition Response_from_wire :: "u8 list \<Rightarrow> ReadError + Response" where
  "Response_from_wire buf =
     andthen (read_u32_le (Reader_new buf)) (\<lambda>(request_bits, rd).
     andthen (read_u32_le rd) (\<lambda>(response_bits, rd).
     let request_flags = from_bits_truncate RequestFlags_all request_bits;
         response_flags = from_bits_truncate ResponseFlags_all response_bits;
         response_flags =
           (if \<not> bits_contain request_flags
                 (RequestFlags_const RequestFlags_REALTIME_CONFIGURATION)
            then response_flags AND
              NOT (ResponseFlags_const ResponseFlags_REALTIME_CONFIGURATION)
            else response_flags) in
     andthen (read_opt read_u16_le response_flags ResponseFlags_STATUS_FLAGS rd)
       (\<lambda>(status_flags, rd).
     andthen (read_opt read_u16_le response_flags ResponseFlags_STATE rd) (\<lambda>(raw_state, rd).
     andthen (read_opt Position_read_from response_flags ResponseFlags_ACTUAL_POSITION rd)
       (\<lambda>(actual_position, rd).
     andthen (read_opt Position_read_from response_flags ResponseFlags_DEMAND_POSITION rd)
       (\<lambda>(demand_position, rd).
     andthen (read_opt Current_read_from response_flags ResponseFlags_CURRENT rd)
       (\<lambda>(current, rd).
     andthen (read_opt read_u16_le response_flags ResponseFlags_WARNING_FLAGS rd)
       (\<lambda>(warning_flags, rd).
     andthen (read_opt read_u16_le response_flags ResponseFlags_ERROR_CODE rd)
       (\<lambda>(raw_error_code, rd).
     andthen (read_opt (read_tuple4 read_u32_le) response_flags ResponseFlags_MONITORING_CHANNEL rd)
       (\<lambda>(monitoring_channel, rd).
     andthen (read_opt RealtimeConfiguration_read_from response_flags
                ResponseFlags_REALTIME_CONFIGURATION rd)
       (\<lambda>(realtime_configuration, rd).
     Inr \<lparr>rsp_status_flags = map_option (from_bits_truncate 0xFFFF) status_flags,
          rsp_raw_state = raw_state,
          rsp_actual_position = actual_position,
          rsp_demand_position = demand_position,
          rsp_current = current,
          rsp_warning_flags = map_option (from_bits_truncate 0xFFFF) warning_flags,
          rsp_raw_error_code = raw_error_code,
          rsp_monitoring_channel = monitoring_channel,
          rsp_realtime_configuration = realtime_configuration\<rparr>)))))))))))"

subsection \<open>The wire contracts\<close>

definition RealtimeConfiguration_bytes :: "RealtimeConfiguration \<Rightarrow> u8 list" where
  "RealtimeConfiguration_bytes rtc =
     (case rtc_params rtc of (p0, p1, p2) \<Rightarrow>
      to_le_bytes (rtc_command rtc) @ to_le_bytes p0 @ to_le_bytes p1 @ to_le_bytes p2)"

definition RealtimeConfiguration_of_bytes :: "u8 list \<Rightarrow> RealtimeConfiguration" where
  "RealtimeConfiguration_of_bytes bs =
     \<lparr>rtc_command = from_le_bytes (take 2 bs),
      rtc_params = (from_le_bytes (take 2 (drop 2 bs)), from_le_bytes (take 2 (drop 4 bs)),
                    from_le_bytes (take 2 (drop 6 bs)))\<rparr>"

lemma emits_RealtimeConfiguration [wire_writes]:
  "emits (RealtimeConfiguration_write_to rtc) (RealtimeConfiguration_bytes rtc)"
  unfolding RealtimeConfiguration_write_to_def [abs_def] RealtimeConfiguration_bytes_def
  by (cases "rtc_params rtc") (simp, intro wire_writes)

lemma wire_read_RealtimeConfiguration [wire_reads]:
  "wire_read RealtimeConfiguration_read_from 8 RealtimeConfiguration_of_bytes"
proof -
  have "wire_read RealtimeConfiguration_read_from (2 + (2 + (2 + (2 + 0))))
      (\<lambda>bs. \<lparr>rtc_command = from_le_bytes (take 2 bs), rtc_params =
         (from_le_bytes (take 2 (drop 2 bs)), from_le_bytes (take 2 (drop 2 (drop 2 bs))),
          from_le_bytes (take 2 (drop 2 (drop 2 (drop 2 bs)))))\<rparr>)"
    unfolding RealtimeConfiguration_read_from_def [abs_def] by (intro wire_reads)
  then show ?thesis
    by (simp add: RealtimeConfiguration_of_bytes_def [abs_def])
qed

interpretation rtc_codec: wire_codec RealtimeConfiguration_read_from 8
    RealtimeConfiguration_of_bytes RealtimeConfiguration_write_to RealtimeConfiguration_bytes
proof (intro wire_codec.intro wire_codec_axioms.intro)
  show "wire_write RealtimeConfiguration_write_to RealtimeConfiguration_bytes"
    by (simp add: wire_write_emits emits_RealtimeConfiguration)
next
  fix rtc
  show "length (RealtimeConfiguration_bytes rtc) = 8"
    by (simp add: RealtimeConfiguration_bytes_def split: prod.split)
  show "RealtimeConfiguration_of_bytes (RealtimeConfiguration_bytes rtc) = rtc"
    by (cases rtc) (simp add: RealtimeConfiguration_of_bytes_def RealtimeConfiguration_bytes_def
        split: prod.split)
next
  fix bs :: "u8 list"
  assume "length bs = 8"
  then show "RealtimeConfiguration_bytes (RealtimeConfiguration_of_bytes bs) = bs"
    by (simp add: RealtimeConfiguration_of_bytes_def RealtimeConfiguration_bytes_def
        to_le_bytes_from_le_bytes take_drop_append)
qed (rule wire_read_RealtimeConfiguration)

definition monitoring_bytes :: "u32 \<times> u32 \<times> u32 \<times> u32 \<Rightarrow> u8 list" where
  "monitoring_bytes m =
     (case m of (a, b, c, d) \<Rightarrow> to_le_bytes a @ to_le_bytes b @ to_le_bytes c @ to_le_bytes d)"

definition monitoring_of_bytes :: "u8 list \<Rightarrow> u32 \<times> u32 \<times> u32 \<times> u32" where
  "monitoring_of_bytes bs =
     (from_le_bytes (take 4 bs), from_le_bytes (take 4 (drop 4 bs)),
      from_le_bytes (take 4 (drop 8 bs)), from_le_bytes (take 4 (drop 12 bs)))"

lemma wire_read_monitoring [wire_reads]:
  "wire_read (read_tuple4 read_u32_le) 16 monitoring_of_bytes"
proof -
  have "wire_read (read_tuple4 read_u32_le) (4 + (4 + (4 + (4 + 0))))
      (\<lambda>bs. (from_le_bytes (take 4 bs), from_le_bytes (take 4 (drop 4 bs)),
        from_le_bytes (take 4 (drop 4 (drop 4 bs))),
        from_le_bytes (take 4 (drop 4 (drop 4 (drop 4 bs))))))"
    unfolding read_tuple4_def [abs_def] by (intro wire_reads)
  then show ?thesis
    by (simp add: monitoring_of_bytes_def [abs_def])
qed

interpretation monitoring: wire_read "read_tuple4 read_u32_le" 16 monitoring_of_bytes
  by (rule wire_read_monitoring)

lemma monitoring_of_bytes_bytes [simp]: "monitoring_of_bytes (monitoring_bytes m) = m"
  by (cases m) (simp add: monitoring_of_bytes_def monitoring_bytes_def)

lemma length_monitoring_bytes [simp]: "length (monitoring_bytes m) = 16"
  by (cases m) (simp add: monitoring_bytes_def)

subsection \<open>What a request looks like on the wire\<close>

definition request_bytes :: "Request \<Rightarrow> u8 list" where
  "request_bytes req =
     to_le_bytes (Request_flags req) @ to_le_bytes (req_response_flags req) @
     opt_bytes to_le_bytes (req_control_flags req) @
     opt_bytes command_block (req_motion_command req) @
     opt_bytes RealtimeConfiguration_bytes (req_realtime_configuration req)"

lemma length_request_bytes:
  "length (request_bytes req) =
     8 + (if req_control_flags req = None then 0 else 2)
       + (if req_motion_command req = None then 0 else 32)
       + (if req_realtime_configuration req = None then 0 else 8)"
  by (auto simp: request_bytes_def rtc_codec.length_enc opt_bytes_def split: option.split)

lemma request_bytes_small: "length (request_bytes req) \<le> 50"
  by (simp add: length_request_bytes)

lemma emits_request:
  "emits (\<lambda>w. andthen (write_u32_le (Request_flags req) w) (\<lambda>w.
     andthen (write_u32_le (req_response_flags req) w) (\<lambda>w.
     andthen (case req_control_flags req of None \<Rightarrow> Inr w | Some cw \<Rightarrow> write_u16_le cw w) (\<lambda>w.
     andthen (case req_motion_command req of None \<Rightarrow> Inr w
              | Some mc \<Rightarrow> MciMotionCommand_write_to mc w) (\<lambda>w.
     case req_realtime_configuration req of None \<Rightarrow> Inr w
     | Some rtc \<Rightarrow> RealtimeConfiguration_write_to rtc w))))) (request_bytes req)"
  unfolding request_bytes_def by (intro wire_writes)

lemma Request_to_wire_cases:
  "length (request_bytes req) \<le> length out \<and>
     Request_to_wire req out =
       Inr (length (request_bytes req), request_bytes req @ drop (length (request_bytes req)) out)
   \<or> length out < length (request_bytes req) \<and>
     (\<exists>needed avail. Request_to_wire req out = Inl (Overflow needed avail))"
proof -
  let ?f = "\<lambda>w. andthen (write_u32_le (Request_flags req) w) (\<lambda>w.
     andthen (write_u32_le (req_response_flags req) w) (\<lambda>w.
     andthen (case req_control_flags req of None \<Rightarrow> Inr w | Some cw \<Rightarrow> write_u16_le cw w) (\<lambda>w.
     andthen (case req_motion_command req of None \<Rightarrow> Inr w
              | Some mc \<Rightarrow> MciMotionCommand_write_to mc w) (\<lambda>w.
     case req_realtime_configuration req of None \<Rightarrow> Inr w
     | Some rtc \<Rightarrow> RealtimeConfiguration_write_to rtc w))))"
  have eq: "Request_to_wire req out =
      andthen (?f (Writer_new out)) (\<lambda>w. Inr (Writer_pos w, writer_buf w))"
    by (simp add: Request_to_wire_def andthen_assoc)
  have room: "room (Writer_new out) n \<longleftrightarrow> n \<le> length out" for n
    by (simp add: room_def Writer_new_def)
  show ?thesis
  proof (cases "length (request_bytes req) \<le> length out")
    case True
    then have "?f (Writer_new out) = Inr (put (request_bytes req) (Writer_new out))"
      by (intro emits_ok [OF emits_request]) (simp add: room)
    then have "Request_to_wire req out = Inr (length (request_bytes req),
        request_bytes req @ drop (length (request_bytes req)) out)"
      unfolding eq by (simp add: Writer_pos_def put_def Writer_new_def)
    with True show ?thesis by blast
  next
    case False
    then obtain n h where "?f (Writer_new out) = Inl (Overflow n h)"
      using emits_overflow [OF emits_request, of "Writer_new out" req] by (auto simp: room)
    then have "Request_to_wire req out = Inl (Overflow n h)"
      unfolding eq by simp
    with False show ?thesis by auto
  qed
qed

subsection \<open>How the drive reads a request\<close>

text \<open>
  The drive takes the request flags, the response flags, and then the blocks the request flags
  announce: control word, motion command, realtime configuration.
\<close>

definition drive_request :: "u8 list \<Rightarrow> Request option" where
  "drive_request bs =
     (let request_flags = from_le_bytes (take 4 bs) :: u32;
          response_flags = from_le_bytes (take 4 (drop 4 bs)) :: u32;
          rest = drop 8 bs;
          cw = (if bit request_flags 0 then Some (from_le_bytes (take 2 rest)) else None);
          rest = (if bit request_flags 0 then drop 2 rest else rest);
          block = take 32 rest;
          rest = (if bit request_flags 1 then drop 32 rest else rest);
          rtc = (if bit request_flags 2 then Some (RealtimeConfiguration_of_bytes rest) else None) in
      if bit request_flags 1 \<and> drive_command block = None then None
      else Some \<lparr>req_control_flags = cw,
        req_motion_command =
          (if bit request_flags 1
           then Some \<lparr>mci_count = drive_toggle block, mci_command = the (drive_command block)\<rparr>
           else None),
        req_realtime_configuration = rtc,
        req_response_flags = response_flags\<rparr>)"

text \<open>A request as it arrives: the toggle counter travels in four bits.\<close>

definition on_the_wire :: "Request \<Rightarrow> Request" where
  "on_the_wire req = req\<lparr>req_motion_command :=
     map_option (\<lambda>mc. mc\<lparr>mci_count := mci_count mc AND 0xF\<rparr>) (req_motion_command req)\<rparr>"

lemma bit_Request_flags:
  "bit (Request_flags req) 0 \<longleftrightarrow> req_control_flags req \<noteq> None"
  "bit (Request_flags req) 1 \<longleftrightarrow> req_motion_command req \<noteq> None"
  "bit (Request_flags req) 2 \<longleftrightarrow> req_realtime_configuration req \<noteq> None"
  by (simp_all add: Request_flags_def Let_def bit_simps bit_numeral_rec)

lemma drive_request_bytes: "drive_request (request_bytes req) = Some (on_the_wire req)"
  using drive_command_block drive_toggle_block
  by (cases req; cases "req_control_flags req"; cases "req_motion_command req";
      cases "req_realtime_configuration req")
    (simp_all add: drive_request_def Let_def bit_Request_flags request_bytes_def on_the_wire_def
      rtc_codec.dec_enc del: One_nat_def)

text \<open>
  C20: serialising into a 64-byte datagram buffer, as the drive loop does, never fails; the
  drive decodes the bytes that are sent to the request the controller built (the toggle counter
  modulo 16), and the rest of the buffer keeps its contents.
\<close>

theorem Request_reaches_drive:
  assumes "length out = BUFFER_SIZE"
  shows "\<exists>n out'. Request_to_wire req out = Inr (n, out') \<and> 8 \<le> n \<and> n \<le> 50 \<and>
           drive_request (take n out') = Some (on_the_wire req) \<and>
           length out' = BUFFER_SIZE \<and> drop n out' = drop n out"
proof -
  have "length (request_bytes req) \<le> length out" and "8 \<le> length (request_bytes req)"
    using request_bytes_small [of req] assms
    by (simp_all add: BUFFER_SIZE_def length_request_bytes)
  with Request_to_wire_cases [of req out] show ?thesis
    using request_bytes_small [of req] assms by (auto simp: drive_request_bytes)
qed

theorem Request_reaches_drive_witness:
  "\<exists>n out'. Request_to_wire Request_default (replicate BUFFER_SIZE 0) = Inr (n, out') \<and>
     8 \<le> n \<and> n \<le> 50 \<and> drive_request (take n out') = Some (on_the_wire Request_default) \<and>
     length out' = BUFFER_SIZE \<and> drop n out' = drop n (replicate BUFFER_SIZE 0)"
  by (rule Request_reaches_drive) simp

text \<open>
  C35: with any buffer, serialising a request either fills exactly the bytes of its encoding
  and reports their number, or, if the buffer is too short for them, reports an overflow and
  nothing else.
\<close>

theorem Request_to_wire_exact:
  "length (request_bytes req) \<le> length out \<and>
     Request_to_wire req out =
       Inr (length (request_bytes req), request_bytes req @ drop (length (request_bytes req)) out)
   \<or> length out < length (request_bytes req) \<and>
     (\<exists>needed avail. Request_to_wire req out = Inl (Overflow needed avail))"
  by (rule Request_to_wire_cases)

subsection \<open>What a response looks like on the wire\<close>

fun ResponseFlags_pos :: "ResponseFlags_bit \<Rightarrow> nat" where
  "ResponseFlags_pos ResponseFlags_STATUS_FLAGS = 0"
| "ResponseFlags_pos ResponseFlags_STATE = 1"
| "ResponseFlags_pos ResponseFlags_ACTUAL_POSITION = 2"
| "ResponseFlags_pos ResponseFlags_DEMAND_POSITION = 3"
| "ResponseFlags_pos ResponseFlags_CURRENT = 4"
| "ResponseFlags_pos ResponseFlags_WARNING_FLAGS = 5"
| "ResponseFlags_pos ResponseFlags_ERROR_CODE = 6"
| "ResponseFlags_pos ResponseFlags_MONITORING_CHANNEL = 7"
| "ResponseFlags_pos ResponseFlags_REALTIME_CONFIGURATION = 8"

text \<open>
  The drive echoes the request flags and the response flags and appends the fields the response
  flags name; the realtime configuration only answers a request that carried one.
\<close>

definition carries :: "u32 \<Rightarrow> u32 \<Rightarrow> ResponseFlags_bit \<Rightarrow> bool" where
  "carries request_bits response_bits f \<longleftrightarrow> bit response_bits (ResponseFlags_pos f) \<and>
     (f = ResponseFlags_REALTIME_CONFIGURATION \<longrightarrow> bit request_bits 2)"

fun field_size :: "ResponseFlags_bit \<Rightarrow> nat" where
  "field_size ResponseFlags_STATUS_FLAGS = 2"
| "field_size ResponseFlags_STATE = 2"
| "field_size ResponseFlags_ACTUAL_POSITION = 4"
| "field_size ResponseFlags_DEMAND_POSITION = 4"
| "field_size ResponseFlags_CURRENT = 2"
| "field_size ResponseFlags_WARNING_FLAGS = 2"
| "field_size ResponseFlags_ERROR_CODE = 2"
| "field_size ResponseFlags_MONITORING_CHANNEL = 16"
| "field_size ResponseFlags_REALTIME_CONFIGURATION = 8"

definition carried_size :: "u32 \<Rightarrow> u32 \<Rightarrow> ResponseFlags_bit \<Rightarrow> nat" where
  "carried_size rq rs f = (if carries rq rs f then field_size f else 0)"

definition response_size :: "u32 \<Rightarrow> u32 \<Rightarrow> nat" where
  "response_size rq rs = 8 + sum_list (map (carried_size rq rs)
     [ResponseFlags_STATUS_FLAGS, ResponseFlags_STATE, ResponseFlags_ACTUAL_POSITION,
      ResponseFlags_DEMAND_POSITION, ResponseFlags_CURRENT, ResponseFlags_WARNING_FLAGS,
      ResponseFlags_ERROR_CODE, ResponseFlags_MONITORING_CHANNEL,
      ResponseFlags_REALTIME_CONFIGURATION])"

definition well_formed_response :: "u32 \<Rightarrow> u32 \<Rightarrow> Response \<Rightarrow> bool" where
  "well_formed_response rq rs rsp \<longleftrightarrow>
     (rsp_status_flags rsp \<noteq> None \<longleftrightarrow> carries rq rs ResponseFlags_STATUS_FLAGS) \<and>
     (rsp_raw_state rsp \<noteq> None \<longleftrightarrow> carries rq rs ResponseFlags_STATE) \<and>
     (rsp_actual_position rsp \<noteq> None \<longleftrightarrow> carries rq rs ResponseFlags_ACTUAL_POSITION) \<and>
     (rsp_demand_position rsp \<noteq> None \<longleftrightarrow> carries rq rs ResponseFlags_DEMAND_POSITION) \<and>
     (rsp_current rsp \<noteq> None \<longleftrightarrow> carries rq rs ResponseFlags_CURRENT) \<and>
     (rsp_warning_flags rsp \<noteq> None \<longleftrightarrow> carries rq rs ResponseFlags_WARNING_FLAGS) \<and>
     (rsp_raw_error_code rsp \<noteq> None \<longleftrightarrow> carries rq rs ResponseFlags_ERROR_CODE) \<and>
     (rsp_monitoring_channel rsp \<noteq> None \<longleftrightarrow> carries rq rs ResponseFlags_MONITORING_CHANNEL) \<and>
     (rsp_realtime_configuration rsp \<noteq> None \<longleftrightarrow>
        carries rq rs ResponseFlags_REALTIME_CONFIGURATION)"

definition response_bytes :: "u32 \<Rightarrow> u32 \<Rightarrow> Response \<Rightarrow> u8 list" where
  "response_bytes rq rs rsp =
     to_le_bytes rq @ to_le_bytes rs @
     opt_bytes to_le_bytes (rsp_status_flags rsp) @
     opt_bytes to_le_bytes (rsp_raw_state rsp) @
     opt_bytes (to_le_bytes \<circ> position_0) (rsp_actual_position rsp) @
     opt_bytes (to_le_bytes \<circ> position_0) (rsp_demand_position rsp) @
     opt_bytes (to_le_bytes \<circ> current_0) (rsp_current rsp) @
     opt_bytes to_le_bytes (rsp_warning_flags rsp) @
     opt_bytes to_le_bytes (rsp_raw_error_code rsp) @
     opt_bytes monitoring_bytes (rsp_monitoring_channel rsp) @
     opt_bytes RealtimeConfiguration_bytes (rsp_realtime_configuration rsp)"

subsection \<open>Parsing a response\<close>

lemma bits_contain_bit: "k < 32 \<Longrightarrow> bits_contain w (push_bit k 1) \<longleftrightarrow> bit w k"
  unfolding bits_contain_def
proof
  assume "k < 32" and eq: "w AND push_bit k 1 = push_bit k 1"
  then have "bit (push_bit k 1 :: u32) k"
    by (simp add: bit_simps)
  then have "bit (w AND push_bit k 1) k"
    by (simp only: eq)
  then show "bit w k"
    by (simp only: bit_and_iff)
next
  assume "bit w k"
  then show "w AND push_bit k 1 = push_bit k 1"
    by (intro bit_word_eqI) (auto simp: bit_simps)
qed

lemma ResponseFlags_const_pos: "ResponseFlags_const f = push_bit (ResponseFlags_pos f) 1"
  by (cases f) simp_all

lemma ResponseFlags_pos_less: "ResponseFlags_pos f < 9"
  by (cases f) simp_all

lemma ResponseFlags_pos_inject: "ResponseFlags_pos f = ResponseFlags_pos g \<longleftrightarrow> f = g"
  by (cases f; cases g) simp_all

lemma bit_ResponseFlags_all: "bit ResponseFlags_all n \<longleftrightarrow> n < 9"
proof -
  have all_mask: "ResponseFlags_all = mask 9"
    by (simp add: ResponseFlags_all_def mask_eq_exp_minus_1)
  show ?thesis
    unfolding all_mask by (auto simp: bit_mask_iff)
qed

definition effective_flags :: "u32 \<Rightarrow> u32 \<Rightarrow> u32" where
  "effective_flags rq rs =
     (if \<not> bits_contain (from_bits_truncate RequestFlags_all rq)
           (RequestFlags_const RequestFlags_REALTIME_CONFIGURATION)
      then from_bits_truncate ResponseFlags_all rs AND
             NOT (ResponseFlags_const ResponseFlags_REALTIME_CONFIGURATION)
      else from_bits_truncate ResponseFlags_all rs)"

lemma effective_flags_contain:
  "bits_contain (effective_flags rq rs) (ResponseFlags_const f) \<longleftrightarrow> carries rq rs f"
proof -
  have rtc: "bits_contain (from_bits_truncate RequestFlags_all rq)
      (RequestFlags_const RequestFlags_REALTIME_CONFIGURATION) \<longleftrightarrow> bit rq 2"
    unfolding RequestFlags_const.simps
    by (subst bits_contain_bit)
      (simp_all add: from_bits_truncate_def RequestFlags_all_def bit_simps bit_numeral_rec)
  have small: "ResponseFlags_pos f < 32"
    using ResponseFlags_pos_less [of f] by simp
  show ?thesis
    unfolding effective_flags_def rtc
    unfolding ResponseFlags_const_pos bits_contain_bit [OF small]
      carries_def from_bits_truncate_def
    using ResponseFlags_pos_less [of f] small
      ResponseFlags_pos_inject [of f ResponseFlags_REALTIME_CONFIGURATION]
    by (auto simp: bit_simps bit_ResponseFlags_all simp del: ResponseFlags_pos.simps)
qed

definition Response_fields :: "u32 \<Rightarrow> reader \<Rightarrow> ReadError + Response \<times> reader" where
  "Response_fields fs rd =
     andthen (read_opt read_u16_le fs ResponseFlags_STATUS_FLAGS rd) (\<lambda>(status_flags, rd).
     andthen (read_opt read_u16_le fs ResponseFlags_STATE rd) (\<lambda>(raw_state, rd).
     andthen (read_opt Position_read_from fs ResponseFlags_ACTUAL_POSITION rd)
       (\<lambda>(actual_position, rd).
     andthen (read_opt Position_read_from fs ResponseFlags_DEMAND_POSITION rd)
       (\<lambda>(demand_position, rd).
     andthen (read_opt Current_read_from fs ResponseFlags_CURRENT rd) (\<lambda>(current, rd).
     andthen (read_opt read_u16_le fs ResponseFlags_WARNING_FLAGS rd) (\<lambda>(warning_flags, rd).
     andthen (read_opt read_u16_le fs ResponseFlags_ERROR_CODE rd) (\<lambda>(raw_error_code, rd).
     andthen (read_opt (read_tuple4 read_u32_le) fs ResponseFlags_MONITORING_CHANNEL rd)
       (\<lambda>(monitoring_channel, rd).
     andthen (read_opt RealtimeConfiguration_read_from fs ResponseFlags_REALTIME_CONFIGURATION rd)
       (\<lambda>(realtime_configuration, rd).
     Inr (\<lparr>rsp_status_flags = map_option (from_bits_truncate 0xFFFF) status_flags,
          rsp_raw_state = raw_state,
          rsp_actual_position = actual_position,
          rsp_demand_position = demand_position,
          rsp_current = current,
          rsp_warning_flags = map_option (from_bits_truncate 0xFFFF) warning_flags,
          rsp_raw_error_code = raw_error_code,
          rsp_monitoring_channel = monitoring_channel,
          rsp_realtime_configuration = realtime_configuration\<rparr>, rd))))))))))"

lemma Response_from_wire_fields:
  "Response_from_wire buf =
     andthen (read_u32_le (Reader_new buf)) (\<lambda>(rq, rd).
     andthen (read_u32_le rd) (\<lambda>(rs, rd).
     andthen (Response_fields (effective_flags rq rs) rd) (\<lambda>(rsp, rd). Inr rsp)))"
  unfolding Response_from_wire_def Response_fields_def effective_flags_def Let_def
  by (simp only: andthen_assoc case_prod_unfold andthen_simps fst_conv snd_conv)

definition opt_dec :: "bool \<Rightarrow> nat \<Rightarrow> (u8 list \<Rightarrow> 'a) \<Rightarrow> u8 list \<Rightarrow> 'a option" where
  "opt_dec c n dec bs = (if c then Some (dec (take n bs)) else None)"

lemma wire_read_opt [wire_reads]:
  assumes f: "wire_read f n dec"
  shows "wire_read (read_opt f fs flag) (if bits_contain fs (ResponseFlags_const flag) then n else 0)
           (opt_dec (bits_contain fs (ResponseFlags_const flag)) n dec)"
proof (cases "bits_contain fs (ResponseFlags_const flag)")
  case True
  then have "read_opt f fs flag = (\<lambda>r. andthen (f r) (\<lambda>(x, r). Inr (Some x, r)))"
    by (simp add: read_opt_def [abs_def])
  with wire_read_map [OF f, of Some] True show ?thesis
    unfolding wire_read_def by (auto simp: opt_dec_def)
next
  case False
  with wire_read_return [of None] show ?thesis
    by (simp add: read_opt_def [abs_def] opt_dec_def [abs_def])
qed

lemma wire_read_bind_ex:
  assumes "\<exists>d. wire_read f m d" and "\<And>x. \<exists>e. wire_read (g x) n e"
  shows "\<exists>d. wire_read (\<lambda>r. andthen (f r) (\<lambda>(x, r). g x r)) (m + n) d"
proof -
  from assms(2) obtain e where "\<And>x. wire_read (g x) n (e x)"
    by metis
  with assms(1) show ?thesis
    using wire_read_bind by blast
qed

lemma wire_read_Response_fields:
  "\<exists>dec. wire_read (Response_fields (effective_flags rq rs)) (response_size rq rs - 8) dec"
proof -
  define c where "c = bits_contain (effective_flags rq rs) \<circ> ResponseFlags_const"
  have c: "bits_contain (effective_flags rq rs) (ResponseFlags_const f) = c f" for f
    by (simp add: c_def)
  let ?n = "\<lambda>f k :: nat. if c f then k else 0"
  let ?sizes = "?n ResponseFlags_STATUS_FLAGS 2 + (?n ResponseFlags_STATE 2 +
    (?n ResponseFlags_ACTUAL_POSITION 4 + (?n ResponseFlags_DEMAND_POSITION 4 +
    (?n ResponseFlags_CURRENT 2 + (?n ResponseFlags_WARNING_FLAGS 2 +
    (?n ResponseFlags_ERROR_CODE 2 + (?n ResponseFlags_MONITORING_CHANNEL 16 +
    (?n ResponseFlags_REALTIME_CONFIGURATION 8 + 0))))))))"
  have "\<exists>dec. wire_read (Response_fields (effective_flags rq rs)) ?sizes dec"
    unfolding Response_fields_def [abs_def] c [symmetric]
    by (intro wire_read_bind_ex; rule exI, (rule wire_reads)+)
  moreover have "?sizes = response_size rq rs - 8"
    by (simp add: response_size_def carried_size_def c [symmetric] effective_flags_contain
        del: ResponseFlags_const.simps)
  ultimately show ?thesis by (simp only:)
qed

text \<open>
  C34: parsing succeeds exactly on the buffers that hold both flag words and every field that
  the flag words announce; no other content makes it fail, and trailing bytes are ignored.
\<close>

theorem Response_parses_iff:
  "(\<exists>rsp. Response_from_wire buf = Inr rsp) \<longleftrightarrow>
     8 \<le> length buf \<and>
     response_size (from_le_bytes (take 4 buf)) (from_le_bytes (take 4 (drop 4 buf))) \<le> length buf"
  (is "?parses \<longleftrightarrow> ?len \<and> ?size")
proof (cases "8 \<le> length buf")
  case True
  let ?rq = "from_le_bytes (take 4 buf) :: u32" and ?rs = "from_le_bytes (take 4 (drop 4 buf)) :: u32"
  have "Response_from_wire buf =
      andthen (Response_fields (effective_flags ?rq ?rs) (advance 8 (Reader_new buf)))
        (\<lambda>(rsp, rd). Inr rsp)"
    using True by (simp add: Response_from_wire_fields u32_codec.read_bind)
  then have "?parses \<longleftrightarrow> (\<exists>x. Response_fields (effective_flags ?rq ?rs)
      (advance 8 (Reader_new buf)) = Inr x)"
    by (simp add: andthen_eq_Inr)
  also have "\<dots> \<longleftrightarrow> response_size ?rq ?rs - 8 \<le> length buf - 8"
    using wire_read_Response_fields [of ?rq ?rs]
      wire_read.read_Inr_iff [of _ _ _ "advance 8 (Reader_new buf)"] by fastforce
  also have "\<dots> \<longleftrightarrow> response_size ?rq ?rs \<le> length buf"
    using True by (auto simp: response_size_def)
  finally show ?thesis using True by simp
next
  case False
  have "\<not> ?parses"
  proof (cases "4 \<le> length buf")
    case True
    with False show ?thesis
      using u32_codec.read_underflow [of "advance 4 (Reader_new buf)"]
      by (force simp: Response_from_wire_fields u32_codec.read_bind)
  next
    case False
    then show ?thesis
      using u32_codec.read_underflow [of "Reader_new buf"]
      by (auto simp: Response_from_wire_fields)
  qed
  with False show ?thesis by simp
qed

lemma read_opt_codec:
  assumes "wire_codec f n dec g enc"
    and "unread r = opt_bytes enc v @ bs"
    and "v \<noteq> None \<longleftrightarrow> bits_contain fs (ResponseFlags_const flag)"
  shows "read_opt f fs flag r = Inr (v, advance (length (opt_bytes enc v)) r)"
  using assms wire_codec.read_enc [OF assms(1), of r] wire_codec.length_enc [OF assms(1)]
  by (cases v) (simp_all add: read_opt_def)

lemma read_opt_monitoring:
  assumes "unread r = opt_bytes monitoring_bytes v @ bs"
    and "v \<noteq> None \<longleftrightarrow> bits_contain fs (ResponseFlags_const flag)"
  shows "read_opt (read_tuple4 read_u32_le) fs flag r =
    Inr (v, advance (length (opt_bytes monitoring_bytes v)) r)"
  using assms monitoring.read_ok [of r] by (cases v) (simp_all add: read_opt_def)

lemma read_opt_current:
  assumes "unread r = opt_bytes (to_le_bytes \<circ> current_0) v @ bs"
    and "v \<noteq> None \<longleftrightarrow> bits_contain fs (ResponseFlags_const flag)"
  shows "read_opt Current_read_from fs flag r =
    Inr (v, advance (length (opt_bytes (to_le_bytes \<circ> current_0) v)) r)"
  using assms wire_read.read_ok [OF wire_read_quantities(4), of r]
  by (cases v) (simp_all add: read_opt_def)

lemma from_bits_truncate_u16: "from_bits_truncate 0xFFFF = (id :: u16 \<Rightarrow> u16)"
proof
  have "(0xFFFF :: u16) = - 1" by simp
  then show "from_bits_truncate 0xFFFF w = id (w :: u16)" for w
    by (simp only: from_bits_truncate_def and.right_neutral id_apply)
qed

lemma response_bytes_parsed:
  assumes "well_formed_response rq rs rsp"
  shows "Response_from_wire (response_bytes rq rs rsp @ trailing) = Inr rsp"
proof -
  have pos: "wire_codec Position_read_from 4 (\<lambda>bs. Position (from_le_bytes bs)) Position_write_to
      (to_le_bytes \<circ> position_0)"
    using position_codec.wire_codec_axioms by (simp add: comp_def)
  show ?thesis
    using assms unfolding well_formed_response_def
    by (simp add: Response_from_wire_fields response_bytes_def u32_codec.read_bind Response_fields_def
        effective_flags_contain from_bits_truncate_u16 option.map_id
        read_opt_codec [OF u16_codec.wire_codec_axioms] read_opt_codec [OF pos]
        read_opt_current read_opt_monitoring read_opt_codec [OF rtc_codec.wire_codec_axioms]
        del: ResponseFlags_const.simps not_None_eq)
qed

text \<open>
  C21: whatever combination of fields the drive reports, the response is parsed to exactly those
  values, each field in its place, whatever follows it in the receive buffer.
\<close>

theorem Response_reads_drive:
  assumes "well_formed_response rq rs rsp"
  shows "Response_from_wire (response_bytes rq rs rsp @ trailing) = Inr rsp"
  using assms by (rule response_bytes_parsed)

definition example_response :: Response where
  "example_response = Response_default\<lparr>rsp_status_flags := Some 1,
     rsp_actual_position := Some (Position 70000), rsp_raw_error_code := Some 32\<rparr>"

theorem Response_reads_drive_witness:
  "Response_from_wire (response_bytes 4 0x45 example_response @ [7, 7]) = Inr example_response"
proof (rule Response_reads_drive)
  show "well_formed_response 4 0x45 example_response"
    by (simp add: well_formed_response_def example_response_def Response_default_def carries_def
        bit_numeral_rec)
qed

end
