(* ===== verification/Messages.thy ===== *)
theory Messages
  imports Udp
begin

text \<open>
  The vocabulary the threads of the server share: limits, controller identifiers and the core
  state (\<open>src/lib.rs\<close>), and the client and core messages (\<open>src/messages.rs\<close>).  The
  serde derives are not modelled; the hand-written text form of a controller identifier is.
\<close>

type_synonym u64 = "64 word"

subsection \<open>Limits\<close>

record SystemLimits =
  limit_position :: Position
  limit_velocity :: Velocity
  limit_acceleration :: Acceleration
  limit_deceleration :: Acceleration

subsection \<open>Controller identifiers\<close>

datatype ControllerId = Hid | WebSocket nat \<comment> \<open>the \<open>usize\<close> of the \<open>mio\<close> token\<close>

definition ControllerId_to_string :: "ControllerId \<Rightarrow> string" where
  "ControllerId_to_string c =
     (case c of Hid \<Rightarrow> ''hid'' | WebSocket token \<Rightarrow> ''ws-'' @ show_nat token)"

text \<open>\<open>str::parse::<usize>\<close> on a 64-bit target.\<close>

definition is_digit :: "char \<Rightarrow> bool" where
  "is_digit c \<longleftrightarrow> 48 \<le> (of_char c :: nat) \<and> (of_char c :: nat) \<le> 57"

fun parse_digits :: "nat \<Rightarrow> string \<Rightarrow> nat option" where
  "parse_digits acc [] = Some acc"
| "parse_digits acc (c # s) =
     (if is_digit c
      then let acc' = 10 * acc + (of_char c - 48) in
           if acc' < 2 ^ 64 then parse_digits acc' s else None
      else None)"

definition parse_usize :: "string \<Rightarrow> nat option" where
  "parse_usize s =
     (let digits = (if s \<noteq> [] \<and> hd s = CHR ''+'' then tl s else s) in
      if digits = [] then None else parse_digits 0 digits)"

datatype ControllerIdError = InvalidControllerId string | InvalidToken string

definition ControllerId_from_str :: "string \<Rightarrow> ControllerIdError + ControllerId" where
  "ControllerId_from_str s =
     (if s = ''hid'' then Inr Hid
      else if take 3 s = ''ws-'' then
        (case parse_usize (drop 3 s) of
           Some token \<Rightarrow> Inr (WebSocket token)
         | None \<Rightarrow> Inl (InvalidToken (drop 3 s)))
      else Inl (InvalidControllerId s))"

subsection \<open>Core state\<close>

datatype DriveState = Disconnected | Off | Preparing | Paused | Moving | Errored

record CoreState =
  cs_drive_state :: DriveState
  cs_active_command_index :: nat
  cs_actual_position :: Position
  cs_demand_position :: Position
  cs_demand_velocity :: Velocity
  cs_demand_acceleration :: Acceleration
  cs_current_draw :: Current
  cs_drive_temperature :: DriveTemperature
  cs_motor_temperature :: MotorTemperature
  cs_warnings :: "string list"
  cs_error_code :: "string option"
  cs_command_set_version :: u64
  cs_write_access_holder :: "ControllerId option"

definition CoreState_default :: CoreState where
  "CoreState_default = \<lparr>cs_drive_state = Disconnected, cs_active_command_index = 0,
     cs_actual_position = Position 0, cs_demand_position = Position 0,
     cs_demand_velocity = Velocity 0, cs_demand_acceleration = Acceleration 0,
     cs_current_draw = Current 0, cs_drive_temperature = DriveTemperature 0,
     cs_motor_temperature = MotorTemperature 0, cs_warnings = [], cs_error_code = None,
     cs_command_set_version = 0, cs_write_access_holder = None\<rparr>"

subsection \<open>Motion commands\<close>

record MotionCommand =
  position :: Position
  velocity :: Velocity
  acceleration :: Acceleration
  deceleration :: Acceleration

record MotionCommandFields =
  f_position :: "Position option"
  f_velocity :: "Velocity option"
  f_acceleration :: "Acceleration option"
  f_deceleration :: "Acceleration option"

definition MotionCommandFields_default :: MotionCommandFields where
  "MotionCommandFields_default = \<lparr>f_position = None, f_velocity = None,
     f_acceleration = None, f_deceleration = None\<rparr>"

text \<open>The result is the updated command and whether anything changed.\<close>

definition apply_fields :: "MotionCommandFields \<Rightarrow> MotionCommand \<Rightarrow> MotionCommand \<times> bool" where
  "apply_fields upd c =
     (let changed = False;
          (c, changed) = (case f_position upd of
             Some x \<Rightarrow> if position c \<noteq> x then (c\<lparr>position := x\<rparr>, True) else (c, changed)
           | None \<Rightarrow> (c, changed));
          (c, changed) = (case f_velocity upd of
             Some x \<Rightarrow> if velocity c \<noteq> x then (c\<lparr>velocity := x\<rparr>, True) else (c, changed)
           | None \<Rightarrow> (c, changed));
          (c, changed) = (case f_acceleration upd of
             Some x \<Rightarrow> if acceleration c \<noteq> x then (c\<lparr>acceleration := x\<rparr>, True) else (c, changed)
           | None \<Rightarrow> (c, changed));
          (c, changed) = (case f_deceleration upd of
             Some x \<Rightarrow> if deceleration c \<noteq> x then (c\<lparr>deceleration := x\<rparr>, True) else (c, changed)
           | None \<Rightarrow> (c, changed)) in
      (c, changed))"

record SavedSetMetadata =
  sm_name :: string
  sm_version :: u64
  sm_saved_at :: string

type_synonym CommandSetId = "string option"

datatype MotionAction = Start | Pause | Resume | Stop

record CommandUpdate =
  cu_index :: nat
  cu_fields :: MotionCommandFields

subsection \<open>Messages\<close>

datatype ClientMessage =
    RequestWriteAccess (msg_seq: u64)
  | ReleaseWriteAccess (msg_seq: u64)
  | GetState (msg_seq: u64)
  | GetCommandSet (msg_seq: u64) CommandSetId
  | UpsertCommandSet (msg_seq: u64) CommandSetId "u64 option" "MotionCommand list"
      \<comment> \<open>set, base version, commands\<close>
  | UpdateCommand (msg_seq: u64) CommandUpdate
  | DeleteCommandSet (msg_seq: u64) CommandSetId "u64 option"
  | ListSavedSets (msg_seq: u64)
  | SetDrivePower (msg_seq: u64) bool
  | SetMotionState (msg_seq: u64) MotionAction
  | AcknowledgeError (msg_seq: u64)

datatype AckFailureReason = NotWriter | NotFound | OutOfRange | InvalidState

datatype CoreMessage =
    Connected ControllerId SystemLimits CoreState
  | Ack u64 bool "AckFailureReason option"
  | WriteAccessResult u64 bool "ControllerId option"
  | CommandSet u64 CommandSetId u64 "MotionCommand list"
  | CommandResult u64 bool u64
  | SavedSetList u64 "SavedSetMetadata list"
  | StateMessage "u64 option" CoreState \<comment> \<open>\<open>CoreMessage::State\<close>\<close>
  | CommandSetChanged u64 "CommandUpdate option"
  | WriteAccessChanged "ControllerId option" "ControllerId option"
      \<comment> \<open>holder, previous holder\<close>

subsection \<open>Identifiers survive their text form\<close>

lemma parse_digits_append:
  "parse_digits acc (s @ t) =
     (case parse_digits acc s of None \<Rightarrow> None | Some n \<Rightarrow> parse_digits n t)"
  by (induction s arbitrary: acc) (simp_all add: Let_def)

lemma of_char_digit: "d < 10 \<Longrightarrow> (of_char (char_of (48 + d)) :: nat) = 48 + d"
  by simp

lemma parse_digits_show_nat: "n < 2 ^ 64 \<Longrightarrow> parse_digits 0 (show_nat n) = Some n"
proof (induction n rule: show_nat.induct)
  case (1 n)
  show ?case
  proof (cases "n < 10")
    case True
    with of_char_digit [OF True] show ?thesis
      by (simp add: show_nat.simps [of n] is_digit_def)
  next
    case False
    have "parse_digits 0 (show_nat (n div 10)) = Some (n div 10)"
      using 1 False by simp
    with False of_char_digit [of "n mod 10"] 1(2) show ?thesis
      by (simp add: show_nat.simps [of n] parse_digits_append is_digit_def)
  qed
qed

lemma show_nat_Cons: "\<exists>d s. show_nat n = char_of (48 + d :: nat) # s \<and> d < 10"
proof (induction n rule: show_nat.induct)
  case (1 n)
  show ?case
  proof (cases "n < 10")
    case True
    then show ?thesis
      by (auto simp: show_nat.simps [of n] intro: exI [of _ n])
  next
    case False
    then obtain d s where "show_nat (n div 10) = char_of (48 + d :: nat) # s" and "d < 10"
      using 1 by blast
    with False show ?thesis
      by (intro exI [of _ d]) (simp add: show_nat.simps [of n])
  qed
qed

lemma parse_usize_show_nat:
  assumes "n < 2 ^ 64"
  shows "parse_usize (show_nat n) = Some n"
proof -
  obtain d s where ds: "show_nat n = char_of (48 + d :: nat) # s" "d < 10"
    using show_nat_Cons by blast
  have "char_of (48 + d) \<noteq> CHR ''+''"
    using of_char_digit [OF ds(2)] by (auto dest: arg_cong [where f = "of_char :: char \<Rightarrow> nat"])
  then show ?thesis
    using parse_digits_show_nat [OF assms] by (simp add: parse_usize_def ds(1))
qed

text \<open>
  A controller identifier survives the text form it is sent in, for every token value a
  64-bit process can hold.
\<close>

theorem ControllerId_roundtrip:
  assumes "\<And>token. c = WebSocket token \<Longrightarrow> token < 2 ^ 64"
  shows "ControllerId_from_str (ControllerId_to_string c) = Inr c"
  using assms
  by (cases c) (simp_all add: ControllerId_to_string_def ControllerId_from_str_def
      parse_usize_show_nat)

theorem ControllerId_roundtrip_witness:
  "ControllerId_from_str (ControllerId_to_string (WebSocket 1207)) = Inr (WebSocket 1207)"
  by (rule ControllerId_roundtrip) simp

subsection \<open>Partial updates\<close>

lemma apply_fields_eq:
  "apply_fields upd c =
     (let c' = c\<lparr>position := case f_position upd of None \<Rightarrow> position c | Some x \<Rightarrow> x,
                velocity := case f_velocity upd of None \<Rightarrow> velocity c | Some x \<Rightarrow> x,
                acceleration := case f_acceleration upd of None \<Rightarrow> acceleration c | Some x \<Rightarrow> x,
                deceleration := case f_deceleration upd of None \<Rightarrow> deceleration c | Some x \<Rightarrow> x\<rparr> in
      (c', c' \<noteq> c))"
  by (cases c; cases upd; cases "f_position upd"; cases "f_velocity upd";
      cases "f_acceleration upd"; cases "f_deceleration upd")
    (simp_all add: apply_fields_def)

lemma apply_fields_changed: "snd (apply_fields upd c) \<longleftrightarrow> fst (apply_fields upd c) \<noteq> c"
  by (simp add: apply_fields_eq Let_def)

lemma apply_fields_idem:
  "apply_fields upd (fst (apply_fields upd c)) = (fst (apply_fields upd c), False)"
  by (cases c) (simp add: apply_fields_eq Let_def split: option.splits)

end
