(* ===== verification/Motion.thy ===== *)
theory Motion
  imports Messages
begin

text \<open>
  The motion arithmetic of \<open>src/drive.rs\<close>: the predictions the hand-off between commands
  rests on, the choice of the waypoint that bounds the motion, and the deceleration that is
  sent to the drive.  Every intermediate result is computed at its Rust width; \<open>None\<close> is a
  panic.  A \<open>Duration\<close> is its number of nanoseconds.
\<close>

subsection \<open>Durations\<close>

type_synonym duration = nat

definition duration_max :: duration where
  "duration_max = 18446744073709551615 * 1000000000 + 999999999"

definition duration_saturating_mul :: "duration \<Rightarrow> nat \<Rightarrow> duration" where
  "duration_saturating_mul d n = min (d * n) duration_max"

definition as_micros :: "duration \<Rightarrow> int" where
  "as_micros d = int (d div 1000)"

subsection \<open>Predictions\<close>

definition predict_position ::
    "profile \<Rightarrow> Position \<Rightarrow> Velocity \<Rightarrow> Acceleration \<Rightarrow> duration \<Rightarrow> Position option" where
  "predict_position p pos vel acc dur =
     (let t_us = as_i64 (as_micros dur);
          p0 = sint (position_0 pos); v0 = sint (velocity_0 vel); a = sint (acceleration_0 acc) in
      do {
        x \<leftarrow> arith_i64 p (v0 * t_us);
        x \<leftarrow> arith_i64 p (x * 10);
        let vt = trunc_div x 1000000;
        y \<leftarrow> arith_i64 p (a * t_us);
        y \<leftarrow> arith_i64 p (y * t_us);
        y \<leftarrow> arith_i64 p (y * 50);
        let at2 = trunc_div y 1000000000000;
        s \<leftarrow> arith_i64 p (p0 + vt);
        s \<leftarrow> arith_i64 p (s + at2);
        Some (Position (as_i32 s))
      })"

definition predict_velocity ::
    "profile \<Rightarrow> Velocity \<Rightarrow> Acceleration \<Rightarrow> duration \<Rightarrow> Velocity option" where
  "predict_velocity p vel acc dur =
     (let t_us = as_i64 (as_micros dur);
          v0 = sint (velocity_0 vel); a = sint (acceleration_0 acc) in
      do {
        x \<leftarrow> arith_i64 p (a * t_us);
        s \<leftarrow> arith_i64 p (v0 + trunc_div x 100000);
        Some (Velocity (as_i32 s))
      })"

subsection \<open>Directions\<close>

definition normalize_direction :: "int \<Rightarrow> int option" where
  "normalize_direction direction = (if sgn direction = 0 then None else Some (sgn direction))"

definition effective_clamp_target_after_handoff ::
    "profile \<Rightarrow> MotionCommand list \<Rightarrow> nat \<Rightarrow> bool \<Rightarrow> int option \<Rightarrow> Position \<Rightarrow> int option
     \<Rightarrow> (Position \<times> int option) option" where
  "effective_clamp_target_after_handoff p input_commands active_command_index
       active_command_has_approached active_approach_direction fallback_target
       fallback_approach_direction =
     (if active_command_has_approached \<or> active_approach_direction = None
         \<or> length input_commands < 2
      then Some (fallback_target, fallback_approach_direction)
      else
        let prev_index =
              (active_command_index + length input_commands - 1) mod length input_commands;
            prev_prev_index = (prev_index + length input_commands - 1) mod length input_commands;
            prev_target = position (input_commands ! prev_index);
            prev_prev_target = position (input_commands ! prev_prev_index) in
        do {
          d \<leftarrow> arith_i32 p (sint (position_0 prev_target) - sint (position_0 prev_prev_target));
          Some (prev_target, normalize_direction d)
        })"

subsection \<open>The deceleration that is sent\<close>

definition div_u64 :: "int \<Rightarrow> int \<Rightarrow> int option" where
  "div_u64 x y = (if y = 0 then None else Some (x div y))"

definition sufficient :: "profile \<Rightarrow> int \<Rightarrow> int \<Rightarrow> int \<Rightarrow> bool option" where
  "sufficient p v_sq d_req budget =
     (if d_req > 0 then do {
        x \<leftarrow> arith_u64 p (2 * d_req);
        x \<leftarrow> arith_u64 p (x * budget);
        Some (v_sq \<le> x)
      } else Some False)"

definition past_target :: "int option \<Rightarrow> int \<Rightarrow> int \<Rightarrow> bool" where
  "past_target approach_direction displacement v =
     (case approach_direction of
        Some dir \<Rightarrow>
          if dir \<noteq> 0 then (dir > 0 \<and> displacement < 0) \<or> (dir < 0 \<and> displacement > 0)
          else (v > 0 \<and> displacement < 0) \<or> (v < 0 \<and> displacement > 0)
      | None \<Rightarrow> (v > 0 \<and> displacement < 0) \<or> (v < 0 \<and> displacement > 0))"

definition hard_stop :: "profile \<Rightarrow> int \<Rightarrow> int \<Rightarrow> Acceleration \<Rightarrow> Acceleration \<Rightarrow> Acceleration option"
where
  "hard_stop p distance_past margin hard_decel_min hard_decel_max = do {
     let excess = distance_past - margin;
     let scale_denom = max margin 1;
     x \<leftarrow> arith_u64 p (excess * 1000);
     q \<leftarrow> div_u64 x scale_denom;
     let t = min q 1000;
     let lo = as_u64 (sint (acceleration_0 hard_decel_min));
     let hi = as_u64 (sint (acceleration_0 hard_decel_max));
     y \<leftarrow> arith_u64 p (hi - lo);
     y \<leftarrow> arith_u64 p (y * t);
     scaled \<leftarrow> arith_u64 p (lo + y div 1000);
     Some (Acceleration (as_i32 (min scaled 2147483647)))
   }"

definition clamp_to_budget ::
    "profile \<Rightarrow> int \<Rightarrow> int \<Rightarrow> Acceleration \<Rightarrow> int \<Rightarrow> Acceleration option" where
  "clamp_to_budget p v v_sq requested_deceleration stopping_budget =
     (if v = 0 \<or> stopping_budget = 0 then Some requested_deceleration
      else do {
        ok \<leftarrow> sufficient p v_sq (as_u64 (sint (acceleration_0 requested_deceleration)))
               stopping_budget;
        if ok then Some requested_deceleration
        else do {
          b \<leftarrow> arith_u64 p (2 * stopping_budget);
          x \<leftarrow> arith_u64 p (v_sq + b);
          x \<leftarrow> arith_u64 p (x - 1);
          d_min \<leftarrow> div_u64 x b;
          Some (Acceleration (as_i32 (min d_min 2147483647)))
        }
      })"

definition clamp_deceleration ::
    "profile \<Rightarrow> Position \<Rightarrow> Velocity \<Rightarrow> Position \<Rightarrow> Acceleration \<Rightarrow> int option \<Rightarrow> Position
     \<Rightarrow> Acceleration \<Rightarrow> Acceleration \<Rightarrow> Acceleration option" where
  "clamp_deceleration p demand_position demand_velocity target_position requested_deceleration
       approach_direction overshoot_margin hard_decel_min hard_decel_max =
     (let margin = \<bar>sint (position_0 overshoot_margin)\<bar>;
          v = sint (velocity_0 demand_velocity) in
      do {
        displacement \<leftarrow>
          arith_i64 p (sint (position_0 target_position) - sint (position_0 demand_position));
        vv \<leftarrow> arith_i64 p (v * v);
        let v_sq = as_u64 vv;
        if past_target approach_direction displacement v then
          let distance_past = \<bar>displacement\<bar> in
          if distance_past \<ge> margin
          then hard_stop p distance_past margin hard_decel_min hard_decel_max
          else clamp_to_budget p v v_sq requested_deceleration (margin - distance_past)
        else do {
          let base = \<bar>displacement\<bar>;
          with_margin \<leftarrow> arith_u64 p (base + margin);
          ok \<leftarrow> sufficient p v_sq (as_u64 (sint (acceleration_0 requested_deceleration)))
                 with_margin;
          clamp_to_budget p v v_sq requested_deceleration (if ok then with_margin else base)
        }
      })"

subsection \<open>What is computed when nothing overflows\<close>

abbreviation raw_p :: "Position \<Rightarrow> int" where "raw_p x \<equiv> sint (position_0 x)"

abbreviation raw_v :: "Velocity \<Rightarrow> int" where "raw_v x \<equiv> sint (velocity_0 x)"

abbreviation raw_a :: "Acceleration \<Rightarrow> int" where "raw_a x \<equiv> sint (acceleration_0 x)"

lemma raw_a_as_i32:
  "- 2147483648 \<le> x \<Longrightarrow> x \<le> 2147483647 \<Longrightarrow> raw_a (Acceleration (as_i32 x)) = x"
  by simp

lemma raw_eq:
  "raw_p x = raw_p y \<longleftrightarrow> x = y" "raw_a a = raw_a b \<longleftrightarrow> a = b"
  by (simp_all add: sint_inject position.raw_inject acceleration.raw_inject)

lemma square_i32:
  assumes "- 2147483648 \<le> v" and "v \<le> (2147483647 :: int)"
  shows "0 \<le> v * v" and "v * v \<le> 4611686018427387904"
proof -
  have "\<bar>v\<bar> * \<bar>v\<bar> \<le> 2147483648 * 2147483648"
    using assms by (intro mult_mono) auto
  then show "v * v \<le> 4611686018427387904"
    by (simp add: abs_mult_self_eq)
qed simp

lemma sufficient_eq:
  assumes "0 \<le> d" "d \<le> 2147483647" "0 \<le> b" "b \<le> 4294967296"
  shows "sufficient p v_sq d b = Some (0 < d \<and> v_sq \<le> 2 * d * b)"
proof -
  have "2 * d * b \<le> 4294967294 * 4294967296"
    using assms by (intro mult_mono) auto
  moreover have "0 \<le> 2 * d * b"
    using assms by simp
  ultimately have "arith_u64 p (2 * d * b) = Some (2 * d * b)"
    by (intro arith_u64_ok) linarith+
  then show ?thesis
    using assms by (simp add: sufficient_def arith_ok)
qed

text \<open>The smallest deceleration that stops within the budget, and the hard stop.\<close>

definition needed_deceleration :: "int \<Rightarrow> int \<Rightarrow> int" where
  "needed_deceleration v_sq budget = (v_sq + 2 * budget - 1) div (2 * budget)"

definition hard_scale :: "int \<Rightarrow> int \<Rightarrow> int" where
  "hard_scale excess margin = min (excess * 1000 div max margin 1) 1000"

lemma div_le_iff:
  assumes "0 < (b :: int)"
  shows "n div b \<le> d \<longleftrightarrow> n < b * (d + 1)"
proof
  assume "n div b \<le> d"
  then have "b * (n div b + 1) \<le> b * (d + 1)"
    using assms by simp
  moreover have "n < b * (n div b + 1)"
    using pos_mod_bound [OF assms, of n] mult_div_mod_eq [of b n]
    unfolding distrib_left by linarith
  ultimately show "n < b * (d + 1)"
    by linarith
next
  assume "n < b * (d + 1)"
  moreover have "b * (n div b) \<le> n"
    using pos_mod_sign [OF assms, of n] mult_div_mod_eq [of b n] by linarith
  ultimately have "b * (n div b) < b * (d + 1)"
    by linarith
  then show "n div b \<le> d"
    using assms by (simp add: mult_less_cancel_left)
qed

lemma needed_deceleration_least:
  assumes "0 < budget"
  shows "v_sq \<le> 2 * d * budget \<longleftrightarrow> needed_deceleration v_sq budget \<le> d"
proof -
  let ?b = "2 * budget" and ?n = "v_sq + 2 * budget - 1"
  have "needed_deceleration v_sq budget \<le> d \<longleftrightarrow> ?n < ?b * (d + 1)"
    using assms div_le_iff [of ?b ?n d] by (simp add: needed_deceleration_def)
  then show ?thesis by (auto simp: algebra_simps)
qed

lemma clamp_to_budget_eq:
  assumes "- 2147483648 \<le> v" "v \<le> 2147483647" "0 \<le> b" "b \<le> 4294967296" "0 \<le> raw_a req"
  shows "clamp_to_budget p v (v * v) req b =
    Some (if v = 0 \<or> b = 0 \<or> 0 < raw_a req \<and> v * v \<le> 2 * raw_a req * b then req
          else Acceleration (as_i32 (min (needed_deceleration (v * v) b) 2147483647)))"
proof -
  have "as_u64 (raw_a req) = raw_a req"
    using assms sint_i32_range(2) [of "acceleration_0 req"] by (intro as_u64_id) linarith+
  moreover have ar: "arith_u64 p (v * v + 2 * b - 1) = Some (v * v + 2 * b - 1)" if "b \<noteq> 0"
    using assms square_i32 [OF assms(1,2)] that by (intro arith_u64_ok) linarith+
  ultimately show ?thesis
    using assms square_i32 [OF assms(1,2)] sint_i32_range [of "acceleration_0 req"]
    by (cases "v = 0"; cases "b = 0") (simp_all add: clamp_to_budget_def sufficient_eq arith_ok
        ar div_u64_def needed_deceleration_def)
qed

lemma hard_stop_eq:
  assumes "0 \<le> margin" "margin \<le> d" "d \<le> 4294967296" "0 \<le> raw_a lo" "raw_a lo \<le> raw_a hi"
  shows "hard_stop p d margin lo hi = Some (Acceleration (as_i32
    (raw_a lo + (raw_a hi - raw_a lo) * hard_scale (d - margin) margin div 1000)))"
proof -
  let ?t = "hard_scale (d - margin) margin" and ?w = "raw_a hi - raw_a lo"
  have t: "0 \<le> ?t" "?t \<le> 1000"
    using assms by (auto simp: hard_scale_def pos_imp_zdiv_nonneg_iff max_def)
  have w: "0 \<le> ?w" "?w \<le> 2147483647"
    using assms sint_i32_range [of "acceleration_0 hi"] by auto
  have wt: "0 \<le> ?w * ?t" "?w * ?t \<le> ?w * 1000"
    using t w mult_left_mono [of ?t 1000 ?w] by simp_all
  then have q: "0 \<le> ?w * ?t div 1000" "?w * ?t div 1000 \<le> ?w"
    using zdiv_mono1 [OF wt(2), of 1000] by simp_all
  have ids: "as_u64 (raw_a lo) = raw_a lo" "as_u64 (raw_a hi) = raw_a hi"
    using assms sint_i32_range [of "acceleration_0 hi"] by (auto intro!: as_u64_id)
  have ex: "arith_u64 p ((d - margin) * 1000) = Some ((d - margin) * 1000)"
    using assms by (intro arith_u64_ok) auto
  have top: "raw_a lo + ?w * ?t div 1000 \<le> 2147483647"
    using q sint_i32_range [of "acceleration_0 hi"] by linarith
  have steps: "arith_u64 p ?w = Some ?w" "arith_u64 p (?w * ?t) = Some (?w * ?t)"
    "arith_u64 p (raw_a lo + ?w * ?t div 1000) = Some (raw_a lo + ?w * ?t div 1000)"
    using assms w wt q top by (intro arith_u64_ok; linarith)+
  have "max margin 1 \<noteq> 0" by simp
  then show ?thesis
    unfolding hard_stop_def Let_def ids ex div_u64_def
    by (simp only: if_False Option.bind.bind_lunit hard_scale_def [symmetric] steps min_absorb1 [OF top])
qed

subsection \<open>The deceleration, as a specification\<close>

text \<open>
  Ranges in which no intermediate result leaves its type: positions and margin within 107 m,
  decelerations not negative, the hard-stop range not empty.
\<close>

definition sane_clamp ::
    "Position \<Rightarrow> Position \<Rightarrow> Acceleration \<Rightarrow> Position \<Rightarrow> Acceleration \<Rightarrow> Acceleration \<Rightarrow> bool" where
  "sane_clamp pos target req margin hard_min hard_max \<longleftrightarrow>
     \<bar>raw_p pos\<bar> \<le> 1073741824 \<and> \<bar>raw_p target\<bar> \<le> 1073741824 \<and> \<bar>raw_p margin\<bar> \<le> 1073741824 \<and>
     0 \<le> raw_a req \<and> 0 \<le> raw_a hard_min \<and> raw_a hard_min \<le> raw_a hard_max"

text \<open>Already past the target by the whole margin.\<close>

definition overshot :: "int option \<Rightarrow> int \<Rightarrow> int \<Rightarrow> int \<Rightarrow> bool" where
  "overshot dir displacement v margin \<longleftrightarrow>
     past_target dir displacement v \<and> margin \<le> \<bar>displacement\<bar>"

text \<open>
  The distance to the far edge of the margin around the target, and the part of it the code
  plans with: the margin ahead of the target is granted only if the requested deceleration can
  stop within it.
\<close>

definition stopping_room :: "int option \<Rightarrow> int \<Rightarrow> int \<Rightarrow> int \<Rightarrow> int" where
  "stopping_room dir displacement v margin =
     (if past_target dir displacement v then margin - \<bar>displacement\<bar> else \<bar>displacement\<bar> + margin)"

definition stopping_budget :: "int option \<Rightarrow> int \<Rightarrow> int \<Rightarrow> int \<Rightarrow> int \<Rightarrow> int" where
  "stopping_budget dir displacement v margin req =
     (if past_target dir displacement v then margin - \<bar>displacement\<bar>
      else if 0 < req \<and> v * v \<le> 2 * req * (\<bar>displacement\<bar> + margin) then \<bar>displacement\<bar> + margin
      else \<bar>displacement\<bar>)"

definition clamped :: "int option \<Rightarrow> int \<Rightarrow> int \<Rightarrow> int \<Rightarrow> int \<Rightarrow> int \<Rightarrow> int \<Rightarrow> int" where
  "clamped dir displacement v margin req hard_min hard_max =
     (if overshot dir displacement v margin
      then hard_min + (hard_max - hard_min) * hard_scale (\<bar>displacement\<bar> - margin) margin div 1000
      else
        let budget = stopping_budget dir displacement v margin req in
        if v = 0 \<or> budget = 0 \<or> 0 < req \<and> v * v \<le> 2 * req * budget then req
        else min (needed_deceleration (v * v) budget) 2147483647)"

lemma clamp_deceleration_eq:
  assumes "sane_clamp pos target req margin hard_min hard_max"
  shows "clamp_deceleration p pos vel target req dir margin hard_min hard_max =
    Some (Acceleration (as_i32 (clamped dir (raw_p target - raw_p pos) (raw_v vel)
      \<bar>raw_p margin\<bar> (raw_a req) (raw_a hard_min) (raw_a hard_max))))"
proof -
  let ?D = "raw_p target - raw_p pos" and ?v = "raw_v vel" and ?m = "\<bar>raw_p margin\<bar>"
  have v: "- 2147483648 \<le> ?v" "?v \<le> 2147483647"
    by (fact sint_i32_range)+
  have D: "\<bar>?D\<bar> \<le> 2147483648" "\<bar>?D\<bar> + ?m \<le> 4294967296" "0 \<le> ?m"
    and sane: "0 \<le> raw_a req" "0 \<le> raw_a hard_min" "raw_a hard_min \<le> raw_a hard_max"
    using assms by (auto simp: sane_clamp_def)
  have steps: "arith_i64 p ?D = Some ?D" "arith_i64 p (?v * ?v) = Some (?v * ?v)"
    "arith_u64 p (\<bar>?D\<bar> + ?m) = Some (\<bar>?D\<bar> + ?m)" "as_u64 (?v * ?v) = ?v * ?v"
    "as_u64 (raw_a req) = raw_a req"
    using D sane(1) square_i32 [OF v] sint_i32_range [of "acceleration_0 req"]
    by (intro arith_i64_ok arith_u64_ok as_u64_id; linarith)+
  have req: "raw_a req \<le> 2147483647"
    by (fact sint_i32_range)
  have base: "clamp_to_budget p ?v (?v * ?v) req b =
      Some (Acceleration (as_i32 (if ?v = 0 \<or> b = 0 \<or> 0 < raw_a req \<and> ?v * ?v \<le> 2 * raw_a req * b
        then raw_a req else min (needed_deceleration (?v * ?v) b) 2147483647)))"
    if "0 \<le> b" "b \<le> 4294967296" for b
    using clamp_to_budget_eq [OF v that sane(1)] by simp
  show ?thesis
  proof (cases "past_target dir ?D ?v")
    case True
    show ?thesis
    proof (cases "?m \<le> \<bar>?D\<bar>")
      case hard: True
      with True D sane show ?thesis
        by (simp add: clamp_deceleration_def steps clamped_def overshot_def hard_stop_eq
            Let_def)
    next
      case False
      with True D show ?thesis
        by (simp add: clamp_deceleration_def steps clamped_def overshot_def stopping_budget_def
            base Let_def)
    qed
  next
    case False
    with D sane req show ?thesis
      by (simp add: clamp_deceleration_def steps clamped_def overshot_def stopping_budget_def
          base Let_def sufficient_eq)
  qed
qed

lemma needed_deceleration_nonneg: "0 \<le> v_sq \<Longrightarrow> 0 < b \<Longrightarrow> 0 \<le> needed_deceleration v_sq b"
  by (simp add: needed_deceleration_def pos_imp_zdiv_nonneg_iff)

lemma hard_scale_bounds:
  assumes "0 \<le> excess"
  shows "0 \<le> hard_scale excess margin" "hard_scale excess margin \<le> 1000"
    "hard_scale 0 margin = 0" "0 < excess \<Longrightarrow> margin \<le> excess \<Longrightarrow> hard_scale excess margin = 1000"
proof -
  show "hard_scale excess margin = 1000" if "0 < excess" "margin \<le> excess"
  proof -
    have "1000 * max margin 1 \<le> excess * 1000"
      using that by simp
    then have "1000 \<le> excess * 1000 div max margin 1"
      using zdiv_mono1 [of "1000 * max margin 1" "excess * 1000" "max margin 1"] by simp
    then show ?thesis by (simp add: hard_scale_def)
  qed
qed (use assms in \<open>simp_all add: hard_scale_def pos_imp_zdiv_nonneg_iff\<close>)

lemma clamped_hard:
  assumes "overshot dir D v margin" "0 \<le> lo" "lo \<le> hi"
  shows "lo \<le> clamped dir D v margin req lo hi" "clamped dir D v margin req lo hi \<le> hi"
    "\<bar>D\<bar> = margin \<Longrightarrow> clamped dir D v margin req lo hi = lo"
    "2 * margin \<le> \<bar>D\<bar> \<Longrightarrow> margin < \<bar>D\<bar> \<Longrightarrow> clamped dir D v margin req lo hi = hi"
proof -
  let ?t = "hard_scale (\<bar>D\<bar> - margin) margin"
  have ex: "0 \<le> \<bar>D\<bar> - margin"
    using assms(1) by (simp add: overshot_def)
  note t = hard_scale_bounds [OF ex, of margin]
  have eq: "clamped dir D v margin req lo hi = lo + (hi - lo) * ?t div 1000"
    using assms(1) by (simp add: clamped_def)
  have "0 \<le> (hi - lo) * ?t"
    using assms t by simp
  then show "lo \<le> clamped dir D v margin req lo hi"
    by (simp add: eq)
  have "(hi - lo) * ?t \<le> (hi - lo) * 1000"
    using assms t by (intro mult_left_mono) auto
  from zdiv_mono1 [OF this, of 1000] show "clamped dir D v margin req lo hi \<le> hi"
    by (simp add: eq)
  show "clamped dir D v margin req lo hi = lo" if "\<bar>D\<bar> = margin"
    unfolding eq using that by (simp add: hard_scale_def)
  show "clamped dir D v margin req lo hi = hi" if "2 * margin \<le> \<bar>D\<bar>" "margin < \<bar>D\<bar>"
    unfolding eq using that t(4) by simp
qed

lemma clamped_sufficient:
  fixes lo hi :: int
  assumes not_past: "\<not> overshot dir D v margin" and D: "D \<noteq> 0"
    and margin: "0 \<le> margin" and req: "0 \<le> req" "req \<le> 2147483647"
  defines "d \<equiv> clamped dir D v margin req lo hi"
    and "budget \<equiv> stopping_budget dir D v margin req"
  shows "req \<le> d" "0 \<le> d" "d \<le> 2147483647"
    "v * v \<le> 2 * d * budget \<or> d = 2147483647" "0 < budget"
    "d = req \<or> v * v > 2 * req * budget \<and> d \<le> needed_deceleration (v * v) budget"
proof -
  show b: "0 < budget"
    using not_past D margin by (auto simp: budget_def stopping_budget_def overshot_def)
  let ?n = "needed_deceleration (v * v) budget"
  have d: "d = (if v = 0 \<or> 0 < req \<and> v * v \<le> 2 * req * budget then req else min ?n 2147483647)"
    using b not_past by (auto simp: d_def budget_def clamped_def Let_def)
  have n: "0 \<le> ?n"
    using b by (intro needed_deceleration_nonneg) simp_all
  have least: "v * v \<le> 2 * x * budget \<longleftrightarrow> ?n \<le> x" for x
    by (rule needed_deceleration_least [OF b])
  show "req \<le> d" "0 \<le> d" "d \<le> 2147483647"
    using n req least [of req] by (auto simp: d)
  show "v * v \<le> 2 * d * budget \<or> d = 2147483647"
    using least [of "min ?n 2147483647"] least [of req] req b by (auto simp: d min_def)
  show "d = req \<or> v * v > 2 * req * budget \<and> d \<le> ?n"
    using least [of req] n req by (auto simp: d)
qed

lemma stopping_budget_le_room:
  assumes "0 \<le> margin"
  shows "stopping_budget dir D v margin req \<le> stopping_room dir D v margin"
  using assms by (simp add: stopping_budget_def stopping_room_def)

text \<open>Exactly on the target the requested deceleration is returned, sufficient or not.\<close>

lemma clamped_on_target:
  assumes "\<not> overshot dir 0 v margin"
  shows "clamped dir 0 v margin req lo hi = req"
proof -
  have "\<not> past_target dir 0 v"
    by (simp add: past_target_def split: option.split)
  with assms show ?thesis
    by (simp add: clamped_def stopping_budget_def)
qed

lemma raw_clamped:
  assumes "sane_clamp pos target req margin hard_min hard_max"
  shows "raw_a (Acceleration (as_i32 (clamped dir (raw_p target - raw_p pos) v \<bar>raw_p margin\<bar>
      (raw_a req) (raw_a hard_min) (raw_a hard_max)))) =
    clamped dir (raw_p target - raw_p pos) v \<bar>raw_p margin\<bar> (raw_a req) (raw_a hard_min) (raw_a hard_max)"
proof -
  let ?D = "raw_p target - raw_p pos" and ?m = "\<bar>raw_p margin\<bar>"
  let ?d = "clamped dir ?D v ?m (raw_a req) (raw_a hard_min) (raw_a hard_max)"
  have range: "0 \<le> raw_a req" "raw_a req \<le> 2147483647"
    "0 \<le> raw_a hard_min" "raw_a hard_min \<le> raw_a hard_max" "raw_a hard_max \<le> 2147483647"
    using assms sint_i32_range by (auto simp: sane_clamp_def)
  have "0 \<le> ?d \<and> ?d \<le> 2147483647"
  proof (cases "overshot dir ?D v ?m")
    case True
    from clamped_hard(1,2) [OF True range(3,4)] range show ?thesis by (meson order_trans)
  next
    case False
    then show ?thesis
      using clamped_sufficient(2,3) [OF False _ abs_ge_zero range(1,2)] clamped_on_target range(1,2)
      by (cases "?D = 0") auto
  qed
  then show ?thesis
    by (intro raw_a_as_i32) simp_all
qed

text \<open>
  C7: what the deceleration sent to the drive achieves.  For positions and a margin within 107 m
  and decelerations that are not negative, the computation does not panic in either build profile, and:
  a motor that has already passed the target by the whole margin gets a deceleration between the two
  of the hard stop, whatever was requested; a motor exactly on the target gets the requested one,
  whether or not it suffices; every other motor gets at least the requested one, and with it stops
  within the target plus the margin, \<open>v\<^sup>2 \<le> 2 d s\<close> with \<open>s\<close> the distance left to the far edge of the
  margin, unless even the largest deceleration an \<open>i32\<close> can hold, which it then gets, is too small.
\<close>

theorem clamp_deceleration_stops_in_time:
  assumes "sane_clamp pos target req margin hard_min hard_max"
  shows "\<exists>d. clamp_deceleration p pos vel target req dir margin hard_min hard_max = Some d \<and>
    (if overshot dir (raw_p target - raw_p pos) (raw_v vel) \<bar>raw_p margin\<bar>
     then hard_min \<le> d \<and> d \<le> hard_max
     else if pos = target then d = req
     else req \<le> d \<and>
       (raw_v vel * raw_v vel \<le>
          2 * raw_a d * stopping_room dir (raw_p target - raw_p pos) (raw_v vel) \<bar>raw_p margin\<bar>
        \<or> raw_a d = 2147483647))"
proof -
  let ?D = "raw_p target - raw_p pos" and ?v = "raw_v vel" and ?m = "\<bar>raw_p margin\<bar>"
  let ?d = "clamped dir ?D ?v ?m (raw_a req) (raw_a hard_min) (raw_a hard_max)"
  let ?a = "Acceleration (as_i32 ?d)"
  have raw: "raw_a ?a = ?d"
    by (rule raw_clamped [OF assms])
  have range: "0 \<le> raw_a req" "raw_a req \<le> 2147483647" "0 \<le> raw_a hard_min" "raw_a hard_min \<le> raw_a hard_max"
    using assms sint_i32_range by (auto simp: sane_clamp_def)
  have hard: "hard_min \<le> ?a \<and> ?a \<le> hard_max" if "overshot dir ?D ?v ?m"
    using clamped_hard(1,2) [OF that range(3,4)] unfolding acceleration.le_iff raw by blast
  have on_target: "?a = req" if "\<not> overshot dir ?D ?v ?m" "pos = target"
    using clamped_on_target that raw raw_eq(2) [of ?a req] by simp
  have "req \<le> ?a \<and> (?v * ?v \<le> 2 * raw_a ?a * stopping_room dir ?D ?v ?m \<or> raw_a ?a = 2147483647)"
    if "\<not> overshot dir ?D ?v ?m" "pos \<noteq> target"
  proof -
    have "?D \<noteq> 0"
      using that(2) raw_eq(1) [of target pos] by simp
    note d = clamped_sufficient(1-4) [OF that(1) this abs_ge_zero range(1,2),
        where lo = "raw_a hard_min" and hi = "raw_a hard_max"]
    have "2 * ?d * stopping_budget dir ?D ?v ?m (raw_a req) \<le> 2 * ?d * stopping_room dir ?D ?v ?m"
      using d(2) stopping_budget_le_room [of ?m] by (simp add: mult_left_mono)
    then show ?thesis
      using d(1,4) unfolding acceleration.le_iff raw by linarith
  qed
  with hard on_target show ?thesis
    unfolding clamp_deceleration_eq [OF assms] by (intro exI [of _ ?a]) simp
qed

theorem clamp_deceleration_stops_in_time_witness:
  "\<exists>d. clamp_deceleration Release (Position 900000) (Velocity 500000) (Position 1000000)
      (Acceleration 1000) (Some 1) (Position 50000) (Acceleration 750000) (Acceleration 3000000) =
        Some d \<and>
    Acceleration 1000 \<le> d \<and>
    (raw_v (Velocity 500000) * raw_v (Velocity 500000) \<le>
       2 * raw_a d * stopping_room (Some 1) (raw_p (Position 1000000) - raw_p (Position 900000))
         (raw_v (Velocity 500000)) \<bar>raw_p (Position 50000)\<bar>
     \<or> raw_a d = 2147483647)"
proof -
  have "sane_clamp (Position 900000) (Position 1000000) (Acceleration 1000) (Position 50000)
      (Acceleration 750000) (Acceleration 3000000)"
    by (simp add: sane_clamp_def)
  moreover have "\<not> overshot (Some 1) (raw_p (Position 1000000) - raw_p (Position 900000))
      (raw_v (Velocity 500000)) \<bar>raw_p (Position 50000)\<bar>" "Position 900000 \<noteq> Position 1000000"
    by (simp_all add: overshot_def past_target_def)
  ultimately show ?thesis
    using clamp_deceleration_stops_in_time [of "Position 900000" "Position 1000000" "Acceleration 1000"
        "Position 50000" "Acceleration 750000" "Acceleration 3000000" Release "Velocity 500000" "Some 1"]
    by (simp only: if_False)
qed

text \<open>
  C32: the deceleration is the requested one or the least that is needed.  In the same ranges: as long
  as the motor has not passed the target by the whole margin, the requested deceleration is
  returned when the motor is exactly on the target or when it suffices for the stopping budget, and
  otherwise the returned one is such that no smaller one suffices.  Past the margin it is the
  hard stop, scaled between its two bounds by how far past the margin the motor is, which may be more or
  less than what was requested or needed.
\<close>

theorem clamp_deceleration_minimal:
  assumes "sane_clamp pos target req margin hard_min hard_max"
    and "clamp_deceleration p pos vel target req dir margin hard_min hard_max = Some d"
  shows "let displacement = raw_p target - raw_p pos; v = raw_v vel; m = \<bar>raw_p margin\<bar>;
      budget = stopping_budget dir displacement v m (raw_a req)
    in if overshot dir displacement v m
      then raw_a d = raw_a hard_min +
        (raw_a hard_max - raw_a hard_min) * min ((\<bar>displacement\<bar> - m) * 1000 div max m 1) 1000 div 1000
      else if pos = target \<or> v * v \<le> 2 * raw_a req * budget then d = req
      else \<forall>b < raw_a d. 2 * b * budget < v * v"
proof -
  let ?D = "raw_p target - raw_p pos" and ?v = "raw_v vel" and ?m = "\<bar>raw_p margin\<bar>"
  let ?d = "clamped dir ?D ?v ?m (raw_a req) (raw_a hard_min) (raw_a hard_max)"
  let ?budget = "stopping_budget dir ?D ?v ?m (raw_a req)"
  have raw: "raw_a d = ?d"
    using assms(2) raw_clamped [OF assms(1)] by (auto simp: clamp_deceleration_eq [OF assms(1)])
  have range: "0 \<le> raw_a req" "raw_a req \<le> 2147483647"
    using assms(1) sint_i32_range by (auto simp: sane_clamp_def)
  have same: "d = req \<longleftrightarrow> ?d = raw_a req"
    using raw raw_eq(2) [of d req] by simp
  consider (hard) "overshot dir ?D ?v ?m" | (on) "\<not> overshot dir ?D ?v ?m" "pos = target"
    | (off) "\<not> overshot dir ?D ?v ?m" "pos \<noteq> target" by blast
  then show ?thesis
  proof cases
    case hard
    then show ?thesis
      unfolding Let_def raw by (simp add: clamped_def hard_scale_def)
  next
    case on
    then show ?thesis
      using clamped_on_target same by (simp add: Let_def)
  next
    case off
    then have D: "?D \<noteq> 0"
      using raw_eq(1) [of target pos] by simp
    note c = clamped_sufficient(5) [OF off(1) D abs_ge_zero range]
      clamped_sufficient(6) [OF off(1) D abs_ge_zero range, where lo = "raw_a hard_min" and hi = "raw_a hard_max"]
    have "d = req" if "?v * ?v \<le> 2 * raw_a req * ?budget"
      using c(2) that same by auto
    moreover have "2 * b * ?budget < ?v * ?v" if "\<not> ?v * ?v \<le> 2 * raw_a req * ?budget" "b < raw_a d" for b
    proof -
      have "b < needed_deceleration (?v * ?v) ?budget"
        using c(2) that needed_deceleration_least [OF c(1), of "?v * ?v" "raw_a req"] unfolding raw by auto
      then show ?thesis
        using needed_deceleration_least [OF c(1), of "?v * ?v" b] by simp
    qed
    ultimately show ?thesis
      using off by (simp add: Let_def)
  qed
qed

theorem clamp_deceleration_minimal_witness:
  "2 * 1249999 * stopping_budget (Some 1) (raw_p (Position 1000000) - raw_p (Position 900000))
      (raw_v (Velocity 500000)) \<bar>raw_p (Position 50000)\<bar> (raw_a (Acceleration 1000))
    < raw_v (Velocity 500000) * raw_v (Velocity 500000)"
proof -
  have sane: "sane_clamp (Position 900000) (Position 1000000) (Acceleration 1000) (Position 50000)
      (Acceleration 750000) (Acceleration 3000000)"
    by (simp add: sane_clamp_def)
  have "clamp_deceleration Release (Position 900000) (Velocity 500000) (Position 1000000)
      (Acceleration 1000) (Some 1) (Position 50000) (Acceleration 750000) (Acceleration 3000000) =
        Some (Acceleration 1250000)"
    by (subst clamp_deceleration_eq) (simp_all add: sane_clamp_def clamped_def overshot_def
        past_target_def stopping_budget_def needed_deceleration_def as_i32_def)
  from clamp_deceleration_minimal [OF sane this] show ?thesis
    by (simp add: Let_def overshot_def past_target_def stopping_budget_def)
qed

text \<open>
  Past the margin the hard stop takes over: whatever was requested, the deceleration lies
  between the two configured hard-stop values, is the smaller one at the edge of the margin and
  the larger one from twice the margin on.
\<close>

theorem clamp_deceleration_hard_stop:
  assumes "sane_clamp pos target req margin hard_min hard_max"
    and "overshot dir (raw_p target - raw_p pos) (raw_v vel) \<bar>raw_p margin\<bar>"
  shows "\<exists>d. clamp_deceleration p pos vel target req dir margin hard_min hard_max = Some d \<and>
    hard_min \<le> d \<and> d \<le> hard_max \<and>
    (\<bar>raw_p target - raw_p pos\<bar> = \<bar>raw_p margin\<bar> \<longrightarrow> d = hard_min) \<and>
    (2 * \<bar>raw_p margin\<bar> \<le> \<bar>raw_p target - raw_p pos\<bar> \<and>
       \<bar>raw_p margin\<bar> < \<bar>raw_p target - raw_p pos\<bar> \<longrightarrow> d = hard_max)"
proof -
  let ?D = "raw_p target - raw_p pos" and ?v = "raw_v vel" and ?m = "\<bar>raw_p margin\<bar>"
  let ?d = "clamped dir ?D ?v ?m (raw_a req) (raw_a hard_min) (raw_a hard_max)"
  have range: "0 \<le> raw_a hard_min" "raw_a hard_min \<le> raw_a hard_max" "raw_a hard_max \<le> 2147483647"
    using assms(1) sint_i32_range by (auto simp: sane_clamp_def)
  note d = clamped_hard [OF assms(2) range(1,2), of "raw_a req"]
  have raw: "raw_a (Acceleration (as_i32 ?d)) = ?d"
    using d(1,2) range by (intro raw_a_as_i32) linarith+
  have eq: "Acceleration (as_i32 ?d) = a \<longleftrightarrow> ?d = raw_a a" for a
    using raw raw_eq(2) [of "Acceleration (as_i32 ?d)" a] by simp
  show ?thesis
    unfolding clamp_deceleration_eq [OF assms(1)]
    using d by (intro exI [of _ "Acceleration (as_i32 ?d)"]) (simp add: acceleration.le_iff raw [simplified] eq)
qed

theorem clamp_deceleration_hard_stop_witness:
  "\<exists>d. clamp_deceleration Debug (Position 1075000) (Velocity 500000) (Position 1000000)
      (Acceleration 1000) (Some 1) (Position 50000) (Acceleration 750000) (Acceleration 3000000) =
        Some d \<and>
    Acceleration 750000 \<le> d \<and> d \<le> Acceleration 3000000 \<and>
    (\<bar>raw_p (Position 1000000) - raw_p (Position 1075000)\<bar> = \<bar>raw_p (Position 50000)\<bar> \<longrightarrow>
       d = Acceleration 750000) \<and>
    (2 * \<bar>raw_p (Position 50000)\<bar> \<le> \<bar>raw_p (Position 1000000) - raw_p (Position 1075000)\<bar> \<and>
       \<bar>raw_p (Position 50000)\<bar> < \<bar>raw_p (Position 1000000) - raw_p (Position 1075000)\<bar> \<longrightarrow>
       d = Acceleration 3000000)"
  by (rule clamp_deceleration_hard_stop) (simp_all add: sane_clamp_def overshot_def past_target_def)

subsection \<open>Where the clamp does less than its description says\<close>

text \<open>
  \<open>clamp_deceleration\<close> is described as raising the requested deceleration or returning it
  unchanged.  Past the margin it can lower it: half the requested deceleration is sent.
\<close>

theorem clamp_deceleration_can_lower:
  "clamp_deceleration Release (Position 1050000) (Velocity 500000) (Position 1000000)
     (Acceleration 1500000) (Some 1) (Position 50000) (Acceleration 750000) (Acceleration 3000000) =
   Some (Acceleration 750000)"
  by (subst clamp_deceleration_eq) (simp_all add: sane_clamp_def clamped_def overshot_def
      past_target_def hard_scale_def as_i32_def)

text \<open>
  Exactly on the target the stopping budget is zero and the requested deceleration is
  returned although stopping with it overruns the margin.
\<close>

theorem clamp_deceleration_on_target:
  "clamp_deceleration Release (Position 1000000) (Velocity 500000) (Position 1000000)
     (Acceleration 1000) (Some 1) (Position 50000) (Acceleration 750000) (Acceleration 3000000) =
   Some (Acceleration 1000) \<and>
   raw_v (Velocity 500000) * raw_v (Velocity 500000) >
     2 * raw_a (Acceleration 1000) * \<bar>raw_p (Position 50000)\<bar>"
  by (subst clamp_deceleration_eq) (simp_all add: sane_clamp_def clamped_def overshot_def
      past_target_def stopping_budget_def as_i32_def)

subsection \<open>Accuracy of the predictions\<close>

lemma abs_mult_le:
  fixes a b :: int
  assumes "\<bar>a\<bar> \<le> m" "\<bar>b\<bar> \<le> n"
  shows "\<bar>a * b\<bar> \<le> m * n"
  unfolding abs_mult using assms by (intro mult_mono) auto

lemma abs_add_le:
  fixes a b :: int
  assumes "\<bar>a\<bar> \<le> m" "\<bar>b\<bar> \<le> n"
  shows "\<bar>a + b\<bar> \<le> m + n"
  using assms abs_triangle_ineq [of a b] by linarith

lemma as_i64_micros:
  assumes "dur \<le> 9000000"
  shows "as_i64 (as_micros dur) = as_micros dur" "0 \<le> as_micros dur" "as_micros dur \<le> 9000"
proof -
  have "dur div 1000 \<le> 9000"
    using div_le_mono [OF assms, of 1000] by simp
  then show "0 \<le> as_micros dur" "as_micros dur \<le> 9000"
    by (simp_all add: as_micros_def)
  then show "as_i64 (as_micros dur) = as_micros dur"
    by (intro as_i64_id) auto
qed

lemma abs_sint_i32: "\<bar>sint (w :: i32)\<bar> \<le> 2147483648"
  using sint_i32_range [of w] by linarith

lemma arith_i64_abs: "\<bar>x\<bar> \<le> 9223372036854775807 \<Longrightarrow> arith_i64 p x = Some x"
  by (intro arith_i64_ok) linarith+

lemma position_error:
  fixes vt at2 p0 m n :: int
  assumes "\<bar>m * 10 - 1000000 * vt\<bar> < 1000000"
    and "\<bar>n * 50 - 1000000000000 * at2\<bar> < 1000000000000"
  shows "\<bar>20000000000 * (p0 + vt + at2) - (20000000000 * p0 + 200000 * m + n)\<bar> < 40000000000"
  using assms unfolding abs_less_iff distrib_left by linarith

lemma velocity_error:
  fixes d v0 m :: int
  assumes "\<bar>m - 100000 * d\<bar> < 100000"
  shows "\<bar>100000 * (v0 + d) - (100000 * v0 + m)\<bar> < 100000"
  using assms unfolding abs_less_iff distrib_left by linarith

lemma predict_position_eq:
  fixes vel acc
  assumes "dur \<le> 9000000"
  defines "vt \<equiv> trunc_div (raw_v vel * as_micros dur * 10) 1000000"
    and "at2 \<equiv> trunc_div (raw_a acc * as_micros dur * as_micros dur * 50) 1000000000000"
  shows "predict_position p pos vel acc dur = Some (Position (as_i32 (raw_p pos + vt + at2)))"
    "\<bar>vt\<bar> \<le> 193273529" "\<bar>at2\<bar> \<le> 8697309"
proof -
  let ?t = "as_micros dur" and ?v = "raw_v vel" and ?a = "raw_a acc"
  note t = as_i64_micros [OF assms(1)]
  have t9: "\<bar>?t\<bar> \<le> 9000"
    using t by simp
  have bounds: "\<bar>?v * ?t\<bar> \<le> 2147483648 * 9000" "\<bar>?a * ?t\<bar> \<le> 2147483648 * 9000"
    "\<bar>?a * ?t * ?t\<bar> \<le> 2147483648 * 9000 * 9000"
    by (intro abs_mult_le abs_sint_i32 t9)+
  let ?x = "?v * ?t * 10" and ?y = "?a * ?t * ?t * 50"
  have xy: "\<bar>?x\<bar> \<le> 1000000 * 193273529" "\<bar>?y\<bar> \<le> 1000000000000 * 8697309"
    using bounds by linarith+
  show small: "\<bar>vt\<bar> \<le> 193273529" "\<bar>at2\<bar> \<le> 8697309"
    unfolding vt_def at2_def using xy by (intro trunc_div_bound; simp)+
  have ops: "arith_i64 p (?v * ?t) = Some (?v * ?t)" "arith_i64 p ?x = Some ?x"
    "arith_i64 p (?a * ?t) = Some (?a * ?t)" "arith_i64 p (?a * ?t * ?t) = Some (?a * ?t * ?t)"
    "arith_i64 p ?y = Some ?y"
    using bounds xy by (auto intro!: arith_i64_abs elim!: order_trans simp del: abs_mult)
  have "\<bar>raw_p pos + vt\<bar> \<le> 2147483648 + 193273529"
    using abs_sint_i32 small(1) by (rule abs_add_le)
  moreover from this have "\<bar>raw_p pos + vt + at2\<bar> \<le> 2147483648 + 193273529 + 8697309"
    using small(2) by (rule abs_add_le)
  ultimately have sums: "arith_i64 p (raw_p pos + vt) = Some (raw_p pos + vt)"
    "arith_i64 p (raw_p pos + vt + at2) = Some (raw_p pos + vt + at2)"
    by (simp_all add: arith_i64_abs)
  show "predict_position p pos vel acc dur = Some (Position (as_i32 (raw_p pos + vt + at2)))"
    unfolding predict_position_def t(1) Let_def ops Option.bind.bind_lunit
      vt_def [symmetric] at2_def [symmetric] sums ..
qed

lemma predict_velocity_eq:
  fixes acc
  assumes "dur \<le> 9000000"
  defines "dv \<equiv> trunc_div (raw_a acc * as_micros dur) 100000"
  shows "predict_velocity p vel acc dur = Some (Velocity (as_i32 (raw_v vel + dv)))"
    "\<bar>dv\<bar> \<le> 193273529"
proof -
  let ?x = "raw_a acc * as_micros dur"
  note t = as_i64_micros [OF assms(1)]
  have bound: "\<bar>?x\<bar> \<le> 2147483648 * 9000"
    using t by (intro abs_mult_le abs_sint_i32) simp
  then show small: "\<bar>dv\<bar> \<le> 193273529"
    unfolding dv_def by (intro trunc_div_bound) simp_all
  have "\<bar>raw_v vel + dv\<bar> \<le> 2147483648 + 193273529"
    using abs_sint_i32 small by (rule abs_add_le)
  with bound show "predict_velocity p vel acc dur = Some (Velocity (as_i32 (raw_v vel + dv)))"
    by (simp add: predict_velocity_def t(1) arith_i64_abs Let_def flip: dv_def)
qed

text \<open>
  Over the look-ahead of the drive loop (up to 9 ms; the default is 6 ms) the predicted
  position does not overflow for any velocity and acceleration, and is within two position
  units (0.2 micrometres) of \<open>p + v t + a t\<^sup>2 / 2\<close>, here multiplied by \<open>2 * 10\<^sup>1\<^sup>0\<close> with \<open>t\<close> in
  microseconds.
\<close>

theorem predict_position_accurate:
  assumes "\<bar>raw_p pos\<bar> \<le> 1073741824" and "dur \<le> 9000000"
  shows "\<exists>q. predict_position p pos vel acc dur = Some q \<and>
    \<bar>20000000000 * raw_p q -
      (20000000000 * raw_p pos + 200000 * (raw_v vel * as_micros dur) +
       raw_a acc * as_micros dur * as_micros dur)\<bar> < 40000000000"
proof -
  note eq = predict_position_eq [OF assms(2)]
  have "sint (as_i32 (raw_p pos + trunc_div (raw_v vel * as_micros dur * 10) 1000000
      + trunc_div (raw_a acc * as_micros dur * as_micros dur * 50) 1000000000000)) =
    raw_p pos + trunc_div (raw_v vel * as_micros dur * 10) 1000000
      + trunc_div (raw_a acc * as_micros dur * as_micros dur * 50) 1000000000000"
    using eq(2) [of vel] eq(3) [of acc] assms(1) by (intro sint_as_i32) linarith+
  note raw = this
  show ?thesis
    unfolding eq(1)
    by (intro exI, rule conjI [OF refl])
      (simp only: Position.sel raw, rule position_error; rule trunc_div_error; simp)
qed

theorem predict_position_accurate_witness:
  "\<exists>q. predict_position Debug (Position 1000000) (Velocity (- 2147483648))
      (Acceleration 2147483647) 6000000 = Some q \<and>
    \<bar>20000000000 * raw_p q -
      (20000000000 * raw_p (Position 1000000) +
       200000 * (raw_v (Velocity (- 2147483648)) * as_micros 6000000) +
       raw_a (Acceleration 2147483647) * as_micros 6000000 * as_micros 6000000)\<bar> < 40000000000"
  by (rule predict_position_accurate) simp_all

text \<open>
  The predicted velocity is within one velocity unit of \<open>v + a t\<close>, here multiplied by
  \<open>10\<^sup>5\<close>.
\<close>

theorem predict_velocity_accurate:
  assumes "\<bar>raw_v vel\<bar> \<le> 1073741824" and "dur \<le> 9000000"
  shows "\<exists>q. predict_velocity p vel acc dur = Some q \<and>
    \<bar>100000 * raw_v q - (100000 * raw_v vel + raw_a acc * as_micros dur)\<bar> < 100000"
proof -
  note eq = predict_velocity_eq [OF assms(2)]
  have "sint (as_i32 (raw_v vel + trunc_div (raw_a acc * as_micros dur) 100000)) =
      raw_v vel + trunc_div (raw_a acc * as_micros dur) 100000"
    using eq(2) [of acc] assms(1) by (intro sint_as_i32) linarith+
  note raw = this
  show ?thesis
    unfolding eq(1)
    by (intro exI, rule conjI [OF refl])
      (simp only: Velocity.sel raw, rule velocity_error; rule trunc_div_error; simp)
qed

theorem predict_velocity_accurate_witness:
  "\<exists>q. predict_velocity Debug (Velocity 500000) (Acceleration (- 1500000)) 6000000 = Some q \<and>
    \<bar>100000 * raw_v q -
      (100000 * raw_v (Velocity 500000) + raw_a (Acceleration (- 1500000)) * as_micros 6000000)\<bar>
    < 100000"
  by (rule predict_velocity_accurate) simp_all

end
