(* ===== verification/Drive.thy ===== *)
theory Drive
  imports Motion
begin

text \<open>
  The drive thread (\<open>src/drive.rs\<close>): the interface it shares with the core, one cycle of its
  loop, the computation of the next motion command, and the connection manager around it.

  The outside world is an argument of each step: what the socket does with a datagram, whether
  the core still listens, whether the command mutex is free.  A step returns \<open>None\<close> where the
  code panics.
\<close>

subsection \<open>The shared interface\<close>

record DriveCommands =
  dc_power_enabled :: bool
  dc_motion_enabled :: bool
  dc_commands :: "MotionCommand list"

definition DriveCommands_default :: DriveCommands where
  "DriveCommands_default =
     \<lparr>dc_power_enabled = False, dc_motion_enabled = False, dc_commands = []\<rparr>"

definition ACTION_RESET_INDEX :: u8 where "ACTION_RESET_INDEX = push_bit 0 1"

definition ACTION_ACK_ERROR :: u8 where "ACTION_ACK_ERROR = push_bit 1 1"

type_synonym DriveActions = u8 \<comment> \<open>the pending bits\<close>

definition DriveActions_send :: "u8 \<Rightarrow> DriveActions \<Rightarrow> DriveActions" where
  "DriveActions_send bits pending = pending OR bits"

definition DriveActions_take :: "DriveActions \<Rightarrow> u8 \<times> DriveActions" where
  "DriveActions_take pending = (pending, 0)"

record DriveInterface =
  di_commands :: DriveCommands
  di_actions :: DriveActions

definition DriveInterface_default :: DriveInterface where
  "DriveInterface_default = \<lparr>di_commands = DriveCommands_default, di_actions = 0\<rparr>"

record DriveFeedback =
  fb_drive_state :: DriveState
  fb_active_command_index :: nat
  fb_actual_position :: Position
  fb_demand_position :: Position
  fb_demand_velocity :: Velocity
  fb_demand_acceleration :: Acceleration
  fb_current_draw :: Current
  fb_warning_flags :: WarningFlags
  fb_error_code :: ErrorCode
  fb_drive_temperature :: DriveTemperature
  fb_motor_temperature :: MotorTemperature

definition DriveFeedback_default :: DriveFeedback where
  "DriveFeedback_default = \<lparr>fb_drive_state = Disconnected, fb_active_command_index = 0,
     fb_actual_position = Position 0, fb_demand_position = Position 0,
     fb_demand_velocity = Velocity 0, fb_demand_acceleration = Acceleration 0,
     fb_current_draw = Current 0, fb_warning_flags = 0, fb_error_code = NoError,
     fb_drive_temperature = DriveTemperature 0, fb_motor_temperature = MotorTemperature 0\<rparr>"

subsection \<open>The connection\<close>

record connection =
  c_interval :: duration
  c_overshoot_margin :: Position
  c_hard_deceleration_min :: Acceleration
  c_hard_deceleration_max :: Acceleration
  c_buffer :: "u8 list"
  c_last_rtt :: "duration option"
  c_control_flags :: ControlFlags
  c_next_motion_command :: "MciMotionCommand option"
  c_power_enabled :: bool
  c_motion_enabled :: bool
  c_active_command_index :: nat
  c_active_command_has_approached :: bool
  c_active_approach_direction :: "int option"
  c_input_commands :: "MotionCommand list"
  c_last_request :: Request
  c_last_response :: Response
  c_last_command_index :: nat
  c_last_state :: State

datatype drive_error =
    ConnectError \<comment> \<open>binding, connecting or configuring the socket, or reading its addresses\<close>
  | RequestError WriteError
  | SendError
  | RecvError
  | ResponseError ReadError
  | CoreChannelClosed

text \<open>What the socket does in one exchange: whether the send succeeds, the datagram that
  arrives (or a timeout), and how long it took.\<close>

record exchange =
  ex_send_ok :: bool
  ex_received :: "u8 list option"
  ex_elapsed :: duration

text \<open>The result is the datagram that left, if one did, and the outcome.  \<open>recv\<close> cuts a
  datagram that is longer than the buffer.  After an error the connection is dropped.\<close>

definition send_request ::
    "exchange \<Rightarrow> Request \<Rightarrow> connection \<Rightarrow> u8 list option \<times> (drive_error + Response \<times> connection)"
where
  "send_request ex request c =
     (let c = c\<lparr>c_last_rtt := None\<rparr> in
      case Request_to_wire request (c_buffer c) of
        Inl e \<Rightarrow> (None, Inl (RequestError e))
      | Inr (to_send, buffer) \<Rightarrow>
          let c = c\<lparr>c_buffer := buffer\<rparr>; datagram = take to_send (c_buffer c) in
          if \<not> ex_send_ok ex then (None, Inl SendError)
          else
            (Some datagram,
             case ex_received ex of
               None \<Rightarrow> Inl RecvError
             | Some bytes \<Rightarrow>
                 let received = min (length bytes) (length (c_buffer c));
                     c = c\<lparr>c_buffer := take received bytes @ drop received (c_buffer c)\<rparr> in
                 case Response_from_wire (take received (c_buffer c)) of
                   Inl e \<Rightarrow> Inl (ResponseError e)
                 | Inr response \<Rightarrow> Inr (response, c\<lparr>c_last_rtt := Some (ex_elapsed ex)\<rparr>)))"

record drive_config =
  cfg_interval :: duration
  cfg_overshoot_margin :: Position
  cfg_hard_deceleration_min :: Acceleration
  cfg_hard_deceleration_max :: Acceleration

definition Connection_initial :: "drive_config \<Rightarrow> connection" where
  "Connection_initial cfg =
     \<lparr>c_interval = cfg_interval cfg,
      c_overshoot_margin = cfg_overshoot_margin cfg,
      c_hard_deceleration_min = cfg_hard_deceleration_min cfg,
      c_hard_deceleration_max = cfg_hard_deceleration_max cfg,
      c_buffer = replicate BUFFER_SIZE 0,
      c_last_rtt = None,
      c_control_flags = flags_empty,
      c_next_motion_command = None,
      c_power_enabled = False,
      c_motion_enabled = False,
      c_active_command_index = 0,
      c_active_command_has_approached = False,
      c_active_approach_direction = None,
      c_input_commands = [],
      c_last_request = Request_default,
      c_last_response = Response_default,
      c_last_command_index = 0,
      c_last_state = NotReadyToSwitchOn\<rparr>"

text \<open>\<open>socket_ok\<close> and \<open>addresses_ok\<close>: whether the socket calls before and after the probe
  succeed.  The response to the probe is not kept.\<close>

definition Connection_new ::
    "drive_config \<Rightarrow> bool \<Rightarrow> exchange \<Rightarrow> bool \<Rightarrow> u8 list option \<times> (drive_error + connection)" where
  "Connection_new cfg socket_ok ex addresses_ok =
     (if \<not> socket_ok then (None, Inl ConnectError)
      else
        (case send_request ex Request_default (Connection_initial cfg) of
           (sent, Inl e) \<Rightarrow> (sent, Inl e)
         | (sent, Inr (_, c)) \<Rightarrow>
             (sent, if addresses_ok then Inr c else Inl ConnectError)))"

subsection \<open>Arrival\<close>

definition moving_toward :: "int option \<Rightarrow> int \<Rightarrow> int \<Rightarrow> bool" where
  "moving_toward approach_direction displacement v =
     (case approach_direction of
        Some dir \<Rightarrow>
          if dir \<noteq> 0 then (dir > 0 \<and> v > 0) \<or> (dir < 0 \<and> v < 0)
          else (displacement > 0 \<and> v > 0) \<or> (displacement < 0 \<and> v < 0)
      | None \<Rightarrow> (displacement > 0 \<and> v > 0) \<or> (displacement < 0 \<and> v < 0))"

definition can_recover_with_hard_decel :: "profile \<Rightarrow> int \<Rightarrow> int \<Rightarrow> connection \<Rightarrow> bool option" where
  "can_recover_with_hard_decel p dist v c = do {
     stopping_budget \<leftarrow> arith_u64 p (dist + \<bar>sint (position_0 (c_overshoot_margin c))\<bar>);
     let d_max = as_u64 (sint (acceleration_0 (c_hard_deceleration_max c)));
     if stopping_budget = 0 then Some True
     else if d_max = 0 then Some False
     else do {
       vv \<leftarrow> arith_i64 p (v * v);
       let v_sq = as_u64 vv;
       let capacity = min (min (2 * d_max) 18446744073709551615 * stopping_budget)
                          18446744073709551615;
       Some (v_sq \<le> capacity)
     }
   }"

definition predicted_crossing ::
    "profile \<Rightarrow> Position \<Rightarrow> Position \<Rightarrow> Velocity \<Rightarrow> Acceleration \<Rightarrow> bool \<Rightarrow> connection \<Rightarrow> bool option"
where
  "predicted_crossing p current_target demand_position demand_velocity demand_acceleration
       toward c = do {
     let displacement = sint (position_0 current_target) - sint (position_0 demand_position);
     let dist = \<bar>displacement\<bar>;
     let v = sint (velocity_0 demand_velocity);
     let handoff_horizon = duration_saturating_mul (c_interval c) 3;
     next_position \<leftarrow>
       predict_position p demand_position demand_velocity demand_acceleration handoff_horizon;
     let distance_after = sint (position_0 current_target) - sint (position_0 next_position);
     let crosses = (displacement > 0 \<and> distance_after \<le> 0)
                   \<or> (displacement < 0 \<and> distance_after \<ge> 0);
     let a = sint (acceleration_0 demand_acceleration);
     next_velocity \<leftarrow> predict_velocity p demand_velocity demand_acceleration handoff_horizon;
     let next_v = sint (velocity_0 next_velocity);
     let decelerating_toward = toward \<and> ((v > 0 \<and> a < 0) \<or> (v < 0 \<and> a > 0));
     let will_stop_or_reverse =
       decelerating_toward \<and> ((v > 0 \<and> next_v \<le> 0) \<or> (v < 0 \<and> next_v \<ge> 0));
     recoverable \<leftarrow> can_recover_with_hard_decel p dist v c;
     Some ((crosses \<and> recoverable)
           \<or> (c_active_command_has_approached c \<and> will_stop_or_reverse))
   }"

text \<open>Whether the current target is reached, and the connection with the approach recorded.\<close>

definition target_reached ::
    "profile \<Rightarrow> Position \<Rightarrow> Position \<Rightarrow> Velocity \<Rightarrow> Acceleration \<Rightarrow> connection
     \<Rightarrow> (bool \<times> connection) option" where
  "target_reached p current_target demand_position demand_velocity demand_acceleration c = do {
     let displacement = sint (position_0 current_target) - sint (position_0 demand_position);
     let dist = \<bar>displacement\<bar>;
     let v = sint (velocity_0 demand_velocity);
     let toward = moving_toward (c_active_approach_direction c) displacement v;
     let c = (if toward then c\<lparr>c_active_command_has_approached := True\<rparr> else c);
     crossing \<leftarrow> predicted_crossing p current_target demand_position demand_velocity
                   demand_acceleration toward c;
     Some (if dist = 0 then True
           else if c_active_command_has_approached c \<and> (v = 0 \<or> \<not> toward) then True
           else crossing, c)
   }"

subsection \<open>The next request\<close>

definition update_control_flags :: "State \<Rightarrow> connection \<Rightarrow> connection" where
  "update_control_flags state c =
     (case state of
        NotReadyToSwitchOn \<Rightarrow> c\<lparr>c_control_flags := flags_empty\<rparr>
      | ReadyToSwitchOn \<Rightarrow>
          (if c_power_enabled c
           then c\<lparr>c_control_flags := ControlFlags_const ControlFlags_SWITCH_ON\<rparr> else c)
      | OperationEnabled _ _ _ _ homed \<Rightarrow>
          (if \<not> homed
           then c\<lparr>c_control_flags :=
             flags_insert (c_control_flags c) (ControlFlags_const ControlFlags_HOME)\<rparr>
           else c)
      | Homing finished \<Rightarrow>
          (if finished
           then c\<lparr>c_control_flags :=
             flags_remove (c_control_flags c) (ControlFlags_const ControlFlags_HOME)\<rparr>
           else c)
      | _ \<Rightarrow> c)"

text \<open>Advancing to the next command when the target is reached; the waypoint to clamp against
  and the direction it is approached from.\<close>

definition advance_command ::
    "profile \<Rightarrow> bool \<Rightarrow> Position \<Rightarrow> int option \<Rightarrow> connection
     \<Rightarrow> ((Position \<times> int option) \<times> connection) option" where
  "advance_command p reached current_target approach_direction c =
     (if reached then
        let len = length (c_input_commands c);
            prev_index = (c_active_command_index c + len - 1) mod len;
            prev_target = position (c_input_commands c ! prev_index);
            c = c\<lparr>c_active_command_index := (c_active_command_index c + 1) mod len,
                  c_active_command_has_approached := False\<rparr>;
            next_command = c_input_commands c ! c_active_command_index c in
        do {
          d \<leftarrow> arith_i32 p
            (sint (position_0 (position next_command)) - sint (position_0 current_target));
          let c = c\<lparr>c_active_approach_direction := normalize_direction (sgn d)\<rparr>;
          d' \<leftarrow> arith_i32 p (sint (position_0 current_target) - sint (position_0 prev_target));
          Some ((current_target, Some (sgn d')), c)
        }
      else Some ((current_target, approach_direction), c))"

definition compute_motion_command ::
    "profile \<Rightarrow> u8 \<Rightarrow> Position \<Rightarrow> Velocity \<Rightarrow> Acceleration \<Rightarrow> connection \<Rightarrow> connection option" where
  "compute_motion_command p motion_command_count demand_position demand_velocity
       demand_acceleration c =
     (let next_command_count = (motion_command_count + 1) AND 0xF in
      if c_input_commands c = [] then
        Some (c\<lparr>c_next_motion_command := Some \<lparr>mci_count = next_command_count,
          mci_command = VaiStop (c_hard_deceleration_min c)\<rparr>\<rparr>)
      else
        let c = c\<lparr>c_active_command_index :=
                  c_active_command_index c mod length (c_input_commands c)\<rparr>;
            current_target = position (c_input_commands c ! c_active_command_index c);
            approach_direction = c_active_approach_direction c in
        do {
          (reached, c) \<leftarrow> target_reached p current_target demand_position demand_velocity
                            demand_acceleration c;
          ((clamp_target, clamp_approach_direction), c) \<leftarrow>
            advance_command p reached current_target approach_direction c;
          let input_command = c_input_commands c ! c_active_command_index c;
          (clamp_target, clamp_approach_direction) \<leftarrow>
            effective_clamp_target_after_handoff p (c_input_commands c)
              (c_active_command_index c) (c_active_command_has_approached c)
              (c_active_approach_direction c) clamp_target clamp_approach_direction;
          if \<not> c_motion_enabled c then do {
            decel \<leftarrow> clamp_deceleration p demand_position demand_velocity clamp_target
              (c_hard_deceleration_min c) clamp_approach_direction (c_overshoot_margin c)
              (c_hard_deceleration_min c) (c_hard_deceleration_max c);
            Some (c\<lparr>c_next_motion_command := Some \<lparr>mci_count = next_command_count,
              mci_command = VaiStop decel\<rparr>\<rparr>)
          } else do {
            decel \<leftarrow> clamp_deceleration p demand_position demand_velocity clamp_target
              (deceleration input_command) clamp_approach_direction (c_overshoot_margin c)
              (c_hard_deceleration_min c) (c_hard_deceleration_max c);
            Some (c\<lparr>c_next_motion_command := Some \<lparr>mci_count = next_command_count,
              mci_command = VaiGoToPos (position input_command) (velocity input_command)
                (acceleration input_command) decel\<rparr>\<rparr>)
          }
        })"

definition compute_next_request :: "profile \<Rightarrow> connection \<Rightarrow> connection option" where
  "compute_next_request p c =
     (case Response_state (c_last_response c) of
        None \<Rightarrow> Some (c\<lparr>c_control_flags := flags_empty\<rparr>)
      | Some state \<Rightarrow>
          let c = update_control_flags state c in
          if \<not> c_power_enabled c then
            Some (c\<lparr>c_control_flags :=
              flags_remove (c_control_flags c) (ControlFlags_const ControlFlags_SWITCH_ON)\<rparr>)
          else
            (case (state, rsp_demand_position (c_last_response c),
                   rsp_monitoring_channel (c_last_response c)) of
               (OperationEnabled motion_command_count _ _ _ True, Some demand_position,
                Some (demand_velocity, demand_acceleration, _, _)) \<Rightarrow>
                 compute_motion_command p motion_command_count demand_position
                   (Velocity demand_velocity) (Acceleration demand_acceleration) c
             | _ \<Rightarrow> Some c))"

subsection \<open>One cycle\<close>

definition drive_state_of :: "State \<Rightarrow> bool \<Rightarrow> DriveState" where
  "drive_state_of state motion_enabled =
     (case state of
        ReadyToSwitchOn \<Rightarrow> Off
      | OperationEnabled _ _ _ _ True \<Rightarrow> if motion_enabled then Moving else Paused
      | State_Error _ \<Rightarrow> Errored
      | _ \<Rightarrow> Preparing)"

definition feedback_of :: "connection \<Rightarrow> (State \<times> DriveFeedback) option" where
  "feedback_of c =
     (let r = c_last_response c in
      case (Response_state r, rsp_actual_position r, rsp_demand_position r, rsp_current r,
            rsp_warning_flags r, Response_error_code r, rsp_monitoring_channel r) of
        (Some state, Some actual_position, Some demand_position, Some current,
         Some warning_flags, Some error_code,
         Some (demand_velocity, demand_acceleration, drive_temperature, motor_temperature)) \<Rightarrow>
          Some (state,
            \<lparr>fb_drive_state = drive_state_of state (c_motion_enabled c),
             fb_active_command_index = c_active_command_index c,
             fb_actual_position = actual_position,
             fb_demand_position = demand_position,
             fb_demand_velocity = Velocity demand_velocity,
             fb_demand_acceleration = Acceleration demand_acceleration,
             fb_current_draw = current,
             fb_warning_flags = warning_flags,
             fb_error_code = error_code,
             fb_drive_temperature = DriveTemperature (ucast drive_temperature),
             fb_motor_temperature = MotorTemperature (ucast motor_temperature)\<rparr>)
      | _ \<Rightarrow> None)"

definition apply_actions :: "u8 \<Rightarrow> connection \<Rightarrow> connection" where
  "apply_actions actions c =
     (let c = (if actions AND ACTION_RESET_INDEX \<noteq> 0
               then c\<lparr>c_active_command_index := 0, c_active_command_has_approached := False,
                      c_active_approach_direction := None\<rparr>
               else c) in
      if actions AND ACTION_ACK_ERROR \<noteq> 0
      then c\<lparr>c_control_flags := flags_insert (c_control_flags c)
             (ControlFlags_const ControlFlags_ERROR_ACKNOWLEDGE)\<rparr>
      else c)"

definition read_commands :: "DriveCommands \<Rightarrow> connection \<Rightarrow> connection" where
  "read_commands shared c =
     c\<lparr>c_power_enabled := dc_power_enabled shared,
       c_motion_enabled := dc_motion_enabled shared,
       c_input_commands := dc_commands shared\<rparr>"

record cycle_env =
  env_exchange :: exchange
  env_core_alive :: bool
  env_lock_free :: bool

text \<open>What one step of the drive thread did: the datagram that left and the feedback that
  reached the core.\<close>

record drive_effects =
  ef_sent :: "u8 list option"
  ef_feedback :: "DriveFeedback option"

text \<open>The exchange with the drive, the feedback to the core, and the action bits that are taken.\<close>

definition loop_begin ::
    "cycle_env \<Rightarrow> DriveActions \<Rightarrow> connection
     \<Rightarrow> drive_effects \<times> DriveActions \<times> (drive_error + connection)" where
  "loop_begin env pending c =
     (let request = \<lparr>req_control_flags = Some (c_control_flags c),
                     req_motion_command = c_next_motion_command c,
                     req_realtime_configuration = None,
                     req_response_flags = ResponseFlags_all\<rparr>;
          c = c\<lparr>c_next_motion_command := None\<rparr> in
      case send_request (env_exchange env) request c of
        (sent, Inl e) \<Rightarrow> (\<lparr>ef_sent = sent, ef_feedback = None\<rparr>, pending, Inl e)
      | (sent, Inr (response, c)) \<Rightarrow>
          let c = c\<lparr>c_last_response := response, c_last_request := request,
                    c_last_command_index := c_active_command_index c\<rparr>;
              feedback = feedback_of c;
              c = (case feedback of None \<Rightarrow> c | Some (state, _) \<Rightarrow> c\<lparr>c_last_state := state\<rparr>) in
          if feedback \<noteq> None \<and> \<not> env_core_alive env
          then (\<lparr>ef_sent = sent, ef_feedback = None\<rparr>, pending, Inl CoreChannelClosed)
          else
            let (actions, pending) = DriveActions_take pending in
            (\<lparr>ef_sent = sent, ef_feedback = map_option snd feedback\<rparr>, pending,
             Inr (apply_actions actions c)))"

text \<open>The commands, if the lock is free, and the next request.\<close>

definition loop_end :: "profile \<Rightarrow> bool \<Rightarrow> DriveCommands \<Rightarrow> connection \<Rightarrow> connection option" where
  "loop_end p lock_free shared c =
     compute_next_request p (if lock_free then read_commands shared c else c)"

definition loop_tick ::
    "profile \<Rightarrow> cycle_env \<Rightarrow> DriveInterface \<Rightarrow> connection
     \<Rightarrow> (drive_effects \<times> DriveInterface \<times> (drive_error + connection)) option" where
  "loop_tick p env iface c =
     (case loop_begin env (di_actions iface) c of
        (ef, pending, Inl e) \<Rightarrow> Some (ef, iface\<lparr>di_actions := pending\<rparr>, Inl e)
      | (ef, pending, Inr c) \<Rightarrow> do {
          c \<leftarrow> loop_end p (env_lock_free env) (di_commands iface) c;
          Some (ef, iface\<lparr>di_actions := pending\<rparr>, Inr c)
        })"

subsection \<open>The connection manager\<close>

record manager =
  mgr_retry_time :: duration
  mgr_connection :: "connection option"

definition manager_initial :: manager where
  "manager_initial = \<lparr>mgr_retry_time = 1000000000, mgr_connection = None\<rparr>"

definition next_retry_time :: "duration \<Rightarrow> duration option" where
  "next_retry_time d = (if d * 10 \<le> duration_max then Some (min (d * 10) 30000000000) else None)"

record manager_env =
  me_socket_ok :: bool
  me_probe :: exchange
  me_addresses_ok :: bool
  me_core_alive :: bool
  me_cycle :: cycle_env

text \<open>One connection attempt, or one cycle of an established connection.  The feedback of an
  attempt is the reset, sent before connecting; its delivery failure is ignored.\<close>

definition manager_step ::
    "profile \<Rightarrow> drive_config \<Rightarrow> manager_env \<Rightarrow> DriveInterface \<Rightarrow> manager
     \<Rightarrow> (drive_effects \<times> DriveInterface \<times> manager) option" where
  "manager_step p cfg env iface m =
     (case mgr_connection m of
        None \<Rightarrow>
          (let feedback = (if me_core_alive env then Some DriveFeedback_default else None) in
           case Connection_new cfg (me_socket_ok env) (me_probe env) (me_addresses_ok env) of
             (sent, Inr c) \<Rightarrow>
               Some (\<lparr>ef_sent = sent, ef_feedback = feedback\<rparr>, iface, m\<lparr>mgr_connection := Some c\<rparr>)
           | (sent, Inl _) \<Rightarrow> do {
               retry_time \<leftarrow> next_retry_time (mgr_retry_time m);
               Some (\<lparr>ef_sent = sent, ef_feedback = feedback\<rparr>, iface,
                     m\<lparr>mgr_retry_time := retry_time\<rparr>)
             })
      | Some c \<Rightarrow> do {
          (effects, iface, result) \<leftarrow> loop_tick p (me_cycle env) iface c;
          Some (effects, iface,
            (case result of Inr c \<Rightarrow> m\<lparr>mgr_connection := Some c\<rparr>
             | Inl _ \<Rightarrow> m\<lparr>mgr_connection := None\<rparr>))
        })"

end
