(* ===== verification/DriveLoop.thy ===== *)
theory DriveLoop
  imports Drive
begin

text \<open>
  What the drive thread does: what a cycle stages and sends, that nothing panics, that a responsive
  drive keeps the loop going, and the interleavings of the action bits.
\<close>

subsection \<open>What the motion computation changes\<close>

text \<open>Everything but the progress through the commands and the staged motion command.\<close>

definition keeps :: "connection \<Rightarrow> connection \<Rightarrow> bool" where
  "keeps c c' \<longleftrightarrow>
     c_interval c' = c_interval c \<and> c_overshoot_margin c' = c_overshoot_margin c \<and>
     c_hard_deceleration_min c' = c_hard_deceleration_min c \<and>
     c_hard_deceleration_max c' = c_hard_deceleration_max c \<and> c_buffer c' = c_buffer c \<and>
     c_last_rtt c' = c_last_rtt c \<and> c_control_flags c' = c_control_flags c \<and>
     c_power_enabled c' = c_power_enabled c \<and> c_motion_enabled c' = c_motion_enabled c \<and>
     c_input_commands c' = c_input_commands c \<and> c_last_request c' = c_last_request c \<and>
     c_last_response c' = c_last_response c \<and> c_last_command_index c' = c_last_command_index c \<and>
     c_last_state c' = c_last_state c"

lemma keeps_refl [simp, intro]: "keeps c c"
  by (simp add: keeps_def)

lemma keeps_trans [trans]: "keeps a b \<Longrightarrow> keeps b c \<Longrightarrow> keeps a c"
  by (simp add: keeps_def)

lemma target_reached_keeps:
  assumes "target_reached p target pos vel acc c = Some (reached, c')"
  shows "keeps c c'" "c_active_command_index c' = c_active_command_index c"
    "c_active_approach_direction c' = c_active_approach_direction c"
  using assms
  by (auto simp: target_reached_def Let_def keeps_def split: Option.bind_splits if_splits)

lemma advance_command_keeps:
  assumes "advance_command p reached target dir c = Some (clamp, c')"
  shows "keeps c c'"
    "c_active_command_index c' =
       (if reached then (c_active_command_index c + 1) mod length (c_input_commands c)
        else c_active_command_index c)"
  using assms
  by (auto simp: advance_command_def Let_def keeps_def split: Option.bind_splits if_splits)

lemma advance_command_target:
  "advance_command p reached target dir c = Some (clamp, c') \<Longrightarrow> fst clamp = target"
  by (auto simp: advance_command_def Let_def split: Option.bind_splits if_splits)

lemma effective_clamp_target_from:
  assumes "effective_clamp_target_after_handoff p cmds i b dir target d = Some (target', d')"
  shows "target' = target \<or> target' \<in> position ` set cmds"
proof -
  have "position (cmds ! ((n + length cmds - 1) mod length cmds)) \<in> position ` set cmds"
    if "2 \<le> length cmds" for n
    using that by (intro imageI nth_mem mod_less_divisor) (cases cmds; simp)
  with assms show ?thesis
    by (auto simp: effective_clamp_target_after_handoff_def Let_def
        split: Option.bind_splits if_splits)
qed

text \<open>The command for the motor: what is asked for, and the deceleration that was clamped.\<close>

definition asked_deceleration :: "connection \<Rightarrow> Acceleration" where
  "asked_deceleration c =
     (if c_motion_enabled c
      then deceleration (c_input_commands c ! c_active_command_index c)
      else c_hard_deceleration_min c)"

definition motor_command :: "connection \<Rightarrow> Acceleration \<Rightarrow> Command" where
  "motor_command c d =
     (if c_motion_enabled c
      then let cmd = c_input_commands c ! c_active_command_index c in
        VaiGoToPos (position cmd) (velocity cmd) (acceleration cmd) d
      else VaiStop d)"

definition commands_motor :: "profile \<Rightarrow> u8 \<Rightarrow> Position \<Rightarrow> Velocity \<Rightarrow> connection \<Rightarrow> bool" where
  "commands_motor p n pos vel c \<longleftrightarrow>
     c_active_command_index c < length (c_input_commands c) \<and>
     (\<exists>d target dir. c_next_motion_command c =
        Some \<lparr>mci_count = (n + 1) AND 0xF, mci_command = motor_command c d\<rparr> \<and>
      target \<in> position ` set (c_input_commands c) \<and>
      clamp_deceleration p pos vel target (asked_deceleration c) dir
        (c_overshoot_margin c) (c_hard_deceleration_min c) (c_hard_deceleration_max c) = Some d)"

lemma compute_motion_command_empty:
  assumes "compute_motion_command p n pos vel acc c = Some c'" and "c_input_commands c = []"
  shows "c' = c\<lparr>c_next_motion_command := Some \<lparr>mci_count = (n + 1) AND 0xF,
    mci_command = VaiStop (c_hard_deceleration_min c)\<rparr>\<rparr>"
  using assms by (simp add: compute_motion_command_def)

lemma compute_motion_command_some:
  assumes "compute_motion_command p n pos vel acc c = Some c'" and ne: "c_input_commands c \<noteq> []"
  shows "keeps c c' \<and> commands_motor p n pos vel c'"
proof -
  let ?c0 = "c\<lparr>c_active_command_index := c_active_command_index c mod length (c_input_commands c)\<rparr>"
  let ?target = "position (c_input_commands c ! c_active_command_index ?c0)"
  from assms obtain reached c1 t1 d1 c2 t2 d2 d where
    r: "target_reached p ?target pos vel acc ?c0 = Some (reached, c1)" and
    adv: "advance_command p reached ?target (c_active_approach_direction c) c1 =
      Some ((t1, d1), c2)" and
    eff: "effective_clamp_target_after_handoff p (c_input_commands c2)
      (c_active_command_index c2) (c_active_command_has_approached c2)
      (c_active_approach_direction c2) t1 d1 = Some (t2, d2)" and
    cl: "clamp_deceleration p pos vel t2 (asked_deceleration c2) d2 (c_overshoot_margin c2)
      (c_hard_deceleration_min c2) (c_hard_deceleration_max c2) = Some d" and
    c': "c' = c2\<lparr>c_next_motion_command :=
      Some \<lparr>mci_count = (n + 1) AND 0xF, mci_command = motor_command c2 d\<rparr>\<rparr>"
    by (auto simp: compute_motion_command_def Let_def asked_deceleration_def motor_command_def
        split: Option.bind_splits if_splits prod.splits)
  note k1 = target_reached_keeps [OF r] and k2 = advance_command_keeps [OF adv]
  have "keeps c ?c0"
    by (simp add: keeps_def)
  then have k: "keeps c c2"
    using k1(1) k2(1) keeps_trans by blast
  then have cmds: "c_input_commands c2 = c_input_commands c" "c_input_commands c1 = c_input_commands c"
    using k1(1) by (simp_all add: keeps_def)
  have idx: "c_active_command_index c2 < length (c_input_commands c)"
    using ne k1(2) k2(2) cmds by simp
  have "?target \<in> position ` set (c_input_commands c)"
    using ne by simp
  then have t2: "t2 \<in> position ` set (c_input_commands c)"
    using effective_clamp_target_from [OF eff] advance_command_target [OF adv] cmds by auto
  have same: "motor_command c' = motor_command c2" "asked_deceleration c' = asked_deceleration c2"
    by (auto simp: c' motor_command_def asked_deceleration_def)
  have "commands_motor p n pos vel c'"
    unfolding commands_motor_def same
    using idx t2 cl by (intro conjI exI [of _ d] exI [of _ t2] exI [of _ d2]) (simp_all add: c' cmds)
  with k show ?thesis
    by (simp add: c' keeps_def)
qed

subsection \<open>What a cycle stages\<close>

lemma update_control_flags_only:
  "update_control_flags state c =
   c\<lparr>c_control_flags := c_control_flags (update_control_flags state c)\<rparr>"
  by (simp add: update_control_flags_def split: State.split)

lemma not_contains_removed: "\<not> flags_contains (flags_remove f (2 ^ n)) (2 ^ n)" if "n < 16"
proof
  assume "flags_contains (flags_remove f (2 ^ n)) (2 ^ n)"
  then have "bit (flags_remove f (2 ^ n) AND 2 ^ n) n = bit (2 ^ n :: u16) n"
    by (simp add: flags_contains_def)
  with that show False
    by (simp add: flags_remove_def bit_simps)
qed

lemma not_contains_empty: "\<not> flags_contains flags_empty 1"
  by (simp add: flags_contains_def flags_empty_def)

text \<open>A motion command is only ever staged for a powered, homed drive that accepts commands.\<close>

definition staged_ok :: "connection \<Rightarrow> bool" where
  "staged_ok c \<longleftrightarrow>
     (case c_next_motion_command c of
        None \<Rightarrow> True
      | Some m \<Rightarrow> c_power_enabled c \<and>
          (\<exists>n eh active inpos. Response_state (c_last_response c) =
              Some (OperationEnabled n eh active inpos True) \<and> mci_count m = (n + 1) AND 0xF) \<and>
          (if c_input_commands c = [] then mci_command m = VaiStop (c_hard_deceleration_min c)
           else c_active_command_index c < length (c_input_commands c) \<and>
             (\<exists>d. mci_command m = motor_command c d))) \<and>
     (\<not> c_power_enabled c \<longrightarrow>
        c_next_motion_command c = None \<and>
        \<not> flags_contains (c_control_flags c) (ControlFlags_const ControlFlags_SWITCH_ON))"

lemma compute_next_request_cases:
  assumes "compute_next_request p c = Some c'"
  obtains (flags) f where "c' = c\<lparr>c_control_flags := f\<rparr>"
      and "\<not> c_power_enabled c \<Longrightarrow> \<not> flags_contains f 1"
    | (motion) f n eh active inpos pos vel acc where "c_power_enabled c"
      and "Response_state (c_last_response c) = Some (OperationEnabled n eh active inpos True)"
      and "rsp_demand_position (c_last_response c) = Some pos"
      and "compute_motion_command p n pos vel acc (c\<lparr>c_control_flags := f\<rparr>) = Some c'"
proof (cases "Response_state (c_last_response c)")
  case None
  with assms show thesis
    by (intro flags [of flags_empty]) (simp_all add: compute_next_request_def not_contains_empty)
next
  case (Some state)
  obtain f where f: "update_control_flags state c = c\<lparr>c_control_flags := f\<rparr>"
    using update_control_flags_only by blast
  show thesis
  proof (cases "c_power_enabled c")
    case False
    with Some f assms show thesis
      using not_contains_removed [of 0]
      by (intro flags [of "flags_remove f 1"]) (auto simp: compute_next_request_def Let_def)
  next
    case power: True
    show thesis
    proof (cases "c' = c\<lparr>c_control_flags := f\<rparr>")
      case True
      with power show thesis by (intro flags [of f]) simp_all
    next
      case False
      with Some f assms power show thesis
        by (auto simp: compute_next_request_def Let_def intro: motion
            split: State.splits option.splits bool.splits)
    qed
  qed
qed

lemma compute_next_request_staged:
  assumes "compute_next_request p c = Some c'" and "c_next_motion_command c = None"
  shows "staged_ok c'"
  using assms(1)
proof (cases rule: compute_next_request_cases)
  case (flags f)
  with assms(2) show ?thesis by (simp add: staged_ok_def)
next
  case (motion f n eh active inpos pos vel acc)
  let ?c = "c\<lparr>c_control_flags := f\<rparr>"
  show ?thesis
  proof (cases "c_input_commands c = []")
    case True
    with compute_motion_command_empty [OF motion(4)] motion show ?thesis
      by (simp add: staged_ok_def)
  next
    case False
    then have "keeps ?c c' \<and> commands_motor p n pos vel c'"
      using compute_motion_command_some [OF motion(4)] by simp
    with motion False show ?thesis
      by (auto simp: staged_ok_def commands_motor_def keeps_def)
  qed
qed

lemma feedback_state:
  "feedback_of c = Some (state, fb) \<Longrightarrow> Response_state (c_last_response c) = Some state"
  by (auto simp: feedback_of_def Let_def split: option.splits prod.splits)

lemma send_request_buffer:
  assumes "length (c_buffer c) = BUFFER_SIZE"
  shows "\<exists>dg. drive_request dg = Some (on_the_wire req) \<and>
    (case send_request ex req c of (sent, r) \<Rightarrow>
       sent = (if ex_send_ok ex then Some dg else None) \<and>
       (\<forall>rsp c'. r = Inr (rsp, c') \<longrightarrow> ex_send_ok ex \<and> length (c_buffer c') = BUFFER_SIZE \<and>
          c' = c\<lparr>c_buffer := c_buffer c', c_last_rtt := c_last_rtt c'\<rparr>))"
proof -
  have small: "length (request_bytes req) \<le> length (c_buffer c)"
    using request_bytes_small [of req] assms by (simp add: BUFFER_SIZE_def)
  then have wire: "Request_to_wire req (c_buffer c) = Inr (length (request_bytes req),
      request_bytes req @ drop (length (request_bytes req)) (c_buffer c))"
    using Request_to_wire_cases [of req "c_buffer c"] by auto
  show ?thesis
    using small assms
    by (intro exI [of _ "request_bytes req"])
      (auto simp: send_request_def wire drive_request_bytes Let_def
        split: option.splits sum.splits)
qed

text \<open>A powered and homed drive that accepts commands is given one.\<close>

lemma compute_next_request_moves:
  assumes "compute_next_request p c = Some c'" "c_power_enabled c" "c_motion_enabled c"
    and "Response_state (c_last_response c) = Some (OperationEnabled n eh active inpos True)"
    and "rsp_demand_position (c_last_response c) = Some pos"
    and "rsp_monitoring_channel (c_last_response c) = Some (vel, rest)" "c_input_commands c \<noteq> []"
  shows "\<exists>cmd d target dir. cmd \<in> set (c_input_commands c) \<and>
    c_next_motion_command c' = Some \<lparr>mci_count = (n + 1) AND 0xF,
      mci_command = VaiGoToPos (position cmd) (velocity cmd) (acceleration cmd) d\<rparr> \<and>
    target \<in> position ` set (c_input_commands c) \<and>
    clamp_deceleration p pos (Velocity vel) target (deceleration cmd) dir
      (c_overshoot_margin c) (c_hard_deceleration_min c) (c_hard_deceleration_max c) = Some d"
proof -
  obtain f where f: "update_control_flags (OperationEnabled n eh active inpos True) c = c\<lparr>c_control_flags := f\<rparr>"
    using update_control_flags_only by blast
  obtain acc x y where rest: "rest = (acc, x, y)"
    by (cases rest)
  have "compute_motion_command p n pos (Velocity vel) (Acceleration acc) (c\<lparr>c_control_flags := f\<rparr>) = Some c'"
    using assms(1,2,4-6) f by (simp add: compute_next_request_def rest Let_def)
  from compute_motion_command_some [OF this] assms(7)
  have kept: "keeps (c\<lparr>c_control_flags := f\<rparr>) c'" and motor: "commands_motor p n pos (Velocity vel) c'"
    by simp_all
  from motor obtain d target dir where "c_active_command_index c' < length (c_input_commands c')"
    "c_next_motion_command c' = Some \<lparr>mci_count = (n + 1) AND 0xF, mci_command = motor_command c' d\<rparr>"
    "target \<in> position ` set (c_input_commands c')"
    "clamp_deceleration p pos (Velocity vel) target (asked_deceleration c') dir
      (c_overshoot_margin c') (c_hard_deceleration_min c') (c_hard_deceleration_max c') = Some d"
    by (auto simp: commands_motor_def)
  with kept assms(3) show ?thesis
    by (intro exI [of _ "c_input_commands c ! c_active_command_index c'"] exI [of _ d]
        exI [of _ target] exI [of _ dir])
      (simp add: keeps_def motor_command_def asked_deceleration_def Let_def)
qed

subsection \<open>One cycle, from outside\<close>

definition request_of :: "connection \<Rightarrow> Request" where
  "request_of c = \<lparr>req_control_flags = Some (c_control_flags c),
     req_motion_command = c_next_motion_command c, req_realtime_configuration = None,
     req_response_flags = ResponseFlags_all\<rparr>"

lemma on_the_wire_request_of:
  "req_control_flags (on_the_wire (request_of c)) = Some (c_control_flags c)"
  "req_motion_command (on_the_wire (request_of c)) =
     map_option (\<lambda>mc. mc\<lparr>mci_count := mci_count mc AND 0xF\<rparr>) (c_next_motion_command c)"
  by (simp_all add: on_the_wire_def request_of_def)

lemma loop_tick_sent:
  assumes "loop_tick p env iface c = Some (ef, iface', r)" and "length (c_buffer c) = BUFFER_SIZE"
    and "ef_sent ef = Some dg"
  shows "drive_request dg = Some (on_the_wire (request_of c))"
proof -
  let ?c = "c\<lparr>c_next_motion_command := None\<rparr>"
  obtain r where "send_request (env_exchange env) (request_of c) ?c = (Some dg, r)"
    using assms by (auto simp: loop_tick_def loop_begin_def loop_end_def request_of_def [symmetric] Let_def
        split: prod.splits sum.splits if_splits Option.bind_splits)
  moreover have "length (c_buffer ?c) = BUFFER_SIZE"
    using assms by simp
  ultimately show ?thesis
    using send_request_buffer [of ?c "request_of c" "env_exchange env"]
    by (auto split: if_splits)
qed

text \<open>An exchange in which the drive answers with a response that can be parsed.\<close>

definition answered :: "exchange \<Rightarrow> Response \<Rightarrow> bool" where
  "answered ex rsp \<longleftrightarrow> ex_send_ok ex \<and>
     (case ex_received ex of None \<Rightarrow> False
      | Some bytes \<Rightarrow> length bytes \<le> BUFFER_SIZE \<and> Response_from_wire bytes = Inr rsp)"

lemma send_request_answered:
  assumes "length (c_buffer c) = BUFFER_SIZE" and "answered ex rsp"
  shows "\<exists>buffer. length buffer = BUFFER_SIZE \<and>
    send_request ex req c =
      (Some (request_bytes req),
       Inr (rsp, c\<lparr>c_last_rtt := Some (ex_elapsed ex), c_buffer := buffer\<rparr>))"
proof -
  have small: "length (request_bytes req) \<le> length (c_buffer c)"
    using request_bytes_small [of req] assms by (simp add: BUFFER_SIZE_def)
  then have wire: "Request_to_wire req (c_buffer c) = Inr (length (request_bytes req),
      request_bytes req @ drop (length (request_bytes req)) (c_buffer c))"
    using Request_to_wire_cases [of req "c_buffer c"] by auto
  obtain bytes where bytes: "ex_send_ok ex" "ex_received ex = Some bytes"
    "length bytes \<le> BUFFER_SIZE" "Response_from_wire bytes = Inr rsp"
    using assms(2) by (auto simp: answered_def split: option.splits)
  let ?b = "request_bytes req @ drop (length (request_bytes req)) (c_buffer c)"
  have "length ?b = BUFFER_SIZE"
    using small assms(1) by simp
  with bytes show ?thesis
    by (intro exI [of _ "bytes @ drop (length bytes) ?b"])
      (simp add: send_request_def wire Let_def min_absorb1)
qed

text \<open>A cycle that goes on ends in the computation of the next request on a connection whose
  staged command was taken.\<close>

lemma loop_tick_computes:
  assumes "loop_tick p env iface c = Some (ef, iface', Inr c')"
    and "length (c_buffer c) = BUFFER_SIZE"
  shows "\<exists>c1. compute_next_request p c1 = Some c' \<and> c_next_motion_command c1 = None \<and>
    length (c_buffer c1) = BUFFER_SIZE \<and>
    (if env_lock_free env
     then c_power_enabled c1 = dc_power_enabled (di_commands iface) \<and>
       c_motion_enabled c1 = dc_motion_enabled (di_commands iface) \<and>
       c_input_commands c1 = dc_commands (di_commands iface)
     else c_power_enabled c1 = c_power_enabled c \<and> c_motion_enabled c1 = c_motion_enabled c \<and>
       c_input_commands c1 = c_input_commands c) \<and>
    c_hard_deceleration_min c1 = c_hard_deceleration_min c \<and>
    c_hard_deceleration_max c1 = c_hard_deceleration_max c \<and>
    c_overshoot_margin c1 = c_overshoot_margin c \<and> c_interval c1 = c_interval c \<and>
    (\<forall>rsp. answered (env_exchange env) rsp \<longrightarrow> c_last_response c1 = rsp)"
proof -
  let ?c = "c\<lparr>c_next_motion_command := None\<rparr>"
  have buf: "length (c_buffer ?c) = BUFFER_SIZE"
    using assms(2) by simp
  from assms(1) obtain sent rsp c0 where
    send: "send_request (env_exchange env) (request_of c) ?c = (sent, Inr (rsp, c0))"
    by (auto simp: loop_tick_def loop_begin_def loop_end_def request_of_def [symmetric] Let_def
        split: prod.splits sum.splits if_splits Option.bind_splits)
  with send_request_buffer [OF buf, of "request_of c" "env_exchange env"]
  have c0: "length (c_buffer c0) = BUFFER_SIZE"
    "c0 = ?c\<lparr>c_buffer := c_buffer c0, c_last_rtt := c_last_rtt c0\<rparr>"
    by auto
  define cf where "cf = c0\<lparr>c_last_response := rsp, c_last_request := request_of c,
    c_last_command_index := c_active_command_index c0\<rparr>"
  define cs where "cs = (case feedback_of cf of None \<Rightarrow> cf
    | Some (state, _) \<Rightarrow> cf\<lparr>c_last_state := state\<rparr>)"
  define ca where "ca = apply_actions (fst (DriveActions_take (di_actions iface))) cs"
  define c1 where "c1 = (if env_lock_free env then read_commands (di_commands iface) ca else ca)"
  have "compute_next_request p c1 = Some c'"
    using assms(1) send
    by (auto simp: loop_tick_def loop_begin_def loop_end_def request_of_def [symmetric] Let_def DriveActions_take_def c1_def
        ca_def cs_def cf_def split: if_splits Option.bind_splits option.splits)
  moreover have sel: "c_next_motion_command c0 = None" "c_power_enabled c0 = c_power_enabled c"
    "c_motion_enabled c0 = c_motion_enabled c" "c_input_commands c0 = c_input_commands c"
    "c_hard_deceleration_min c0 = c_hard_deceleration_min c"
    "c_hard_deceleration_max c0 = c_hard_deceleration_max c"
    "c_overshoot_margin c0 = c_overshoot_margin c" "c_interval c0 = c_interval c"
    by (subst c0(2), simp)+
  moreover have "rsp' = rsp" if "answered (env_exchange env) rsp'" for rsp'
    using send_request_answered [OF buf that, of "request_of c"] send by auto
  ultimately show ?thesis
    using c0(1)
    by (intro exI [of _ c1]) (auto simp: c1_def ca_def cs_def cf_def apply_actions_def
        read_commands_def Let_def split: option.splits)
qed

lemma compute_next_request_frame:
  assumes "compute_next_request p c = Some c'"
  shows "c_power_enabled c' = c_power_enabled c \<and> c_motion_enabled c' = c_motion_enabled c \<and>
    c_input_commands c' = c_input_commands c \<and> c_buffer c' = c_buffer c \<and>
    c_hard_deceleration_min c' = c_hard_deceleration_min c \<and>
    c_hard_deceleration_max c' = c_hard_deceleration_max c \<and>
    c_overshoot_margin c' = c_overshoot_margin c \<and> c_interval c' = c_interval c"
proof -
  have keeps: "keeps b c'" if "compute_motion_command p n pos vel acc b = Some c'" for n pos vel acc b
    using compute_motion_command_empty [OF that] compute_motion_command_some [OF that]
    by (cases "c_input_commands b = []") (auto simp: keeps_def)
  from assms show ?thesis
  proof (cases rule: compute_next_request_cases)
    case (motion f n eh active inpos pos vel acc)
    from keeps [OF motion(4)] show ?thesis by (simp add: keeps_def)
  qed simp
qed

subsection \<open>No panic\<close>

text \<open>
  Configurations and published commands in which nothing overflows: a loop interval of at most
  3 ms (the default is 2 ms), margin and positions below 107 m, decelerations not negative.
\<close>

definition sane_commands :: "MotionCommand list \<Rightarrow> bool" where
  "sane_commands cmds \<longleftrightarrow>
     (\<forall>cmd \<in> set cmds. \<bar>raw_p (position cmd)\<bar> \<le> 1073741823 \<and> 0 \<le> raw_a (deceleration cmd))"

definition sane_connection :: "connection \<Rightarrow> bool" where
  "sane_connection c \<longleftrightarrow> c_interval c \<le> 3000000 \<and>
     \<bar>raw_p (c_overshoot_margin c)\<bar> \<le> 1073741824 \<and>
     0 \<le> raw_a (c_hard_deceleration_min c) \<and>
     raw_a (c_hard_deceleration_min c) \<le> raw_a (c_hard_deceleration_max c) \<and>
     sane_commands (c_input_commands c)"

lemma can_recover_total:
  assumes "0 \<le> dist" "dist \<le> 4294967296" "\<bar>v\<bar> \<le> 2147483648"
  shows "\<exists>b. can_recover_with_hard_decel p dist v c = Some b"
proof -
  have "arith_u64 p (dist + \<bar>raw_p (c_overshoot_margin c)\<bar>) =
      Some (dist + \<bar>raw_p (c_overshoot_margin c)\<bar>)"
    using assms abs_sint_i32 [of "position_0 (c_overshoot_margin c)"]
    by (intro arith_u64_ok) linarith+
  moreover have "arith_i64 p (v * v) = Some (v * v)"
    using abs_mult_le [OF assms(3,3)] by (intro arith_i64_abs) linarith
  ultimately show ?thesis
    by (auto simp: can_recover_with_hard_decel_def Let_def)
qed

lemma target_reached_total:
  assumes "c_interval c \<le> 3000000"
  shows "\<exists>r. target_reached p target pos vel acc c = Some r"
proof -
  have horizon: "duration_saturating_mul (c_interval c) 3 \<le> 9000000"
    using assms by (simp add: duration_saturating_mul_def)
  have "\<bar>raw_p target - raw_p pos\<bar> \<le> 4294967296"
    using abs_sint_i32 [of "position_0 target"] abs_sint_i32 [of "position_0 pos"] by linarith
  then have recover: "\<exists>b. can_recover_with_hard_decel p \<bar>raw_p target - raw_p pos\<bar> (raw_v vel) c' =
      Some b" for c'
    using abs_sint_i32 by (intro can_recover_total) auto
  have "\<exists>b. predicted_crossing p target pos vel acc toward c' = Some b"
    if "c_interval c' = c_interval c" for toward c'
    using that recover [of c'] by (fastforce simp: predicted_crossing_def Let_def predict_position_eq(1) [OF horizon]
        predict_velocity_eq(1) [OF horizon])
  then have "\<exists>b. predicted_crossing p target pos vel acc t (if t
      then c\<lparr>c_active_command_has_approached := True\<rparr> else c) = Some b" for t
    by simp
  from this [of "moving_toward (c_active_approach_direction c) (raw_p target - raw_p pos) (raw_v vel)"]
  show ?thesis
    by (auto simp: target_reached_def Let_def)
qed

lemma arith_i32_diff:
  assumes "\<bar>raw_p a\<bar> \<le> 1073741823" "\<bar>raw_p b\<bar> \<le> 1073741823"
  shows "arith_i32 p (raw_p a - raw_p b) = Some (raw_p a - raw_p b)"
  using assms by (intro arith_i32_ok) linarith+

lemma sane_nth:
  assumes "sane_commands cmds" "n < length cmds"
  shows "\<bar>raw_p (position (cmds ! n))\<bar> \<le> 1073741823" "0 \<le> raw_a (deceleration (cmds ! n))"
  using assms by (auto simp: sane_commands_def)

lemma advance_command_total:
  assumes "sane_commands (c_input_commands c)" "c_input_commands c \<noteq> []"
    and "\<bar>raw_p target\<bar> \<le> 1073741823"
  shows "\<exists>r. advance_command p reached target dir c = Some r"
  using assms by (simp add: advance_command_def Let_def arith_i32_diff sane_nth)

lemma effective_clamp_target_total:
  assumes "sane_commands cmds"
  shows "\<exists>r. effective_clamp_target_after_handoff p cmds n b d target d' = Some r"
proof -
  have "i mod length cmds < length cmds" if "2 \<le> length cmds" for i
    using that by (intro mod_less_divisor) (cases cmds; simp)
  then show ?thesis
    using assms by (simp add: effective_clamp_target_after_handoff_def Let_def arith_i32_diff sane_nth)
qed

lemma compute_motion_command_total:
  assumes sane: "sane_connection c" and pos: "\<bar>raw_p pos\<bar> \<le> 1073741824"
  shows "\<exists>c'. compute_motion_command p n pos vel acc c = Some c'"
proof (cases "c_input_commands c = []")
  case False
  let ?c0 = "c\<lparr>c_active_command_index := c_active_command_index c mod length (c_input_commands c)\<rparr>"
  let ?target = "position (c_input_commands c ! c_active_command_index ?c0)"
  have cmds: "sane_commands (c_input_commands c)" and len: "0 < length (c_input_commands c)"
    using sane False by (simp_all add: sane_connection_def)
  have k0: "keeps c ?c0"
    by (simp add: keeps_def)
  obtain reached c1 where r: "target_reached p ?target pos vel acc ?c0 = Some (reached, c1)"
    using target_reached_total [of ?c0 p ?target pos vel acc] sane
    by (auto simp: sane_connection_def)
  note k1 = keeps_trans [OF k0 target_reached_keeps(1) [OF r]]
  have c1: "c_input_commands c1 = c_input_commands c"
    using k1 by (simp add: keeps_def)
  obtain t1 d1 c2 where adv: "advance_command p reached ?target (c_active_approach_direction c) c1 =
      Some ((t1, d1), c2)"
    using advance_command_total [of c1 ?target p reached] cmds False sane_nth(1) [OF cmds] len c1
    by fastforce
  note k2 = keeps_trans [OF k1 advance_command_keeps(1) [OF adv]]
  have c2: "c_input_commands c2 = c_input_commands c"
    using k2 by (simp add: keeps_def)
  obtain t2 d2 where eff: "effective_clamp_target_after_handoff p (c_input_commands c2)
      (c_active_command_index c2) (c_active_command_has_approached c2)
      (c_active_approach_direction c2) t1 d1 = Some (t2, d2)"
    using effective_clamp_target_total cmds c2 by (metis surj_pair)
  have "c_active_command_index c2 < length (c_input_commands c)"
    using target_reached_keeps(2) [OF r] advance_command_keeps(2) [OF adv] c1 len by simp
  moreover have "\<bar>raw_p t2\<bar> \<le> 1073741823"
  proof -
    have "t2 = ?target \<or> t2 \<in> position ` set (c_input_commands c)"
      using effective_clamp_target_from [OF eff] advance_command_target [OF adv] c2 by auto
    then show ?thesis
      using cmds sane_nth(1) [OF cmds] len by (auto simp: sane_commands_def)
  qed
  ultimately have "sane_clamp pos t2 (deceleration (c_input_commands c2 ! c_active_command_index c2))
      (c_overshoot_margin c2) (c_hard_deceleration_min c2) (c_hard_deceleration_max c2)"
    "sane_clamp pos t2 (c_hard_deceleration_min c2)
      (c_overshoot_margin c2) (c_hard_deceleration_min c2) (c_hard_deceleration_max c2)"
    using pos sane sane_nth(2) [OF cmds] k2 c2
    by (auto simp: sane_clamp_def sane_connection_def keeps_def)
  then show ?thesis
    using False r adv eff
    by (simp add: compute_motion_command_def Let_def clamp_deceleration_eq)
qed (simp add: compute_motion_command_def)

lemma compute_next_request_total:
  assumes "sane_connection c"
    and "\<And>pos. rsp_demand_position (c_last_response c) = Some pos \<Longrightarrow> \<bar>raw_p pos\<bar> \<le> 1073741824"
  shows "\<exists>c'. compute_next_request p c = Some c'"
proof (cases "Response_state (c_last_response c)")
  case (Some state)
  obtain f where f: "update_control_flags state c = c\<lparr>c_control_flags := f\<rparr>"
    using update_control_flags_only by blast
  have sane: "sane_connection (c\<lparr>c_control_flags := f\<rparr>)"
    using assms(1) by (simp add: sane_connection_def)
  show ?thesis
    using Some f compute_motion_command_total [OF sane] assms(2)
    by (auto simp: compute_next_request_def Let_def split: State.splits option.splits bool.splits)
qed (simp add: compute_next_request_def)

subsection \<open>A responsive drive\<close>

lemma loop_tick_answered:
  assumes buf: "length (c_buffer c) = BUFFER_SIZE" and ans: "answered (env_exchange env) rsp"
    and core: "env_core_alive env" and sane: "sane_connection c"
    and published: "sane_commands (dc_commands (di_commands iface))"
    and pos: "\<And>pos. rsp_demand_position rsp = Some pos \<Longrightarrow> \<bar>raw_p pos\<bar> \<le> 1073741824"
  shows "\<exists>ef c'. loop_tick p env iface c = Some (ef, iface\<lparr>di_actions := 0\<rparr>, Inr c') \<and>
    ef_sent ef = Some (request_bytes (request_of c)) \<and>
    length (c_buffer c') = BUFFER_SIZE \<and> sane_connection c'"
proof -
  let ?c = "c\<lparr>c_next_motion_command := None\<rparr>"
  obtain buffer where buffer: "length buffer = BUFFER_SIZE"
    and send: "send_request (env_exchange env) (request_of c) ?c =
      (Some (request_bytes (request_of c)),
       Inr (rsp, ?c\<lparr>c_last_rtt := Some (ex_elapsed (env_exchange env)), c_buffer := buffer\<rparr>))"
    using send_request_answered [of ?c "env_exchange env" rsp "request_of c"] buf ans by auto
  define cf where "cf = ?c\<lparr>c_last_rtt := Some (ex_elapsed (env_exchange env)), c_buffer := buffer,
    c_last_response := rsp, c_last_request := request_of c,
    c_last_command_index := c_active_command_index c\<rparr>"
  define cs where "cs = (case feedback_of cf of None \<Rightarrow> cf
    | Some (state, _) \<Rightarrow> cf\<lparr>c_last_state := state\<rparr>)"
  define c1 where "c1 = (if env_lock_free env
    then read_commands (di_commands iface) (apply_actions (di_actions iface) cs)
    else apply_actions (di_actions iface) cs)"
  have "c_last_response c1 = rsp \<and> c_buffer c1 = buffer \<and> sane_connection c1"
    using sane published
    by (auto simp: c1_def cs_def cf_def apply_actions_def read_commands_def Let_def
        sane_connection_def split: option.splits)
  moreover from this pos obtain c' where c': "compute_next_request p c1 = Some c'"
    using compute_next_request_total by blast
  moreover have "loop_tick p env iface c = Some (\<lparr>ef_sent = Some (request_bytes (request_of c)),
      ef_feedback = map_option snd (feedback_of cf)\<rparr>, iface\<lparr>di_actions := 0\<rparr>, Inr c')"
    using send core c'
    by (cases "feedback_of cf"; cases "env_lock_free env") (auto simp: loop_tick_def loop_begin_def loop_end_def
        request_of_def [symmetric] DriveActions_take_def Let_def c1_def cs_def cf_def)
  ultimately show ?thesis
    using compute_next_request_frame [OF c'] buffer
    by (auto simp: sane_connection_def)
qed

text \<open>A published stroke between two waypoints, and a drive in operation that answers.\<close>

definition example_config :: drive_config where
  "example_config = \<lparr>cfg_interval = 2000000, cfg_overshoot_margin = Position 50000,
     cfg_hard_deceleration_min = Acceleration 750000,
     cfg_hard_deceleration_max = Acceleration 3000000\<rparr>"

definition example_answer :: Response where
  "example_answer = \<lparr>rsp_status_flags = Some 0, rsp_raw_state = Some 0x0885,
     rsp_actual_position = Some (Position 70000), rsp_demand_position = Some (Position 70000),
     rsp_current = Some (Current 0), rsp_warning_flags = Some 0, rsp_raw_error_code = Some 0,
     rsp_monitoring_channel = Some (0, 0, 300, 300), rsp_realtime_configuration = None\<rparr>"

definition example_cycle :: cycle_env where
  "example_cycle = \<lparr>env_exchange = \<lparr>ex_send_ok = True,
       ex_received = Some (response_bytes 3 0xFF example_answer), ex_elapsed = 300000\<rparr>,
     env_core_alive = True, env_lock_free = True\<rparr>"

definition example_commands :: "MotionCommand list" where
  "example_commands =
     [\<lparr>position = Position 100000, velocity = Velocity 500000,
       acceleration = Acceleration 400000, deceleration = Acceleration 400000\<rparr>,
      \<lparr>position = Position 0, velocity = Velocity 500000,
       acceleration = Acceleration 400000, deceleration = Acceleration 400000\<rparr>]"

definition example_published :: "bool \<Rightarrow> bool \<Rightarrow> DriveInterface" where
  "example_published pw motion = \<lparr>di_commands = \<lparr>dc_power_enabled = pw,
     dc_motion_enabled = motion, dc_commands = example_commands\<rparr>, di_actions = 0\<rparr>"

lemma example_sane:
  "sane_connection (Connection_initial example_config)" "sane_commands example_commands"
  "length (c_buffer (Connection_initial example_config)) = BUFFER_SIZE"
  by (simp_all add: sane_connection_def Connection_initial_def example_config_def
      sane_commands_def example_commands_def)

lemma example_answered: "answered (env_exchange example_cycle) example_answer"
proof -
  have "well_formed_response 3 0xFF example_answer"
    by (simp add: well_formed_response_def example_answer_def carries_def bit_numeral_rec)
  from response_bytes_parsed [OF this, of "[]"]
  have "Response_from_wire (response_bytes 3 0xFF example_answer) = Inr example_answer"
    by simp
  moreover have "length (response_bytes 3 0xFF example_answer) = 42"
    by (simp add: response_bytes_def example_answer_def)
  ultimately show ?thesis
    by (simp add: answered_def example_cycle_def BUFFER_SIZE_def)
qed

lemma example_tick:
  assumes "length (c_buffer c) = BUFFER_SIZE" "sane_connection c"
  shows "\<exists>ef c'. loop_tick p example_cycle (example_published pw motion) c =
      Some (ef, example_published pw motion, Inr c') \<and>
    ef_sent ef = Some (request_bytes (request_of c)) \<and>
    length (c_buffer c') = BUFFER_SIZE \<and> sane_connection c'"
proof -
  have "(example_published pw motion)\<lparr>di_actions := 0\<rparr> = example_published pw motion"
    by (simp add: example_published_def)
  then show ?thesis
    using loop_tick_answered [OF assms(1) example_answered _ assms(2), of "example_published pw motion" p]
    by (simp add: example_cycle_def example_published_def example_sane example_answer_def)
qed

text \<open>
  C4: whatever the drive answers and whatever the core has published, a cycle only ever stages
  a motion command for a drive that is powered and homed and accepts commands; its toggle
  counter is the successor of the drive's; with an empty command list or with motion disabled
  it is a stop, otherwise it moves to the command at the active index, which is in range.  With
  power off nothing is staged and the switch-on bit is clear.
\<close>

theorem loop_tick_stages_safely:
  assumes "loop_tick p env iface c = Some (ef, iface', Inr c')"
    and "length (c_buffer c) = BUFFER_SIZE"
  shows "staged_ok c'"
  using loop_tick_computes [OF assms] compute_next_request_staged by blast

theorem loop_tick_stages_safely_witness:
  "\<exists>ef c'. loop_tick Debug example_cycle (example_published True True)
      (Connection_initial example_config) = Some (ef, example_published True True, Inr c') \<and>
    staged_ok c'"
  using example_tick [OF example_sane(3,1), of Debug True True]
    loop_tick_stages_safely [OF _ example_sane(3)]
  by blast

text \<open>
  Once the core has cut the power and the drive thread has taken the lock in a cycle, the
  next datagram that leaves, as the drive reads it, clears the switch-on bit and carries no
  motion command.
\<close>

theorem power_off_reaches_drive:
  assumes "loop_tick p env iface c = Some (ef, iface', Inr c')"
    and "length (c_buffer c) = BUFFER_SIZE"
    and "env_lock_free env" and "\<not> dc_power_enabled (di_commands iface)"
    and "loop_tick p env2 iface2 c' = Some (ef2, iface3, r)" and "ef_sent ef2 = Some dg"
  shows "\<exists>req flags. drive_request dg = Some req \<and> req_motion_command req = None \<and>
    req_control_flags req = Some flags \<and>
    \<not> flags_contains flags (ControlFlags_const ControlFlags_SWITCH_ON)"
proof -
  obtain c1 where c1: "compute_next_request p c1 = Some c'" "c_next_motion_command c1 = None"
    "length (c_buffer c1) = BUFFER_SIZE" "\<not> c_power_enabled c1"
    using loop_tick_computes [OF assms(1,2)] assms(3,4) by auto
  have "staged_ok c'" "\<not> c_power_enabled c'" "length (c_buffer c') = BUFFER_SIZE"
    using c1 compute_next_request_staged compute_next_request_frame by auto
  then show ?thesis
    using loop_tick_sent [OF assms(5) _ assms(6)]
    by (auto simp: staged_ok_def on_the_wire_request_of)
qed

lemma example_two_ticks:
  "\<exists>ef c' ef2 c'' dg. loop_tick Debug example_cycle (example_published pw motion)
      (Connection_initial example_config) = Some (ef, example_published pw motion, Inr c') \<and>
    loop_tick Debug example_cycle (example_published True True) c' =
      Some (ef2, example_published True True, Inr c'') \<and> ef_sent ef2 = Some dg"
  using example_tick [OF example_sane(3,1), of Debug pw motion]
    example_tick [of _ Debug True True]
  by metis

theorem power_off_reaches_drive_witness:
  "\<exists>c' ef2 c'' dg. loop_tick Debug example_cycle (example_published True True) c' =
      Some (ef2, example_published True True, Inr c'') \<and> ef_sent ef2 = Some dg \<and>
    (\<exists>req flags. drive_request dg = Some req \<and> req_motion_command req = None \<and>
       req_control_flags req = Some flags \<and>
       \<not> flags_contains flags (ControlFlags_const ControlFlags_SWITCH_ON))"
proof -
  obtain ef c' ef2 c'' dg where
    ticks: "loop_tick Debug example_cycle (example_published False True)
      (Connection_initial example_config) = Some (ef, example_published False True, Inr c')"
    "loop_tick Debug example_cycle (example_published True True) c' =
      Some (ef2, example_published True True, Inr c'')" "ef_sent ef2 = Some dg"
    using example_two_ticks by blast
  have "env_lock_free example_cycle" "\<not> dc_power_enabled (di_commands (example_published False True))"
    by (simp_all add: example_cycle_def example_published_def)
  from power_off_reaches_drive [OF ticks(1) example_sane(3) this ticks(2,3)] ticks(2,3)
  show ?thesis by blast
qed

text \<open>
  Once the core has disabled motion and the drive thread has taken the lock in a cycle, the
  next datagram that leaves carries no motion command other than a stop.
\<close>

theorem motion_off_reaches_drive:
  assumes "loop_tick p env iface c = Some (ef, iface', Inr c')"
    and "length (c_buffer c) = BUFFER_SIZE"
    and "env_lock_free env" and "\<not> dc_motion_enabled (di_commands iface)"
    and "loop_tick p env2 iface2 c' = Some (ef2, iface3, r)" and "ef_sent ef2 = Some dg"
  shows "\<exists>req. drive_request dg = Some req \<and>
    (\<forall>m. req_motion_command req = Some m \<longrightarrow> (\<exists>d. mci_command m = VaiStop d))"
proof -
  obtain c1 where c1: "compute_next_request p c1 = Some c'" "c_next_motion_command c1 = None"
    "length (c_buffer c1) = BUFFER_SIZE" "\<not> c_motion_enabled c1"
    using loop_tick_computes [OF assms(1,2)] assms(3,4) by auto
  have "staged_ok c'" "\<not> c_motion_enabled c'" "length (c_buffer c') = BUFFER_SIZE"
    using c1 compute_next_request_staged compute_next_request_frame by auto
  then show ?thesis
    using loop_tick_sent [OF assms(5) _ assms(6)]
    by (auto simp: staged_ok_def on_the_wire_request_of motor_command_def
        split: option.splits if_splits)
qed



theorem motion_off_reaches_drive_witness:
  "\<exists>c' ef2 c'' dg. loop_tick Debug example_cycle (example_published True True) c' =
      Some (ef2, example_published True True, Inr c'') \<and> ef_sent ef2 = Some dg \<and>
    (\<exists>req. drive_request dg = Some req \<and>
      (\<forall>m. req_motion_command req = Some m \<longrightarrow> (\<exists>d. mci_command m = VaiStop d)))"
proof -
  obtain ef c' ef2 c'' dg where
    ticks: "loop_tick Debug example_cycle (example_published True False)
      (Connection_initial example_config) = Some (ef, example_published True False, Inr c')"
    "loop_tick Debug example_cycle (example_published True True) c' =
      Some (ef2, example_published True True, Inr c'')" "ef_sent ef2 = Some dg"
    using example_two_ticks by blast
  have "env_lock_free example_cycle" "\<not> dc_motion_enabled (di_commands (example_published True False))"
    by (simp_all add: example_cycle_def example_published_def)
  from motion_off_reaches_drive [OF ticks(1) example_sane(3) this ticks(2,3)] ticks(2,3)
  show ?thesis by blast
qed

text \<open>
  With a drive that answers with a well-formed response and a core that listens, a cycle
  neither fails nor panics, in either build profile and for any lock timing; the datagram that
  leaves is the encoded request, the pending actions are consumed, and the same holds for the
  next cycle.
\<close>

theorem loop_tick_goes_on:
  assumes "length (c_buffer c) = BUFFER_SIZE" and "sane_connection c"
    and "answered (env_exchange env) rsp" and "env_core_alive env"
    and "sane_commands (dc_commands (di_commands iface))"
    and "\<And>pos. rsp_demand_position rsp = Some pos \<Longrightarrow> \<bar>raw_p pos\<bar> \<le> 1073741824"
  shows "\<exists>ef c'. loop_tick p env iface c = Some (ef, iface\<lparr>di_actions := 0\<rparr>, Inr c') \<and>
    ef_sent ef = Some (request_bytes (request_of c)) \<and>
    length (c_buffer c') = BUFFER_SIZE \<and> sane_connection c'"
  using assms by (intro loop_tick_answered)

theorem loop_tick_goes_on_witness:
  "\<exists>ef c'. loop_tick Debug example_cycle (example_published True True)
      (Connection_initial example_config) =
      Some (ef, (example_published True True)\<lparr>di_actions := 0\<rparr>, Inr c') \<and>
    ef_sent ef = Some (request_bytes (request_of (Connection_initial example_config))) \<and>
    length (c_buffer c') = BUFFER_SIZE \<and> sane_connection c'"
  by (rule loop_tick_goes_on [OF example_sane(3,1) example_answered])
    (simp_all add: example_cycle_def example_published_def example_sane example_answer_def)

subsection \<open>Actions are neither lost nor invented\<close>

text \<open>The core and the drive thread interleave their atomic operations in any order.\<close>

datatype action_op = Send u8 | Take

fun run_actions :: "action_op list \<Rightarrow> DriveActions \<Rightarrow> u8 list \<times> DriveActions" where
  "run_actions [] pending = ([], pending)"
| "run_actions (Send bits # ops) pending = run_actions ops (DriveActions_send bits pending)"
| "run_actions (Take # ops) pending =
     (let (taken, pending) = DriveActions_take pending;
          (rest, pending) = run_actions ops pending in
      (taken # rest, pending))"

lemma run_actions_bits:
  "(\<exists>t \<in> set (fst (run_actions ops pending)). bit t n) \<or> bit (snd (run_actions ops pending)) n \<longleftrightarrow>
   (\<exists>bits. Send bits \<in> set ops \<and> bit bits n) \<or> bit pending n"
proof (induction ops arbitrary: pending)
  case (Cons op ops)
  show ?case
    using Cons.IH [of "pending OR bits" for bits] Cons.IH [of 0]
    by (cases op) (auto simp: DriveActions_send_def DriveActions_take_def bit_simps
        split: prod.splits)
qed simp

text \<open>
  In every interleaving of the core sending action bits and the drive thread taking them, an
  action has been taken or is still pending exactly if it was sent.
\<close>

theorem actions_not_lost:
  "(\<exists>t \<in> set (fst (run_actions ops 0)). bit t n) \<or> bit (snd (run_actions ops 0)) n \<longleftrightarrow>
   (\<exists>bits. Send bits \<in> set ops \<and> bit bits n)"
  using run_actions_bits [of ops 0 n] by simp

subsection \<open>The connection manager\<close>

definition manager_ok :: "manager \<Rightarrow> bool" where
  "manager_ok m \<longleftrightarrow> 1000000000 \<le> mgr_retry_time m \<and> mgr_retry_time m \<le> 30000000000"

text \<open>
  The time between connection attempts starts at one second and never leaves the range from
  one to thirty seconds; computing it does not overflow.  It is not reduced again after a
  successful connection.
\<close>

theorem retry_time_bounded:
  "manager_ok manager_initial \<and>
   (\<forall>m. manager_ok m \<longrightarrow>
      (\<exists>d. next_retry_time (mgr_retry_time m) = Some d \<and> mgr_retry_time m \<le> d \<and> d \<le> 30000000000) \<and>
      (\<forall>p cfg env iface ef iface' m'. manager_step p cfg env iface m = Some (ef, iface', m') \<longrightarrow>
         manager_ok m' \<and> mgr_retry_time m \<le> mgr_retry_time m'))"
proof (intro conjI allI impI)
  show "manager_ok manager_initial"
    by (simp add: manager_ok_def manager_initial_def)
next
  fix m
  assume ok: "manager_ok m"
  then have next_time: "next_retry_time (mgr_retry_time m) = Some (min (mgr_retry_time m * 10) 30000000000)"
    by (simp add: manager_ok_def next_retry_time_def duration_max_def)
  with ok show "\<exists>d. next_retry_time (mgr_retry_time m) = Some d \<and> mgr_retry_time m \<le> d \<and>
      d \<le> 30000000000"
    by (auto simp: manager_ok_def)
  fix p cfg env iface ef iface' m'
  assume "manager_step p cfg env iface m = Some (ef, iface', m')"
  with ok next_time show "manager_ok m'" "mgr_retry_time m \<le> mgr_retry_time m'"
    by (auto simp: manager_step_def manager_ok_def Let_def
        split: option.splits prod.splits sum.splits Option.bind_splits)
qed

theorem retry_time_bounded_witness:
  "\<exists>d. next_retry_time (mgr_retry_time manager_initial) = Some d \<and> 1000000000 \<le> d \<and>
     d \<le> 30000000000"
proof -
  have "manager_ok manager_initial" and "mgr_retry_time manager_initial = 1000000000"
    by (simp_all add: manager_ok_def manager_initial_def)
  then show ?thesis
    using retry_time_bounded by auto
qed

end
