(* ===== verification/HidMessages.thy ===== *)
theory HidMessages
  imports Messages
begin

text \<open>
  The messages of the handheld controller (\<open>src/hid/messages.rs\<close>).  A \<open>CString\<close> is its bytes
  without the terminator, as a \<open>string\<close>: a \<open>char\<close> of HOL is a byte.
\<close>

type_synonym i8 = "8 word"
type_synonym CString = string

text \<open>\<open>CString::new\<close> fails on an interior NUL byte.\<close>

definition CString_new :: "string \<Rightarrow> CString option" where
  "CString_new s = (if CHR 0x00 \<in> set s then None else Some s)"

definition as_bytes_with_nul :: "CString \<Rightarrow> u8 list" where
  "as_bytes_with_nul s = map of_char s @ [0]"

datatype HidInputEvent =
    ButtonClick u8
  | ButtonDoubleClick u8
  | ButtonHoldStart u8
  | ButtonHoldEnd u8
  | MenuSelect u8 u8 \<comment> \<open>display, item\<close>
  | MenuCancel u8

record InputReport =
  ir_active_screen_id :: u8
  ir_encoder_deltas :: "i8 \<times> i8 \<times> i8 \<times> i8"
  ir_events :: "HidInputEvent list"

record DeviceInfo =
  firmware_version_major :: u8
  firmware_version_minor :: u8
  features :: u8

record MenuItem =
  item_id :: u8
  item_enabled :: bool
  item_label :: CString

datatype DisplayContent =
    TextLines u8 "CString list" \<comment> \<open>top margin, lines\<close>
  | Menu u8 CString "MenuItem list" \<comment> \<open>top margin, title, items\<close>

record EncoderLabel =
  label_primary :: CString
  label_secondary :: CString

datatype ScreenAnimation =
    NoAnimation \<comment> \<open>\<open>ScreenAnimation::None\<close>\<close>
  | OverLeft | OverRight | OverTop | OverBottom
  | MoveLeft | MoveRight | MoveTop | MoveBottom
  | FadeIn | FadeOut
  | OutLeft | OutRight | OutTop | OutBottom

fun ScreenAnimation_to_u8 :: "ScreenAnimation \<Rightarrow> u8" where
  "ScreenAnimation_to_u8 NoAnimation = 0"
| "ScreenAnimation_to_u8 OverLeft = 1"
| "ScreenAnimation_to_u8 OverRight = 2"
| "ScreenAnimation_to_u8 OverTop = 3"
| "ScreenAnimation_to_u8 OverBottom = 4"
| "ScreenAnimation_to_u8 MoveLeft = 5"
| "ScreenAnimation_to_u8 MoveRight = 6"
| "ScreenAnimation_to_u8 MoveTop = 7"
| "ScreenAnimation_to_u8 MoveBottom = 8"
| "ScreenAnimation_to_u8 FadeIn = 9"
| "ScreenAnimation_to_u8 FadeOut = 10"
| "ScreenAnimation_to_u8 OutLeft = 11"
| "ScreenAnimation_to_u8 OutRight = 12"
| "ScreenAnimation_to_u8 OutTop = 13"
| "ScreenAnimation_to_u8 OutBottom = 14"

record ScreenSpec =
  screen_id :: u8
  encoder_labels :: "EncoderLabel \<times> EncoderLabel \<times> EncoderLabel \<times> EncoderLabel"
  left_main :: DisplayContent
  left_animation_type :: ScreenAnimation
  left_animation_duration :: u16
  left_animation_delay :: u16
  right_main :: DisplayContent
  right_animation_type :: ScreenAnimation
  right_animation_duration :: u16
  right_animation_delay :: u16

datatype HardwareControl =
    LedRingValue u8 u8 \<comment> \<open>ring, value\<close>
  | Reset
  | SleepLevel bool \<comment> \<open>can deep sleep\<close>

datatype VariableEntry =
    FixedPoint u8 u8 i16 \<comment> \<open>index, decimals, value\<close>
  | ShortString u8 CString \<comment> \<open>index, value\<close>
  | HardwareControlEntry HardwareControl

datatype OutputReport =
    ScreenSpecReport ScreenSpec
  | VariableUpdate "VariableEntry list"

end
