(* ===== verification/Float64.thy ===== *)
theory Float64
  imports Prelude Complex_Main
begin

text \<open>
  Rust's \<open>f64\<close>, as far as the program computes with it: products, quotients and the conversions
  to integers.  A finite value is a sign, a significand and an exponent, not normalised; every
  operation rounds its exact result to the nearest value with a 53-bit significand and an exponent
  of at least -1074, ties to even, and overflows to an infinity.  The second part relates the
  operations to real arithmetic.
\<close>

subsection \<open>Values and rounding\<close>

datatype f64 =
    NaN
  | Infinite bool \<comment> \<open>the sign; true is negative\<close>
  | Finite bool nat int \<comment> \<open>\<open>\<plusminus> m * 2 ^ e\<close>\<close>

fun bit_length :: "nat \<Rightarrow> nat" where
  "bit_length n = (if n = 0 then 0 else Suc (bit_length (n div 2)))"

declare bit_length.simps [simp del]

definition round_half_even :: "nat \<Rightarrow> nat \<Rightarrow> nat" where
  "round_half_even n d =
     (let q = n div d; r = n mod d in
      if 2 * r < d \<or> (2 * r = d \<and> even q) then q else q + 1)"

text \<open>\<open>f64_round n d k\<close> is \<open>n / d * 2 ^ k\<close>, rounded, as a significand and an exponent.\<close>

definition f64_scale :: "nat \<Rightarrow> nat \<Rightarrow> int \<Rightarrow> int" where
  "f64_scale n d k =
     (let s = 53 + int (bit_length d) - int (bit_length n);
          s = (if d * 2 ^ nat (- s) * 2 ^ 53 \<le> n * 2 ^ nat s then s - 1 else s) in
      min s (k + 1074))"

definition f64_round :: "nat \<Rightarrow> nat \<Rightarrow> int \<Rightarrow> nat \<times> int" where
  "f64_round n d k =
     (let s = f64_scale n d k in
      (round_half_even (n * 2 ^ nat s) (d * 2 ^ nat (- s)), k - s))"

definition f64_rounded :: "bool \<Rightarrow> nat \<Rightarrow> nat \<Rightarrow> int \<Rightarrow> f64" where
  "f64_rounded neg n d k =
     (case f64_round n d k of (m, e) \<Rightarrow>
        if 1024 < int (bit_length m) + e then Infinite neg else Finite neg m e)"

subsection \<open>Operations\<close>

text \<open>The literal or decimal text \<open>n / d\<close>, and an integer that converts exactly.\<close>

definition f64_decimal :: "nat \<Rightarrow> nat \<Rightarrow> f64" where
  "f64_decimal n d = (if n = 0 then Finite False 0 0 else f64_rounded False n d 0)"

definition f64_from :: "nat \<Rightarrow> f64" where
  "f64_from n = Finite False n 0"

fun f64_mul :: "f64 \<Rightarrow> f64 \<Rightarrow> f64" where
  "f64_mul (Finite s m e) (Finite t n f) =
     (if m = 0 \<or> n = 0 then Finite (s \<noteq> t) 0 0 else f64_rounded (s \<noteq> t) (m * n) 1 (e + f))"
| "f64_mul (Infinite s) (Finite t n f) = (if n = 0 then NaN else Infinite (s \<noteq> t))"
| "f64_mul (Finite s m e) (Infinite t) = (if m = 0 then NaN else Infinite (s \<noteq> t))"
| "f64_mul (Infinite s) (Infinite t) = Infinite (s \<noteq> t)"
| "f64_mul NaN y = NaN"
| "f64_mul x NaN = NaN"

fun f64_div :: "f64 \<Rightarrow> f64 \<Rightarrow> f64" where
  "f64_div (Finite s m e) (Finite t n f) =
     (if n = 0 then (if m = 0 then NaN else Infinite (s \<noteq> t))
      else if m = 0 then Finite (s \<noteq> t) 0 0
      else f64_rounded (s \<noteq> t) m n (e - f))"
| "f64_div (Infinite s) (Finite t n f) = Infinite (s \<noteq> t)"
| "f64_div (Finite s m e) (Infinite t) = Finite (s \<noteq> t) 0 0"
| "f64_div (Infinite s) (Infinite t) = NaN"
| "f64_div NaN y = NaN"
| "f64_div x NaN = NaN"

text \<open>\<open>f64::round\<close> to an integer, half away from zero, and the saturating casts.\<close>

definition magnitude_floor :: "nat \<Rightarrow> int \<Rightarrow> nat" where
  "magnitude_floor m e = m * 2 ^ nat e div 2 ^ nat (- e)"

definition signed_magnitude :: "bool \<Rightarrow> nat \<Rightarrow> int" where
  "signed_magnitude neg n = (if neg then - int n else int n)"

fun f64_round_int :: "f64 \<Rightarrow> f64" where
  "f64_round_int (Finite s m e) =
     Finite s ((2 * m * 2 ^ nat e + 2 ^ nat (- e)) div (2 * 2 ^ nat (- e))) 0"
| "f64_round_int x = x"

fun f64_cast :: "int \<Rightarrow> int \<Rightarrow> f64 \<Rightarrow> int" where
  "f64_cast lo hi NaN = 0"
| "f64_cast lo hi (Infinite neg) = (if neg then lo else hi)"
| "f64_cast lo hi (Finite neg m e) = max lo (min hi (signed_magnitude neg (magnitude_floor m e)))"

definition f64_as_i32 :: "f64 \<Rightarrow> i32" where
  "f64_as_i32 x = as_i32 (f64_cast (- 2147483648) 2147483647 x)"

definition f64_as_u8 :: "f64 \<Rightarrow> u8" where
  "f64_as_u8 x = word_of_int (f64_cast 0 255 x)"

text \<open>Sums, and what is needed to compare and clamp; a clamp panics when its bounds are not ordered.\<close>

definition f64_of_int :: "int \<Rightarrow> f64" where
  "f64_of_int x = Finite (x < 0) (nat \<bar>x\<bar>) 0"

fun f64_add :: "f64 \<Rightarrow> f64 \<Rightarrow> f64" where
  "f64_add (Finite s m e) (Finite t n f) =
     (let k = min e f;
          x = signed_magnitude s (m * 2 ^ nat (e - k)) + signed_magnitude t (n * 2 ^ nat (f - k)) in
      if x = 0 then Finite (s \<and> t) 0 0 else f64_rounded (x < 0) (nat \<bar>x\<bar>) 1 k)"
| "f64_add (Infinite s) (Infinite t) = (if s = t then Infinite s else NaN)"
| "f64_add (Infinite s) (Finite t n f) = Infinite s"
| "f64_add (Finite s m e) (Infinite t) = Infinite t"
| "f64_add NaN y = NaN"
| "f64_add x NaN = NaN"

fun f64_abs :: "f64 \<Rightarrow> f64" where
  "f64_abs (Finite neg m e) = Finite False m e"
| "f64_abs (Infinite neg) = Infinite False"
| "f64_abs NaN = NaN"

fun f64_neg :: "f64 \<Rightarrow> f64" where
  "f64_neg (Finite s m e) = Finite (\<not> s) m e"
| "f64_neg (Infinite s) = Infinite (\<not> s)"
| "f64_neg NaN = NaN"

fun f64_less :: "f64 \<Rightarrow> f64 \<Rightarrow> bool" where
  "f64_less (Finite s m e) (Finite t n f) \<longleftrightarrow>
     signed_magnitude s (m * 2 ^ nat (e - min e f)) < signed_magnitude t (n * 2 ^ nat (f - min e f))"
| "f64_less (Infinite s) (Infinite t) \<longleftrightarrow> s \<and> \<not> t"
| "f64_less (Infinite s) (Finite t n f) \<longleftrightarrow> s"
| "f64_less (Finite s m e) (Infinite t) \<longleftrightarrow> \<not> t"
| "f64_less _ _ \<longleftrightarrow> False"

definition f64_clamp :: "f64 \<Rightarrow> f64 \<Rightarrow> f64 \<Rightarrow> f64 option" where
  "f64_clamp x lo hi =
     (if lo = NaN \<or> hi = NaN \<or> f64_less hi lo then None
      else Some (if f64_less x lo then lo else if f64_less hi x then hi else x))"

subsection \<open>Relation to the reals\<close>

fun f64_real :: "f64 \<Rightarrow> real" where
  "f64_real (Finite s m e) = (if s then - (m * 2 powi e) else m * 2 powi e)"
| "f64_real x = 0"

lemma bit_length_0 [simp]: "bit_length 0 = 0"
  by (simp add: bit_length.simps)

lemma bit_length_bounds:
  assumes "0 < n"
  shows "2 ^ bit_length n \<le> 2 * n" "n < 2 ^ bit_length n"
proof -
  have "2 ^ bit_length n \<le> 2 * n \<and> n < 2 ^ bit_length n"
    using assms
  proof (induction n rule: bit_length.induct)
    case (1 n)
    show ?case
    proof (cases "n div 2 = 0")
      case True
      then have "n = 1" using 1(2) by linarith
      then show ?thesis by (simp add: bit_length.simps)
    next
      case False
      then have "2 ^ bit_length (n div 2) \<le> 2 * (n div 2) \<and> n div 2 < 2 ^ bit_length (n div 2)"
        using 1 by simp
      then show ?thesis using 1(2) by (subst (1 2) bit_length.simps) auto
    qed
  qed
  then show "2 ^ bit_length n \<le> 2 * n" "n < 2 ^ bit_length n" by simp_all
qed

lemma round_half_even_error:
  assumes "0 < d"
  shows "\<bar>real (round_half_even n d) - real n / real d\<bar> \<le> 1 / 2"
proof -
  have n: "real n = real d * real (n div d) + real (n mod d)"
    by (metis mult_div_mod_eq of_nat_add of_nat_mult)
  have r: "n mod d < d" using assms by simp
  show ?thesis
    using assms r
    by (auto simp: round_half_even_def Let_def n field_simps abs_le_iff)
qed


lemma powi_nat_split: "(2 :: real) powi s = 2 ^ nat s / 2 ^ nat (- s)"
  by (cases "0 \<le> s") (auto simp: power_int_def divide_simps)

lemma bit_length_real:
  assumes "0 < n"
  shows "2 ^ bit_length n \<le> 2 * real n" "real n < 2 ^ bit_length n"
proof -
  have "real (2 ^ bit_length n) \<le> real (2 * n)" "real n < real (2 ^ bit_length n)"
    using bit_length_bounds [OF assms] by (simp_all only: of_nat_le_iff of_nat_less_iff)
  then show "2 ^ bit_length n \<le> 2 * real n" "real n < 2 ^ bit_length n" by simp_all
qed

text \<open>The scale leaves a quotient of 53 bits, unless the exponent is the least one.\<close>

lemma f64_scale_bounds:
  fixes n d :: nat and k :: int
  assumes "0 < n" "0 < d"
  defines "s \<equiv> f64_scale n d k"
  shows "s \<le> k + 1074" "real n / real d * 2 powi s < 2 ^ 53"
    "s < k + 1074 \<Longrightarrow> 2 ^ 52 \<le> real n / real d * 2 powi s"
proof -
  define s0 where "s0 = 53 + int (bit_length d) - int (bit_length n)"
  define s1 where "s1 = (if d * 2 ^ nat (- s0) * 2 ^ 53 \<le> n * 2 ^ nat s0 then s0 - 1 else s0)"
  have s: "s = min s1 (k + 1074)"
    by (simp add: s_def f64_scale_def s0_def s1_def Let_def)
  let ?x = "real n / real d"
  have x: "0 < ?x" using assms by simp
  note n = bit_length_real [OF assms(1)] and d = bit_length_real [OF assms(2)]
  have p0: "(2 :: real) powi s0 = 2 ^ 53 * 2 ^ bit_length d / 2 ^ bit_length n"
    by (simp add: s0_def power_int_diff power_int_add)
  have low0: "2 ^ 52 \<le> ?x * 2 powi s0"
  proof -
    have "2 ^ 52 * (real d * 2 ^ bit_length n) \<le> 2 ^ 52 * (2 ^ bit_length d * (2 * real n))"
      using n d by (intro mult_left_mono mult_mono) auto
    then show ?thesis
      using assms(1,2) by (simp add: p0 field_simps)
  qed
  have high0: "?x * 2 powi s0 < 2 ^ 54"
  proof -
    have "2 ^ 53 * (real n * 2 ^ bit_length d) < 2 ^ 53 * (2 ^ bit_length n * (2 * real d))"
      using n d assms by (intro mult_strict_left_mono mult_less_le_imp_less) auto
    then show ?thesis
      using assms(1,2) by (simp add: p0 field_simps)
  qed
  have test: "(d * 2 ^ nat (- s0) * 2 ^ 53 \<le> n * 2 ^ nat s0) = (2 ^ 53 \<le> ?x * 2 powi s0)"
  proof -
    have "(d * 2 ^ nat (- s0) * 2 ^ 53 \<le> n * 2 ^ nat s0) =
        (real (d * 2 ^ nat (- s0) * 2 ^ 53) \<le> real (n * 2 ^ nat s0))"
      by (simp only: of_nat_le_iff)
    also have "\<dots> = (2 ^ 53 \<le> ?x * 2 powi s0)"
      using assms(1,2) by (simp add: powi_nat_split field_simps)
    finally show ?thesis .
  qed
  define y where "y = ?x * 2 powi s0"
  have "?x * 2 powi s1 = (if 2 ^ 53 \<le> y then y / 2 else y)"
    unfolding s1_def test y_def by (simp add: power_int_diff)
  then have s1: "2 ^ 52 \<le> ?x * 2 powi s1" "?x * 2 powi s1 < 2 ^ 53"
    using low0 high0 unfolding y_def [symmetric] by (simp_all del: times_divide_eq_left)
  show "s \<le> k + 1074" by (simp add: s)
  show "2 ^ 52 \<le> ?x * 2 powi s" if "s < k + 1074"
    using that s1 by (simp add: s min_def split: if_splits)
  have "?x * 2 powi s \<le> ?x * 2 powi s1"
    using x by (intro mult_left_mono power_int_increasing) (auto simp: s)
  then show "?x * 2 powi s < 2 ^ 53" using s1 by simp
qed

text \<open>The error is at most half a unit in the last place, which is \<open>f64_least_error\<close> for the
  values with the least exponent.\<close>

definition f64_least_error :: real where
  "f64_least_error = 2 powi - 1075"

lemma f64_least_error: "0 < f64_least_error" "f64_least_error \<le> 1 / 1000000000000"
  using power_int_increasing [of "- 1075" "- 40" "2 :: real"]
  by (simp add: f64_least_error_def, simp only: f64_least_error_def) (simp add: power_int_minus)

lemma f64_round_error:
  fixes n d :: nat and k :: int
  assumes "0 < n" "0 < d" "f64_round n d k = (m, e)"
  defines "x \<equiv> real n / real d * 2 powi k"
  shows "\<bar>m * 2 powi e - x\<bar> \<le> max (x * 2 powi - 53) f64_least_error"
    "- 1074 < e \<Longrightarrow> 2 ^ 52 \<le> m"
proof -
  define s where "s = f64_scale n d k"
  have m: "m = round_half_even (n * 2 ^ nat s) (d * 2 ^ nat (- s))" and e: "e = k - s"
    using assms(3) by (simp_all add: f64_round_def s_def Let_def)
  let ?q = "real n / real d * 2 powi s"
  have q: "real (n * 2 ^ nat s) / real (d * 2 ^ nat (- s)) = ?q"
    by (simp add: powi_nat_split)
  have err: "\<bar>m - ?q\<bar> \<le> 1 / 2"
    using round_half_even_error [of "d * 2 ^ nat (- s)" "n * 2 ^ nat s"] assms(2)
    by (simp only: m q) simp
  have x: "x = ?q * 2 powi e"
    by (simp add: x_def e power_int_diff)
  have "\<bar>m * 2 powi e - x\<bar> = \<bar>m - ?q\<bar> * 2 powi e"
    by (simp add: x left_diff_distrib [symmetric] abs_mult del: times_divide_eq_left)
  also have "\<dots> \<le> 1 / 2 * 2 powi e"
    using err by (intro mult_right_mono) auto
  also have "\<dots> \<le> max (x * 2 powi - 53) f64_least_error"
  proof (cases "s < k + 1074")
    case True
    then have "2 ^ 52 \<le> ?q"
      using f64_scale_bounds [OF assms(1,2)] s_def by simp
    then have "2 ^ 52 * 2 powi e * 2 powi - 53 \<le> x * 2 powi - 53"
      unfolding x by (intro mult_right_mono) auto
    then show ?thesis by (simp add: power_int_minus le_max_iff_disj)
  next
    case False
    then have "e = - 1074"
      using f64_scale_bounds(1) [OF assms(1,2), of k] by (simp add: e s_def)
    then show ?thesis by (simp add: power_int_minus le_max_iff_disj f64_least_error_def)
  qed
  finally show "\<bar>m * 2 powi e - x\<bar> \<le> max (x * 2 powi - 53) f64_least_error" .
  show "2 ^ 52 \<le> m" if "- 1074 < e"
  proof -
    have "2 ^ 52 \<le> ?q"
      using f64_scale_bounds [OF assms(1,2)] that by (simp add: e s_def)
    with err have "2 ^ 52 < real m + 1" by linarith
    then show ?thesis by simp
  qed
qed

lemma magnitude_floor_real: "int (magnitude_floor m e) = \<lfloor>m * 2 powi e\<rfloor>"
proof -
  have "real m * 2 powi e = real (m * 2 ^ nat e) / real (2 ^ nat (- e))"
    by (simp add: powi_nat_split)
  then show ?thesis
    by (simp only: magnitude_floor_def floor_divide_of_nat_eq)
qed

lemma f64_overflow_large:
  assumes "0 < n" "0 < d" "f64_round n d k = (m, e)" "1024 < int (bit_length m) + e"
  shows "2 ^ 64 \<le> m * 2 powi e"
proof -
  have m: "0 < m"
    using f64_round_error(2) [OF assms(1-3)] assms(4) by (cases m) auto
  have "(2 :: real) ^ 65 = 2 powi 65" by simp
  also have "\<dots> \<le> 2 powi (int (bit_length m) + e)"
    using assms(4) by (intro power_int_increasing) auto
  also have "\<dots> = 2 ^ bit_length m * 2 powi e"
    by (simp add: power_int_add)
  also have "\<dots> \<le> 2 * m * 2 powi e"
    using bit_length_real(1) [OF m] by (intro mult_right_mono) auto
  finally show ?thesis by simp
qed

text \<open>The casts truncate the rounded value, and saturate.\<close>

lemma f64_cast_rounded:
  fixes n d :: nat and k :: int
  assumes "0 < n" "0 < d" "- (2 ^ 64) \<le> lo" "lo \<le> 0" "0 \<le> hi" "hi \<le> 2 ^ 64"
  defines "x \<equiv> real n / real d * 2 powi k"
  shows "\<exists>v \<ge> 0. \<bar>v - x\<bar> \<le> max (x * 2 powi - 53) f64_least_error \<and>
    f64_cast lo hi (f64_rounded neg n d k) = (if neg then max lo (- \<lfloor>v\<rfloor>) else min hi \<lfloor>v\<rfloor>)"
proof -
  obtain m e where r: "f64_round n d k = (m, e)" by fastforce
  let ?v = "m * 2 powi e"
  have v: "0 \<le> ?v" by simp
  have big: "2 ^ 64 \<le> \<lfloor>?v\<rfloor>" if "1024 < int (bit_length m) + e"
    using f64_overflow_large [OF assms(1,2) r that] by (simp add: le_floor_iff)
  have "f64_cast lo hi (f64_rounded neg n d k) =
      (if neg then max lo (- \<lfloor>?v\<rfloor>) else min hi \<lfloor>?v\<rfloor>)"
  proof (cases "1024 < int (bit_length m) + e")
    case True
    have "max lo (- z) = lo \<and> min hi z = hi" if "2 ^ 64 \<le> z" for z
      using that assms(3-6) by auto
    from this [OF big [OF True]] show ?thesis
      using True by (simp add: f64_rounded_def r)
  next
    case False
    have "max lo (min hi (if neg then - z else z)) = (if neg then max lo (- z) else min hi z)"
      if "0 \<le> z" for z
      using that assms(3-6) by auto
    from this [of "\<lfloor>?v\<rfloor>"] v False show ?thesis
      by (cases neg) (simp_all add: f64_rounded_def r signed_magnitude_def magnitude_floor_real)
  qed
  with v f64_round_error(1) [OF assms(1,2) r] show ?thesis
    unfolding x_def by blast
qed


text \<open>
  A quantity given in a larger unit, multiplied by the size of that unit and truncated: never
  negative for a value that is not, and never more than 1.001 below or 0.001 above the exact
  product, up to the largest \<open>i32\<close>.
\<close>

lemma f64_units_cast:
  assumes "0 < c"
  shows "\<exists>v \<ge> 0. \<bar>v - m * 2 powi e * c\<bar> \<le> max (m * 2 powi e * c * 2 powi - 53) f64_least_error \<and>
    sint (f64_as_i32 (f64_mul (Finite neg m e) (f64_from c))) =
      (if neg then max (- 2147483648) (- \<lfloor>v\<rfloor>) else min 2147483647 \<lfloor>v\<rfloor>)"
proof (cases "m = 0")
  case True
  then show ?thesis
    using f64_least_error(1)
    by (intro exI [of _ 0]) (simp add: f64_as_i32_def f64_from_def magnitude_floor_def signed_magnitude_def)
next
  case False
  let ?x = "m * 2 powi e * c"
  have x: "real (m * c) / real 1 * 2 powi e = ?x" by simp
  obtain v where v: "0 \<le> v" "\<bar>v - ?x\<bar> \<le> max (?x * 2 powi - 53) f64_least_error"
    and cast: "f64_cast (- 2147483648) 2147483647 (f64_rounded neg (m * c) 1 e) =
      (if neg then max (- 2147483648) (- \<lfloor>v\<rfloor>) else min 2147483647 \<lfloor>v\<rfloor>)"
    using f64_cast_rounded [of "m * c" 1 "- 2147483648" 2147483647 e neg, unfolded x] False assms by auto
  have "0 \<le> \<lfloor>v\<rfloor>" using v(1) by simp
  then have "sint (as_i32 (if neg then max (- 2147483648) (- \<lfloor>v\<rfloor>) else min 2147483647 \<lfloor>v\<rfloor>)) =
      (if neg then max (- 2147483648) (- \<lfloor>v\<rfloor>) else min 2147483647 \<lfloor>v\<rfloor>)"
    by (cases neg; simp only: if_True if_False; intro sint_as_i32; linarith)
  moreover have "f64_as_i32 (f64_mul (Finite neg m e) (f64_from c)) =
      as_i32 (f64_cast (- 2147483648) 2147483647 (f64_rounded neg (m * c) 1 e))"
    using False assms by (simp add: f64_as_i32_def f64_from_def)
  ultimately show ?thesis
    using v by (intro exI [of _ v]) (simp only: cast)
qed

lemma f64_units_bounds:
  assumes "0 < c" "x = Finite False m e"
  defines "raw \<equiv> sint (f64_as_i32 (f64_mul x (f64_from c)))"
  shows "0 \<le> raw" "raw \<le> f64_real x * c + 1 / 1000" "min (f64_real x * c) 2147483648 - 1001 / 1000 \<le> raw"
proof -
  define y where "y = m * 2 powi e * c"
  have x: "f64_real x * c = y" using assms(2) by (simp add: y_def)
  obtain v where v: "0 \<le> v" "\<bar>v - y\<bar> \<le> max (y * 2 powi - 53) f64_least_error"
    and raw: "raw = min 2147483647 \<lfloor>v\<rfloor>"
    using f64_units_cast [OF assms(1), of m e False] assms(2) unfolding y_def by (auto simp: raw_def)
  have "2 powi - 53 = (1 / 9007199254740992 :: real)"
    by (simp add: power_int_minus)
  then have err: "\<bar>v - y\<bar> \<le> max (y / 9007199254740992) (1 / 1000)"
    using v(2) f64_least_error(2) by (auto simp: le_max_iff_disj)
  have floor: "\<lfloor>v\<rfloor> \<le> v" "v < \<lfloor>v\<rfloor> + 1" by linarith+
  show "0 \<le> raw" using v(1) by (simp add: raw)
  show "raw \<le> f64_real x * c + 1 / 1000"
  proof (cases "2147483648 \<le> y")
    case True
    then show ?thesis unfolding x raw by linarith
  next
    case False
    with err have "v \<le> y + 1 / 1000" by linarith
    with floor show ?thesis unfolding x raw by linarith
  qed
  show "min (f64_real x * c) 2147483648 - 1001 / 1000 \<le> raw"
  proof (cases "2147483648 \<le> y")
    case True
    with err have "2147483647 \<le> v" by linarith
    then have "2147483647 \<le> \<lfloor>v\<rfloor>" by linarith
    with True show ?thesis unfolding x raw by simp
  next
    case False
    with err have "y - 1 / 1000 \<le> v" by linarith
    with False floor show ?thesis unfolding x raw by linarith
  qed
qed


text \<open>What is a value with a significand of at most 53 bits is not changed by rounding.\<close>

lemma f64_round_exact:
  fixes n d :: nat and k :: int
  assumes "0 < n" "0 < d" "f64_round n d k = (m, e)"
    and "real n / real d * 2 powi k = real N" "N < 2 ^ 53"
  shows "real m * 2 powi e = real N"
proof -
  define s where "s = f64_scale n d k"
  have m: "m = round_half_even (n * 2 ^ nat s) (d * 2 ^ nat (- s))" and e: "e = k - s"
    using assms(3) by (simp_all add: f64_round_def s_def Let_def)
  have split: "real n / real d * 2 powi s = real N * 2 powi (- e)"
  proof -
    have "(2 :: real) powi k * 2 powi (- e) = 2 powi s"
      by (simp add: e power_int_add [symmetric])
    then show ?thesis by (simp add: assms(4) [symmetric])
  qed
  have "e \<le> 0"
  proof (rule ccontr)
    assume "\<not> e \<le> 0"
    then have "1 \<le> e" by simp
    then have "2 ^ 52 \<le> real N * 2 powi (- e)"
      using f64_scale_bounds(3) [OF assms(1,2), of k] split by (simp add: e s_def)
    moreover have "real N * 2 powi (- e) \<le> real N * 2 powi (- 1)"
      using \<open>1 \<le> e\<close> by (intro mult_left_mono power_int_increasing) auto
    moreover have "real N < 2 ^ 53"
      using assms(5) by (metis of_nat_less_iff of_nat_numeral of_nat_power)
    ultimately show False by (simp add: power_int_minus)
  qed
  define q where "q = N * 2 ^ nat (- e)"
  have q: "real n / real d * 2 powi s = real q"
    unfolding split q_def using \<open>e \<le> 0\<close> by (simp add: powi_nat_split)
  then have "real (n * 2 ^ nat s) = real (q * (d * 2 ^ nat (- s)))"
    using assms(2) by (simp add: powi_nat_split field_simps)
  then have "n * 2 ^ nat s = q * (d * 2 ^ nat (- s))"
    by (simp only: of_nat_eq_iff)
  then have "m = q"
    using assms(2) by (simp add: m round_half_even_def Let_def)
  then show ?thesis
    using \<open>e \<le> 0\<close> by (simp add: q_def powi_nat_split)
qed


text \<open>So a whole number of units below \<open>2\<^sup>3\<^sup>1\<close> that is the exact product is converted to that number.\<close>

lemma f64_units_exact:
  assumes "x = Finite False m e" "f64_real x * c = real N" "N \<le> 2147483647"
  shows "sint (f64_as_i32 (f64_mul x (f64_from c))) = int N"
proof (cases "m = 0 \<or> c = 0")
  case True
  then have "N = 0" using assms(1,2) by auto
  with True assms(1) show ?thesis
    by (auto simp: f64_as_i32_def f64_from_def magnitude_floor_def signed_magnitude_def)
next
  case False
  obtain q f where r: "f64_round (m * c) 1 e = (q, f)" by fastforce
  have N: "real (m * c) / real 1 * 2 powi e = real N"
    using assms(1,2) by (simp add: mult_ac)
  have q: "real q * 2 powi f = real N"
    using f64_round_exact [OF _ _ r N] False assms(3) by simp
  have small: "\<not> 1024 < int (bit_length q) + f"
    using f64_overflow_large [OF _ _ r] q False assms(3) by auto
  have "int (magnitude_floor q f) = int N"
    by (simp add: magnitude_floor_real q)
  then show ?thesis
    using False assms(1,3) r small
    by (simp add: f64_as_i32_def f64_from_def f64_rounded_def signed_magnitude_def)
qed


text \<open>Up to \<open>2\<^sup>6\<^sup>2\<close> nothing overflows, and quotient and product are close to the exact ones.\<close>

definition f64_close :: "f64 \<Rightarrow> real \<Rightarrow> bool" where
  "f64_close y x \<longleftrightarrow> (\<exists>m e. y = Finite False m e) \<and>
     \<bar>f64_real y - x\<bar> \<le> max (x / 9007199254740992) f64_least_error"

lemma f64_close_E:
  assumes "f64_close y x"
  obtains m e where "y = Finite False m e" "\<bar>m * 2 powi e - x\<bar> \<le> max (x / 9007199254740992) f64_least_error"
  using assms by (auto simp: f64_close_def)

lemma f64_rounded_close:
  assumes "0 < n" "0 < d" "x = real n / real d * 2 powi k" "x \<le> 2 ^ 62"
  shows "f64_close (f64_rounded False n d k) x"
proof -
  obtain m e where r: "f64_round n d k = (m, e)" by fastforce
  have "2 powi - 53 = (1 / 9007199254740992 :: real)"
    by (simp add: power_int_minus)
  then have err: "\<bar>m * 2 powi e - x\<bar> \<le> max (x / 9007199254740992) f64_least_error"
    using f64_round_error(1) [OF assms(1,2) r] by (simp add: assms(3))
  have "w < 2 ^ 64" if "\<bar>w - x\<bar> \<le> max (x / 9007199254740992) f64_least_error" for w
  proof -
    have "(2 :: real) ^ 62 = 4611686018427387904" "(2 :: real) ^ 64 = 18446744073709551616" by simp_all
    with that assms(4) f64_least_error(2) show ?thesis unfolding le_max_iff_disj by linarith
  qed
  from this [OF err] have "\<not> 1024 < int (bit_length m) + e"
    using f64_overflow_large [OF assms(1,2) r] by fastforce
  with err show ?thesis
    by (simp add: f64_close_def f64_rounded_def r)
qed

lemma f64_close_0: "f64_close (Finite False 0 0) 0"
  using f64_least_error(1) by (simp add: f64_close_def)

lemma f64_div_close:
  assumes "x = Finite False m e" "0 < c" "f64_real x / c \<le> 2 ^ 62"
  shows "f64_close (f64_div x (f64_from c)) (f64_real x / c)"
  using assms f64_close_0 f64_rounded_close [of m c "f64_real x / c" e]
  by (cases "m = 0") (simp_all add: f64_from_def)

lemma f64_mul_close:
  assumes "x = Finite False m e" "0 < c" "f64_real x * c \<le> 2 ^ 62"
  shows "f64_close (f64_mul x (f64_from c)) (f64_real x * c)"
  using assms f64_close_0 f64_rounded_close [of "m * c" 1 "f64_real x * c" e]
  by (cases "m = 0") (simp_all add: f64_from_def mult_ac)


lemma f64_round_int_real: "f64_round_int (Finite s m e) = Finite s (nat \<lfloor>m * 2 powi e + 1 / 2\<rfloor>) 0"
proof -
  have "real m * 2 powi e + 1 / 2 = real (2 * m * 2 ^ nat e + 2 ^ nat (- e)) / real (2 * 2 ^ nat (- e))"
    by (simp add: powi_nat_split field_simps)
  then show ?thesis
    by (simp only: floor_divide_of_nat_eq f64_round_int.simps nat_int)
qed

end
