(* ===== verification/UiManager.thy ===== *)
theory UiManager
  imports HidMessages Float64
begin

text \<open>
  The user interface of the handheld controller (\<open>src/hid/ui_manager.rs\<close>): it turns input
  reports into client messages and keeps the variables shown on the device up to date.

  The outbound channel is the list of reports a call sends; \<open>hid_alive\<close> says whether the I/O
  thread still receives.  \<open>None\<close> is a panic.
\<close>

subsection \<open>State\<close>

record UiManager =
  ui_active_screen :: ScreenSpec
  ui_motion_commands :: "MotionCommand \<times> MotionCommand"
  ui_last_sent_variables :: "u8 \<rightharpoonup> VariableEntry"
  ui_holding_start :: bool

datatype ui_error = HidChannelClosed

definition DEFAULT_COMMAND :: MotionCommand where
  "DEFAULT_COMMAND = \<lparr>position = Position ops_ZERO, velocity = Velocity 1000000,
     acceleration = Acceleration 50000, deceleration = Acceleration 50000\<rparr>"

definition DEFAULT_COMMANDS :: "MotionCommand \<times> MotionCommand" where
  "DEFAULT_COMMANDS = (DEFAULT_COMMAND, DEFAULT_COMMAND)"

text \<open>The constants are what the conversions give, which does not overflow.\<close>

lemma DEFAULT_COMMAND_conversions:
  "Velocity_from_meters_per_second p 1 = Some (velocity DEFAULT_COMMAND)"
  "Acceleration_from_millimeters_per_second_squared p 500 = Some (acceleration DEFAULT_COMMAND)"
  by (simp_all add: DEFAULT_COMMAND_def Velocity_from_meters_per_second_def
      Acceleration_from_millimeters_per_second_squared_def arith_word_def)

definition default_screen :: ScreenSpec where
  "default_screen =
     \<lparr>screen_id = 1,
      encoder_labels =
        (\<lparr>label_primary = ''{10}'', label_secondary = ''{8}''\<rparr>,
         \<lparr>label_primary = ''{11}'', label_secondary = ''{9}''\<rparr>,
         \<lparr>label_primary = ''Speed'', label_secondary = ''Reboot''\<rparr>,
         \<lparr>label_primary = ''Accel.'', label_secondary = ''Zero''\<rparr>),
      left_main = TextLines 0 [''Stroke'', ''{0} to {1}'', ''Speed  {2}'', ''Accel. {3}''],
      left_animation_type = MoveTop,
      left_animation_duration = 300,
      left_animation_delay = 0,
      right_main = TextLines 11 [''{4}'', ''{5} / {6}'', ''{7}''],
      right_animation_type = MoveTop,
      right_animation_duration = 300,
      right_animation_delay = 0\<rparr>"

definition UiManager_new :: UiManager where
  "UiManager_new = \<lparr>ui_active_screen = default_screen, ui_motion_commands = DEFAULT_COMMANDS,
     ui_last_sent_variables = Map.empty, ui_holding_start = False\<rparr>"

definition process_core_message ::
    "bool \<Rightarrow> CoreMessage \<Rightarrow> UiManager \<Rightarrow> ui_error + OutputReport list \<times> UiManager" where
  "process_core_message hid_alive message ui =
     (case message of
        Connected _ _ _ \<Rightarrow>
          if hid_alive
          then Inr ([ScreenSpecReport (ui_active_screen ui)],
                    ui\<lparr>ui_last_sent_variables := Map.empty\<rparr>)
          else Inl HidChannelClosed
      | _ \<Rightarrow> Inr ([], ui))"

subsection \<open>Encoders\<close>

definition update_position :: "nat \<Rightarrow> MotionCommand \<Rightarrow> ClientMessage" where
  "update_position i c = UpdateCommand 0 \<lparr>cu_index = i, cu_fields =
     \<lparr>f_position = Some (position c), f_velocity = None, f_acceleration = None,
      f_deceleration = None\<rparr>\<rparr>"

definition update_velocity :: "nat \<Rightarrow> MotionCommand \<Rightarrow> ClientMessage" where
  "update_velocity i c = UpdateCommand 0 \<lparr>cu_index = i, cu_fields =
     \<lparr>f_position = None, f_velocity = Some (velocity c), f_acceleration = None,
      f_deceleration = None\<rparr>\<rparr>"

definition update_acceleration :: "nat \<Rightarrow> MotionCommand \<Rightarrow> ClientMessage" where
  "update_acceleration i c = UpdateCommand 0 \<lparr>cu_index = i, cu_fields =
     \<lparr>f_position = None, f_velocity = None, f_acceleration = Some (acceleration c),
      f_deceleration = Some (deceleration c)\<rparr>\<rparr>"

text \<open>\<open>x.saturating_add(delta * delta.abs() * scale).clamp(0, limit)\<close>.\<close>

definition quadratic :: "profile \<Rightarrow> int \<Rightarrow> int \<Rightarrow> int option" where
  "quadratic p delta scale = do {
     t \<leftarrow> arith_i32 p (delta * \<bar>delta\<bar>);
     arith_i32 p (t * scale)
   }"

definition cubic :: "profile \<Rightarrow> int \<Rightarrow> int \<Rightarrow> int option" where
  "cubic p delta scale = do {
     t \<leftarrow> arith_i32 p (delta * \<bar>delta\<bar>);
     t \<leftarrow> arith_i32 p (t * \<bar>delta\<bar>);
     arith_i32 p (t * scale)
   }"

definition nudge :: "int \<Rightarrow> i32 \<Rightarrow> i32 \<Rightarrow> i32 option" where
  "nudge t x limit = map_option as_i32 (ord_clamp (saturate_i32 (sint x + t)) 0 (sint limit))"

definition nudge_position ::
    "profile \<Rightarrow> int \<Rightarrow> SystemLimits \<Rightarrow> MotionCommand \<Rightarrow> MotionCommand option" where
  "nudge_position p delta limits c = do {
     t \<leftarrow> quadratic p delta 10000;
     x \<leftarrow> nudge t (position_0 (position c)) (position_0 (limit_position limits));
     Some (c\<lparr>position := Position x\<rparr>)
   }"

definition turn_encoder ::
    "profile \<Rightarrow> SystemLimits \<Rightarrow> nat \<Rightarrow> i8 \<Rightarrow> ClientMessage list \<times> UiManager
     \<Rightarrow> (ClientMessage list \<times> UiManager) option" where
  "turn_encoder p limits i delta8 =
     (\<lambda>(messages, ui).
        if delta8 = 0 then Some (messages, ui)
        else
          let delta = sint delta8; (c0, c1) = ui_motion_commands ui; holding = ui_holding_start ui in
          if i = 0 then do {
            c0 \<leftarrow> nudge_position p delta limits c0;
            let messages = messages @ [update_position 0 c0];
            if holding \<or> position c0 > position c1 then do {
              c1 \<leftarrow> (if \<not> holding then Some (c1\<lparr>position := position c0\<rparr>)
                    else nudge_position p delta limits c1);
              Some (messages @ [update_position 1 c1], ui\<lparr>ui_motion_commands := (c0, c1)\<rparr>)
            } else Some (messages, ui\<lparr>ui_motion_commands := (c0, c1)\<rparr>)
          }
          else if i = 1 then do {
            c1 \<leftarrow> nudge_position p delta limits c1;
            let messages = messages @ [update_position 1 c1];
            if holding \<or> position c1 < position c0 then do {
              c0 \<leftarrow> (if \<not> holding then Some (c0\<lparr>position := position c1\<rparr>)
                    else nudge_position p delta limits c0);
              Some (messages @ [update_position 0 c0], ui\<lparr>ui_motion_commands := (c0, c1)\<rparr>)
            } else Some (messages, ui\<lparr>ui_motion_commands := (c0, c1)\<rparr>)
          }
          else if i = 2 then do {
            t \<leftarrow> quadratic p delta 10000;
            x \<leftarrow> nudge t (velocity_0 (velocity c0)) (velocity_0 (limit_velocity limits));
            let c0 = c0\<lparr>velocity := Velocity x\<rparr>;
            let c1 = c1\<lparr>velocity := velocity c0\<rparr>;
            Some (messages @ [update_velocity 0 c0, update_velocity 1 c1],
                  ui\<lparr>ui_motion_commands := (c0, c1)\<rparr>)
          }
          else if i = 3 then do {
            t \<leftarrow> cubic p delta 1000;
            x \<leftarrow> nudge t (acceleration_0 (acceleration c0)) (acceleration_0 (limit_acceleration limits));
            let c0 = c0\<lparr>acceleration := Acceleration x\<rparr>;
            let c1 = c1\<lparr>acceleration := acceleration c0\<rparr>;
            y \<leftarrow> ord_clamp (sint x) 0 (sint (acceleration_0 (limit_deceleration limits)));
            let c0 = c0\<lparr>deceleration := Acceleration (as_i32 y)\<rparr>;
            let c1 = c1\<lparr>deceleration := deceleration c0\<rparr>;
            Some (messages @ [update_acceleration 0 c0, update_acceleration 1 c1],
                  ui\<lparr>ui_motion_commands := (c0, c1)\<rparr>)
          }
          else Some (messages, ui))"

subsection \<open>Buttons\<close>

definition commands_to_vec :: "MotionCommand \<times> MotionCommand \<Rightarrow> MotionCommand list" where
  "commands_to_vec cs = (case cs of (c0, c1) \<Rightarrow> [c0, c1])"

definition handle_hid_event ::
    "CoreState \<Rightarrow> HidInputEvent \<Rightarrow> ClientMessage list \<times> VariableEntry list \<times> UiManager
     \<Rightarrow> ClientMessage list \<times> VariableEntry list \<times> UiManager" where
  "handle_hid_event core_state event =
     (\<lambda>(messages, variables, ui).
        case event of
          ButtonClick encoder_id \<Rightarrow>
            if encoder_id = 0 then
              (messages @
                 (case cs_drive_state core_state of
                    Off \<Rightarrow> [SetDrivePower 0 True]
                  | Preparing \<Rightarrow> [SetDrivePower 0 False]
                  | Paused \<Rightarrow> [SetDrivePower 0 False]
                  | Moving \<Rightarrow> [SetDrivePower 0 False]
                  | Errored \<Rightarrow> [AcknowledgeError 0]
                  | _ \<Rightarrow> []), variables, ui)
            else if encoder_id = 1 then
              (messages @
                 (case cs_drive_state core_state of
                    Paused \<Rightarrow> [SetMotionState 0 Resume]
                  | Moving \<Rightarrow> [SetMotionState 0 Pause]
                  | _ \<Rightarrow> []), variables, ui)
            else if encoder_id = 2 then
              (messages, variables @ [HardwareControlEntry Reset], ui)
            else if encoder_id = 3 then
              (messages @ [UpsertCommandSet 0 None None (commands_to_vec DEFAULT_COMMANDS)],
               variables, ui\<lparr>ui_motion_commands := DEFAULT_COMMANDS\<rparr>)
            else (messages, variables, ui)
        | ButtonHoldStart encoder_id \<Rightarrow>
            (messages, variables, if encoder_id = 0 then ui\<lparr>ui_holding_start := True\<rparr> else ui)
        | ButtonHoldEnd encoder_id \<Rightarrow>
            (messages, variables, if encoder_id = 0 then ui\<lparr>ui_holding_start := False\<rparr> else ui)
        | _ \<Rightarrow> (messages, variables, ui))"

subsection \<open>LED rings\<close>

definition scale_to_u8 :: "i32 \<Rightarrow> i32 \<Rightarrow> u8" where
  "scale_to_u8 value limit =
     (if sint limit \<le> 0 then 0
      else
        let v = nat (min (max (sint value) 0) (sint limit));
            scaled = f64_mul (f64_div (f64_from v) (f64_from (nat (sint limit)))) (f64_from 255) in
        f64_as_u8 (f64_round_int scaled))"

subsection \<open>Variables\<close>

fun DriveState_debug :: "DriveState \<Rightarrow> string" where
  "DriveState_debug Disconnected = ''Disconnected''"
| "DriveState_debug Off = ''Off''"
| "DriveState_debug Preparing = ''Preparing''"
| "DriveState_debug Paused = ''Paused''"
| "DriveState_debug Moving = ''Moving''"
| "DriveState_debug Errored = ''Errored''"

text \<open>\<open>[String]::join\<close>.\<close>

fun join :: "string \<Rightarrow> string list \<Rightarrow> string" where
  "join sep [] = []"
| "join sep [x] = x"
| "join sep (x # y # xs) = x @ sep @ join sep (y # xs)"

definition as_i16 :: "int \<Rightarrow> i16" where
  "as_i16 x = word_of_int x"

definition screen_variables ::
    "SystemLimits \<Rightarrow> CoreState \<Rightarrow> UiManager \<Rightarrow> VariableEntry list option" where
  "screen_variables limits core_state ui =
     (let (c0, c1) = ui_motion_commands ui; holding = ui_holding_start ui;
          drive_state = cs_drive_state core_state in
      do {
        status \<leftarrow> (case cs_error_code core_state of
            Some error_code \<Rightarrow> CString_new (''Error: '' @ error_code)
          | None \<Rightarrow> CString_new (DriveState_debug drive_state));
        detail \<leftarrow> (if cs_warnings core_state \<noteq> []
          then map_option (ShortString 7) (CString_new (join '', '' (cs_warnings core_state)))
          else Some (FixedPoint 7 2
                 (as_i16 (trunc_div (sint (current_0 (cs_current_draw core_state))) 10))));
        Some
          [HardwareControlEntry (SleepLevel (drive_state = Disconnected \<or> drive_state = Off)),
           HardwareControlEntry (LedRingValue 0
             (scale_to_u8 (position_0 (position c0)) (position_0 (limit_position limits)))),
           HardwareControlEntry (LedRingValue 1
             (scale_to_u8 (position_0 (position c1)) (position_0 (limit_position limits)))),
           HardwareControlEntry (LedRingValue 2
             (scale_to_u8 (velocity_0 (velocity c0)) (velocity_0 (limit_velocity limits)))),
           HardwareControlEntry (LedRingValue 3
             (scale_to_u8 (acceleration_0 (acceleration c0))
                (acceleration_0 (limit_acceleration limits)))),
           FixedPoint 0 0 (as_i16 (trunc_div (sint (position_0 (position c0))) 10000)),
           FixedPoint 1 0 (as_i16 (trunc_div (sint (position_0 (position c1))) 10000)),
           FixedPoint 2 2 (as_i16 (trunc_div (sint (velocity_0 (velocity c0))) 10000)),
           FixedPoint 3 2 (as_i16 (trunc_div (sint (acceleration_0 (acceleration c0))) 1000)),
           ShortString 4 status,
           FixedPoint 5 2
             (as_i16 (trunc_div (sint (position_0 (cs_actual_position core_state))) 100)),
           FixedPoint 6 2
             (as_i16 (trunc_div (sint (position_0 (cs_demand_position core_state))) 100)),
           detail,
           ShortString 8
             (case drive_state of
                Off \<Rightarrow> ''Enable''
              | Preparing \<Rightarrow> ''Disable'' | Paused \<Rightarrow> ''Disable'' | Moving \<Rightarrow> ''Disable''
              | Errored \<Rightarrow> ''Ack.''
              | _ \<Rightarrow> ''''),
           ShortString 9
             (case drive_state of Paused \<Rightarrow> ''Resume'' | Moving \<Rightarrow> ''Pause'' | _ \<Rightarrow> ''''),
           ShortString 10 (if \<not> holding then ''Start'' else ''''),
           ShortString 11 (if \<not> holding then ''End'' else ''Stroke'')]
      })"

fun get_variable_key :: "VariableEntry \<Rightarrow> u8" where
  "get_variable_key (FixedPoint index _ _) = index"
| "get_variable_key (ShortString index _) = index"
| "get_variable_key (HardwareControlEntry hc) =
     0x80 OR (case hc of LedRingValue ring_id _ \<Rightarrow> ring_id | Reset \<Rightarrow> 5 | SleepLevel _ \<Rightarrow> 6)"

text \<open>\<open>retain\<close> with the closure that remembers what was sent.\<close>

fun retain_changed ::
    "VariableEntry list \<Rightarrow> (u8 \<rightharpoonup> VariableEntry) \<Rightarrow> VariableEntry list \<times> (u8 \<rightharpoonup> VariableEntry)" where
  "retain_changed [] sent = ([], sent)"
| "retain_changed (v # vs) sent =
     (let key = get_variable_key v in
      if sent key = Some v then retain_changed vs sent
      else
        let (kept, sent') = retain_changed vs (sent(key \<mapsto> v)) in
        (v # kept, sent'))"

subsection \<open>Input reports\<close>

definition turn_encoders ::
    "profile \<Rightarrow> SystemLimits \<Rightarrow> i8 \<times> i8 \<times> i8 \<times> i8 \<Rightarrow> UiManager
     \<Rightarrow> (ClientMessage list \<times> UiManager) option" where
  "turn_encoders p limits deltas ui =
     (case deltas of (d0, d1, d2, d3) \<Rightarrow>
      do {
        s \<leftarrow> turn_encoder p limits 0 d0 ([], ui);
        s \<leftarrow> turn_encoder p limits 1 d1 s;
        s \<leftarrow> turn_encoder p limits 2 d2 s;
        turn_encoder p limits 3 d3 s
      })"

definition process_input_report ::
    "profile \<Rightarrow> bool \<Rightarrow> InputReport \<Rightarrow> SystemLimits \<Rightarrow> CoreState \<Rightarrow> UiManager
     \<Rightarrow> (ui_error + ClientMessage list \<times> OutputReport list \<times> UiManager) option" where
  "process_input_report p hid_alive report limits core_state ui =
     (if cs_write_access_holder core_state \<noteq> Some Hid then
        Some (Inr ([RequestWriteAccess 0,
                    UpsertCommandSet 0 None None (commands_to_vec (ui_motion_commands ui))], [], ui))
      else do {
        (messages, ui) \<leftarrow> turn_encoders p limits (ir_encoder_deltas report) ui;
        let (messages, variables, ui) =
          fold (handle_hid_event core_state) (ir_events report) (messages, [], ui);
        screen \<leftarrow> screen_variables limits core_state ui;
        let (variables, sent) = retain_changed (variables @ screen) (ui_last_sent_variables ui);
        let ui = ui\<lparr>ui_last_sent_variables := sent\<rparr>;
        if variables \<noteq> [] then
          if hid_alive then Some (Inr (messages, [VariableUpdate variables], ui))
          else Some (Inl HidChannelClosed)
        else Some (Inr (messages, [], ui))
      })"

end
