(* ===== verification/Core.thy ===== *)
theory Core
  imports Drive UiManager
begin

text \<open>
  The core (\<open>src/main.rs\<close>): it owns the write access, the command sets and the interface to the
  drive, and processes one event at a time from the controllers and the drive thread.

  A step returns what \<open>Result<()>\<close> it ends with and the state at that point, so that what was
  sent before an error is kept; an error ends the program.  A panic is the error \<open>Panic\<close>.
\<close>

subsection \<open>State\<close>

text \<open>Deliveries, in order: a message given to the user interface of the handheld controller, a
  report sent to the device, a message sent to one WebSocket connection or to all of them.\<close>

datatype delivery =
    ToUi CoreMessage
  | ToHid OutputReport
  | ToWebSocket "nat option" CoreMessage

record CoreManager =
  cm_limits :: SystemLimits
  cm_drive :: DriveInterface
  cm_hid_ui :: "UiManager option"
  cm_websocket_server :: bool \<comment> \<open>whether it is enabled\<close>
  cm_core_state :: CoreState
  cm_active_command_set :: "u64 \<times> MotionCommand list"
  cm_saved_command_sets :: "string \<rightharpoonup> u64 \<times> MotionCommand list"
  cm_sent :: "delivery list" \<comment> \<open>not in the code: everything sent so far\<close>

definition CoreManager_new :: "SystemLimits \<Rightarrow> bool \<Rightarrow> bool \<Rightarrow> CoreManager" where
  "CoreManager_new limits hid_io websocket_server =
     \<lparr>cm_limits = limits,
      cm_drive = DriveInterface_default,
      cm_hid_ui = (if hid_io then Some UiManager_new else None),
      cm_websocket_server = websocket_server,
      cm_core_state = CoreState_default,
      cm_active_command_set = (0, []),
      cm_saved_command_sets = Map.empty,
      cm_sent = []\<rparr>"

datatype core_error =
    Panic
  | HidNotEnabled
  | WebSocketNotEnabled
  | HidError ui_error
  | WebSocketClosed

text \<open>
  The surroundings of one event: the build profile; whether the receivers of the outbound
  channels are alive, for each delivery separately (counted by what was sent before); and the
  order in which a \<open>HashMap\<close> yields its keys.
\<close>

record core_env =
  ce_profile :: profile
  ce_hid_alive :: "nat \<Rightarrow> bool"
  ce_websocket_alive :: "nat \<Rightarrow> bool"
  ce_iter :: "(string \<rightharpoonup> u64 \<times> MotionCommand list) \<Rightarrow> string list"

type_synonym step = "CoreManager \<Rightarrow> (core_error + unit) \<times> CoreManager"

definition ok :: step where
  "ok cm = (Inr (), cm)"

definition panic :: step where
  "panic cm = (Inl Panic, cm)"

text \<open>\<open>a?; b\<close>.\<close>

definition and_then :: "step \<Rightarrow> step \<Rightarrow> step" where
  "and_then a b cm = (case a cm of (Inl e, cm) \<Rightarrow> (Inl e, cm) | (Inr _, cm) \<Rightarrow> b cm)"

subsection \<open>Sending\<close>

definition send_hid :: "core_env \<Rightarrow> CoreMessage \<Rightarrow> UiManager \<Rightarrow> step" where
  "send_hid env message ui cm =
     (case process_core_message (ce_hid_alive env (length (cm_sent cm))) message ui of
        Inl e \<Rightarrow> (Inl (HidError e), cm)
      | Inr (reports, ui) \<Rightarrow>
          (Inr (), cm\<lparr>cm_hid_ui := Some ui,
                      cm_sent := cm_sent cm @ ToUi message # map ToHid reports\<rparr>))"

definition send_websocket :: "core_env \<Rightarrow> nat option \<Rightarrow> CoreMessage \<Rightarrow> step" where
  "send_websocket env token message cm =
     (if ce_websocket_alive env (length (cm_sent cm))
      then (Inr (), cm\<lparr>cm_sent := cm_sent cm @ [ToWebSocket token message]\<rparr>)
      else (Inl WebSocketClosed, cm))"

definition send :: "core_env \<Rightarrow> ControllerId option \<Rightarrow> CoreMessage \<Rightarrow> step" where
  "send env destination message cm =
     (case destination of
        Some Hid \<Rightarrow>
          (case cm_hid_ui cm of
             Some ui \<Rightarrow> send_hid env message ui cm
           | None \<Rightarrow> (Inl HidNotEnabled, cm))
      | Some (WebSocket token) \<Rightarrow>
          if cm_websocket_server cm then send_websocket env (Some token) message cm
          else (Inl WebSocketNotEnabled, cm)
      | None \<Rightarrow>
          and_then
            (\<lambda>cm. case cm_hid_ui cm of Some ui \<Rightarrow> send_hid env message ui cm | None \<Rightarrow> ok cm)
            (\<lambda>cm. if cm_websocket_server cm then send_websocket env None message cm else ok cm)
            cm)"

subsection \<open>The drive interface\<close>

definition lock_commands :: "(DriveCommands \<Rightarrow> DriveCommands) \<Rightarrow> CoreManager \<Rightarrow> CoreManager" where
  "lock_commands f cm =
     cm\<lparr>cm_drive := (cm_drive cm)\<lparr>di_commands := f (di_commands (cm_drive cm))\<rparr>\<rparr>"

definition send_actions :: "u8 \<Rightarrow> CoreManager \<Rightarrow> CoreManager" where
  "send_actions bits cm =
     cm\<lparr>cm_drive := (cm_drive cm)\<lparr>di_actions := DriveActions_send bits (di_actions (cm_drive cm))\<rparr>\<rparr>"

definition clamp_command :: "SystemLimits \<Rightarrow> MotionCommand \<Rightarrow> MotionCommand option" where
  "clamp_command limits c = do {
     pos \<leftarrow> ord_clamp (position c) (Position 0) (limit_position limits);
     vel \<leftarrow> ord_clamp (velocity c) (Velocity 0) (limit_velocity limits);
     acc \<leftarrow> ord_clamp (acceleration c) (Acceleration 0) (limit_acceleration limits);
     dec \<leftarrow> ord_clamp (deceleration c) (Acceleration 0) (limit_deceleration limits);
     Some \<lparr>position = pos, velocity = vel, acceleration = acc, deceleration = dec\<rparr>
   }"

fun clamp_commands :: "SystemLimits \<Rightarrow> MotionCommand list \<Rightarrow> MotionCommand list option" where
  "clamp_commands limits [] = Some []"
| "clamp_commands limits (c # cs) = do {
     c \<leftarrow> clamp_command limits c;
     cs \<leftarrow> clamp_commands limits cs;
     Some (c # cs)
   }"

text \<open>A clamp panics when a limit is negative, so on the first command, after the list was
  cleared.\<close>

definition sync_commands_to_drive :: step where
  "sync_commands_to_drive cm =
     (let (version, commands) = cm_active_command_set cm;
          cm = cm\<lparr>cm_core_state := (cm_core_state cm)\<lparr>cs_command_set_version := version\<rparr>\<rparr> in
      case clamp_commands (cm_limits cm) commands of
        None \<Rightarrow> panic (lock_commands (dc_commands_update (\<lambda>_. [])) cm)
      | Some limited \<Rightarrow> ok (lock_commands (dc_commands_update (\<lambda>_. limited)) cm))"

definition next_version :: "core_env \<Rightarrow> u64 \<Rightarrow> u64 option" where
  "next_version env version = map_option word_of_int (arith_u64 (ce_profile env) (uint version + 1))"

subsection \<open>Client messages\<close>

definition holder :: "CoreManager \<Rightarrow> ControllerId option" where
  "holder cm = cs_write_access_holder (cm_core_state cm)"

definition set_holder :: "ControllerId option \<Rightarrow> CoreManager \<Rightarrow> CoreManager" where
  "set_holder h cm = cm\<lparr>cm_core_state := (cm_core_state cm)\<lparr>cs_write_access_holder := h\<rparr>\<rparr>"

definition reject :: "core_env \<Rightarrow> ControllerId \<Rightarrow> u64 \<Rightarrow> AckFailureReason \<Rightarrow> step" where
  "reject env c seq reason = send env (Some c) (Ack seq False (Some reason))"

definition request_write_access :: "core_env \<Rightarrow> ControllerId \<Rightarrow> u64 \<Rightarrow> step" where
  "request_write_access env c seq cm =
     (if cs_drive_state (cm_core_state cm) = Off \<or> holder cm = None \<or> c = Hid then
        let previous_holder = holder cm; cm = set_holder (Some c) cm in
        and_then
          (if previous_holder \<noteq> Some c
           then send env None (WriteAccessChanged (Some c) previous_holder) else ok)
          (send env (Some c) (WriteAccessResult seq True (Some c)))
          cm
      else send env (Some c) (WriteAccessResult seq False (holder cm)) cm)"

definition release_write_access :: "core_env \<Rightarrow> ControllerId \<Rightarrow> u64 \<Rightarrow> step" where
  "release_write_access env c seq cm =
     (if holder cm = Some c then
        and_then (send env None (WriteAccessChanged None (Some c)))
          (send env (Some c) (Ack seq True None)) (set_holder None cm)
      else reject env c seq NotWriter cm)"

definition get_command_set :: "core_env \<Rightarrow> ControllerId \<Rightarrow> u64 \<Rightarrow> CommandSetId \<Rightarrow> step" where
  "get_command_set env c seq set_id cm =
     (case set_id of
        Some set_name \<Rightarrow>
          (case cm_saved_command_sets cm set_name of
             Some (version, commands) \<Rightarrow> send env (Some c) (CommandSet seq set_id version commands) cm
           | None \<Rightarrow> reject env c seq NotFound cm)
      | None \<Rightarrow>
          (case cm_active_command_set cm of
             (version, commands) \<Rightarrow> send env (Some c) (CommandSet seq set_id version commands) cm))"

text \<open>Replacing the active command set, as upserting and deleting it do.\<close>

definition replace_active_command_set ::
    "core_env \<Rightarrow> ControllerId \<Rightarrow> u64 \<Rightarrow> u64 option \<Rightarrow> MotionCommand list \<Rightarrow> step" where
  "replace_active_command_set env c seq base_version new_commands cm =
     (if holder cm = Some c then
        if base_version = None \<or> base_version = Some (fst (cm_active_command_set cm)) then
          (case next_version env (fst (cm_active_command_set cm)) of
             None \<Rightarrow> panic cm
           | Some version \<Rightarrow>
               and_then sync_commands_to_drive
                 (\<lambda>cm. and_then
                    (send env None (CommandSetChanged (fst (cm_active_command_set cm)) None))
                    (\<lambda>cm. send env (Some c)
                       (CommandResult seq True (fst (cm_active_command_set cm))) cm)
                    (send_actions ACTION_RESET_INDEX cm))
                 (cm\<lparr>cm_active_command_set := (version, new_commands)\<rparr>))
        else send env (Some c) (CommandResult seq False (fst (cm_active_command_set cm))) cm
      else reject env c seq NotWriter cm)"

definition upsert_command_set ::
    "core_env \<Rightarrow> ControllerId \<Rightarrow> u64 \<Rightarrow> CommandSetId \<Rightarrow> u64 option \<Rightarrow> MotionCommand list \<Rightarrow> step" where
  "upsert_command_set env c seq set_id base_version new_commands cm =
     (case set_id of
        Some set_name \<Rightarrow>
          (case cm_saved_command_sets cm set_name of
             Some (version, commands) \<Rightarrow>
               if base_version = None \<or> base_version = Some version then
                 (case next_version env version of
                    None \<Rightarrow> panic cm
                  | Some version \<Rightarrow>
                      send env (Some c) (CommandResult seq True version)
                        (cm\<lparr>cm_saved_command_sets :=
                          (cm_saved_command_sets cm)(set_name \<mapsto> (version, new_commands))\<rparr>))
               else send env (Some c) (CommandResult seq False version) cm
           | None \<Rightarrow>
               send env (Some c) (CommandResult seq True 1)
                 (cm\<lparr>cm_saved_command_sets :=
                   (cm_saved_command_sets cm)(set_name \<mapsto> (1, new_commands))\<rparr>))
      | None \<Rightarrow> replace_active_command_set env c seq base_version new_commands cm)"

definition update_command :: "core_env \<Rightarrow> ControllerId \<Rightarrow> u64 \<Rightarrow> CommandUpdate \<Rightarrow> step" where
  "update_command env c seq upd cm =
     (if holder cm = Some c then
        let (version, commands) = cm_active_command_set cm in
        if cu_index upd < length commands then
          let (command, changed) = apply_fields (cu_fields upd) (commands ! cu_index upd);
              commands = commands[cu_index upd := command];
              cm = cm\<lparr>cm_active_command_set := (version, commands)\<rparr> in
          and_then
            (if changed then
               (case next_version env version of
                  None \<Rightarrow> panic
                | Some version \<Rightarrow>
                    (\<lambda>cm. and_then sync_commands_to_drive
                       (send env None (CommandSetChanged version (Some upd)))
                       (cm\<lparr>cm_active_command_set := (version, commands)\<rparr>)))
             else ok)
            (\<lambda>cm. send env (Some c) (CommandResult seq True (fst (cm_active_command_set cm))) cm)
            cm
        else reject env c seq OutOfRange cm
      else reject env c seq NotWriter cm)"

definition delete_command_set ::
    "core_env \<Rightarrow> ControllerId \<Rightarrow> u64 \<Rightarrow> CommandSetId \<Rightarrow> u64 option \<Rightarrow> step" where
  "delete_command_set env c seq set_id base_version cm =
     (case set_id of
        Some set_name \<Rightarrow>
          (case cm_saved_command_sets cm set_name of
             Some (version, commands) \<Rightarrow>
               if base_version = None \<or> base_version = Some version then
                 send env (Some c) (Ack seq True None)
                   (cm\<lparr>cm_saved_command_sets := (cm_saved_command_sets cm)(set_name := None)\<rparr>)
               else send env (Some c) (CommandResult seq False version) cm
           | None \<Rightarrow> reject env c seq NotFound cm)
      | None \<Rightarrow> replace_active_command_set env c seq base_version [] cm)"

text \<open>Every key the iteration yields is in the map.\<close>

definition saved_set_metadata ::
    "core_env \<Rightarrow> (string \<rightharpoonup> u64 \<times> MotionCommand list) \<Rightarrow> SavedSetMetadata list" where
  "saved_set_metadata env saved =
     map (\<lambda>name. \<lparr>sm_name = name, sm_version = fst (the (saved name)), sm_saved_at = ''''\<rparr>)
       (ce_iter env saved)"

definition list_saved_sets :: "core_env \<Rightarrow> ControllerId \<Rightarrow> u64 \<Rightarrow> step" where
  "list_saved_sets env c seq cm =
     send env (Some c) (SavedSetList seq (saved_set_metadata env (cm_saved_command_sets cm))) cm"

definition set_drive_power :: "core_env \<Rightarrow> ControllerId \<Rightarrow> u64 \<Rightarrow> bool \<Rightarrow> step" where
  "set_drive_power env c seq enabled cm =
     (if holder cm = Some c then
        send env (Some c) (Ack seq True None)
          (lock_commands (\<lambda>commands. commands\<lparr>dc_power_enabled := enabled,
             dc_motion_enabled := enabled \<and> dc_motion_enabled commands\<rparr>) cm)
      else reject env c seq NotWriter cm)"

definition motion_action_valid :: "MotionAction \<Rightarrow> DriveState \<Rightarrow> bool" where
  "motion_action_valid action drive_state =
     (case (action, drive_state) of
        (Start, Paused) \<Rightarrow> True
      | (Pause, Moving) \<Rightarrow> True
      | (Resume, Paused) \<Rightarrow> True
      | (Stop, Moving) \<Rightarrow> True
      | (Stop, Paused) \<Rightarrow> True
      | _ \<Rightarrow> False)"

definition set_motion_state :: "core_env \<Rightarrow> ControllerId \<Rightarrow> u64 \<Rightarrow> MotionAction \<Rightarrow> step" where
  "set_motion_state env c seq action cm =
     (if holder cm = Some c then
        if \<not> motion_action_valid action (cs_drive_state (cm_core_state cm)) then
          reject env c seq InvalidState cm
        else
          let cm = lock_commands (dc_motion_enabled_update (\<lambda>_.
                case action of Start \<Rightarrow> True | Resume \<Rightarrow> True | Stop \<Rightarrow> False | Pause \<Rightarrow> False)) cm;
              cm = (if action = Start \<or> action = Stop then send_actions ACTION_RESET_INDEX cm
                    else cm) in
          send env (Some c) (Ack seq True None) cm
      else reject env c seq NotWriter cm)"

definition acknowledge_error :: "core_env \<Rightarrow> ControllerId \<Rightarrow> u64 \<Rightarrow> step" where
  "acknowledge_error env c seq cm =
     (if holder cm = Some c then
        if cs_drive_state (cm_core_state cm) \<noteq> Errored then reject env c seq InvalidState cm
        else send env (Some c) (Ack seq True None) (send_actions ACTION_ACK_ERROR cm)
      else reject env c seq NotWriter cm)"

definition handle_message :: "core_env \<Rightarrow> ControllerId \<Rightarrow> ClientMessage \<Rightarrow> step" where
  "handle_message env c message cm =
     (case message of
        RequestWriteAccess seq \<Rightarrow> request_write_access env c seq cm
      | ReleaseWriteAccess seq \<Rightarrow> release_write_access env c seq cm
      | GetState seq \<Rightarrow> send env (Some c) (StateMessage (Some seq) (cm_core_state cm)) cm
      | GetCommandSet seq set_id \<Rightarrow> get_command_set env c seq set_id cm
      | UpsertCommandSet seq set_id base_version commands \<Rightarrow>
          upsert_command_set env c seq set_id base_version commands cm
      | UpdateCommand seq upd \<Rightarrow> update_command env c seq upd cm
      | DeleteCommandSet seq set_id base_version \<Rightarrow>
          delete_command_set env c seq set_id base_version cm
      | ListSavedSets seq \<Rightarrow> list_saved_sets env c seq cm
      | SetDrivePower seq enabled \<Rightarrow> set_drive_power env c seq enabled cm
      | SetMotionState seq action \<Rightarrow> set_motion_state env c seq action cm
      | AcknowledgeError seq \<Rightarrow> acknowledge_error env c seq cm)"

subsection \<open>Events\<close>

datatype CoreEvent =
    ControllerConnected ControllerId
  | ControllerDisconnected ControllerId
  | Message ControllerId ClientMessage
  | DriveStateUpdated DriveFeedback
  | HidInputReport InputReport

definition state_after_feedback :: "DriveFeedback \<Rightarrow> CoreState \<Rightarrow> CoreState" where
  "state_after_feedback feedback cs =
     cs\<lparr>cs_drive_state := fb_drive_state feedback,
        cs_active_command_index := fb_active_command_index feedback,
        cs_actual_position := fb_actual_position feedback,
        cs_demand_position := fb_demand_position feedback,
        cs_demand_velocity := fb_demand_velocity feedback,
        cs_demand_acceleration := fb_demand_acceleration feedback,
        cs_current_draw := fb_current_draw feedback,
        cs_drive_temperature := fb_drive_temperature feedback,
        cs_motor_temperature := fb_motor_temperature feedback,
        cs_warnings := WarningFlags_display (fb_warning_flags feedback),
        cs_error_code := (if fb_error_code feedback = NoError then None
          else Some (ErrorCode_display (fb_error_code feedback)))\<rparr>"

definition controller_disconnected :: "core_env \<Rightarrow> ControllerId \<Rightarrow> step" where
  "controller_disconnected env c cm =
     (if holder cm = Some c then
        send env None (WriteAccessChanged None (Some c))
          (lock_commands (\<lambda>commands. commands\<lparr>dc_power_enabled := False, dc_motion_enabled := False\<rparr>)
            (set_holder None cm))
      else ok cm)"

fun handle_messages :: "core_env \<Rightarrow> ControllerId \<Rightarrow> ClientMessage list \<Rightarrow> step" where
  "handle_messages env c [] = ok"
| "handle_messages env c (m # ms) = and_then (handle_message env c m) (handle_messages env c ms)"

definition hid_input_report :: "core_env \<Rightarrow> InputReport \<Rightarrow> step" where
  "hid_input_report env report cm =
     (case cm_hid_ui cm of
        None \<Rightarrow> ok cm
      | Some ui \<Rightarrow>
          (case process_input_report (ce_profile env) (ce_hid_alive env (length (cm_sent cm)))
                  report (cm_limits cm) (cm_core_state cm) ui of
             None \<Rightarrow> panic cm
           | Some (Inl e) \<Rightarrow> (Inl (HidError e), cm)
           | Some (Inr (messages, reports, ui)) \<Rightarrow>
               handle_messages env Hid messages
                 (cm\<lparr>cm_hid_ui := Some ui, cm_sent := cm_sent cm @ map ToHid reports\<rparr>)))"

definition handle_event :: "core_env \<Rightarrow> CoreEvent \<Rightarrow> step" where
  "handle_event env event cm =
     (case event of
        ControllerConnected c \<Rightarrow>
          send env (Some c) (Connected c (cm_limits cm) (cm_core_state cm)) cm
      | ControllerDisconnected c \<Rightarrow> controller_disconnected env c cm
      | Message c message \<Rightarrow> handle_message env c message cm
      | DriveStateUpdated feedback \<Rightarrow>
          let cm = cm\<lparr>cm_core_state := state_after_feedback feedback (cm_core_state cm)\<rparr> in
          send env None (StateMessage None (cm_core_state cm)) cm
      | HidInputReport report \<Rightarrow> hid_input_report env report cm)"

text \<open>The loop of \<open>main\<close>, on the events it receives: the first error ends it.\<close>

fun run_core :: "(core_env \<times> CoreEvent) list \<Rightarrow> step" where
  "run_core [] = ok"
| "run_core ((env, event) # events) = and_then (handle_event env event) (run_core events)"

end
