(* ===== verification/Hid.thy ===== *)
theory Hid
  imports Core
begin

text \<open>
  The HID protocol and its I/O thread (\<open>src/hid.rs\<close>): the codecs of the reports, and the loop that
  exchanges them with the device.

  \<open>hidapi\<close> is outside: a read is the bytes it delivers or an error, and a write succeeds or fails,
  given for each write separately (counted by what was written before).  \<open>None\<close> is a panic.
\<close>

subsection \<open>Buffers\<close>

definition HID_REPORT_LEN :: nat where "HID_REPORT_LEN = 64"

definition SUPPORTED_FIRMWARE_MAJOR :: u8 where "SUPPORTED_FIRMWARE_MAJOR = 0x01"

datatype hid_error =
    DeviceError
  | DeviceInfoTooShort
  | UnsupportedFirmware u8 u8
  | ScreenSpecTooLarge nat
  | TextLinesTooLong nat
  | MenuTooLong nat
  | ItemIdOutOfRange u8
  | VariableEntryTooLarge nat
  | InvalidVariableIndex u8
  | InvalidRingId u8
  | InputReportTooShort
  | InvalidEventSize
  | CoreGone

text \<open>A read of at most the length of the buffer: what the buffer holds, and the length read.\<close>

definition read_into :: "u8 list \<Rightarrow> u8 list \<Rightarrow> u8 list \<times> nat" where
  "read_into buf bytes =
     (let len = min (length bytes) (length buf) in (take len bytes @ drop len buf, len))"

text \<open>\<open>buf[i] = x\<close> and \<open>buf[start..start + bytes.len()].copy_from_slice(bytes)\<close>.\<close>

definition set_byte :: "nat \<Rightarrow> u8 \<Rightarrow> u8 list \<Rightarrow> u8 list option" where
  "set_byte i x buf = (if i < length buf then Some (buf[i := x]) else None)"

definition copy_from_slice :: "nat \<Rightarrow> u8 list \<Rightarrow> u8 list \<Rightarrow> u8 list option" where
  "copy_from_slice start bytes buf =
     (if start + length bytes \<le> length buf
      then Some (take start buf @ bytes @ drop (start + length bytes) buf) else None)"

subsection \<open>Device information\<close>

definition read_device_info :: "hid_error + u8 list \<Rightarrow> hid_error + DeviceInfo" where
  "read_device_info feature_report =
     andthen feature_report (\<lambda>bytes.
       let (report_buf, len) = read_into ((replicate HID_REPORT_LEN 0)[0 := 0x01]) bytes in
       if len < 4 then Inl DeviceInfoTooShort
       else Inr \<lparr>firmware_version_major = report_buf ! 1, firmware_version_minor = report_buf ! 2,
                 features = report_buf ! 3\<rparr>)"

subsection \<open>Screens\<close>

definition encode_label :: "EncoderLabel \<Rightarrow> u8 list" where
  "encode_label label =
     as_bytes_with_nul (label_primary label) @ as_bytes_with_nul (label_secondary label)"

fun encode_items :: "MenuItem list \<Rightarrow> hid_error + u8 list" where
  "encode_items [] = Inr []"
| "encode_items (item # items) =
     (if item_id item > 63 then Inl (ItemIdOutOfRange (item_id item))
      else andthen (encode_items items) (\<lambda>payload.
        Inr (item_id item # of_bool (item_enabled item) # as_bytes_with_nul (item_label item) @ payload)))"

fun encode_content :: "DisplayContent \<Rightarrow> hid_error + u8 list" where
  "encode_content (TextLines top_margin ls) =
     (if length ls > 255 then Inl (TextLinesTooLong (length ls))
      else Inr (0x00 # top_margin # of_nat (length ls) # concat (map as_bytes_with_nul ls)))"
| "encode_content (Menu top_margin title items) =
     (if length items > 255 then Inl (MenuTooLong (length items))
      else andthen (encode_items items) (\<lambda>payload.
        Inr (0x01 # top_margin # as_bytes_with_nul title @ of_nat (length items) # payload)))"

definition encode_area :: "DisplayContent \<Rightarrow> ScreenAnimation \<Rightarrow> u16 \<Rightarrow> u16 \<Rightarrow> hid_error + u8 list" where
  "encode_area content animation_type animation_duration animation_delay =
     andthen (encode_content content) (\<lambda>payload.
       Inr (payload @ ScreenAnimation_to_u8 animation_type #
            to_le_bytes animation_duration @ to_le_bytes animation_delay))"

definition ScreenSpec_encode :: "ScreenSpec \<Rightarrow> hid_error + u8 list" where
  "ScreenSpec_encode spec =
     (case encoder_labels spec of (l0, l1, l2, l3) \<Rightarrow>
      andthen (encode_area (left_main spec) (left_animation_type spec)
          (left_animation_duration spec) (left_animation_delay spec)) (\<lambda>left.
      andthen (encode_area (right_main spec) (right_animation_type spec)
          (right_animation_duration spec) (right_animation_delay spec)) (\<lambda>right.
      Inr (encode_label l0 @ encode_label l1 @ encode_label l2 @ encode_label l3 @ left @ right))))"

definition HEADER_LEN :: nat where "HEADER_LEN = 4"

definition PAYLOAD_PER_FRAGMENT :: nat where
  "PAYLOAD_PER_FRAGMENT = HID_REPORT_LEN - HEADER_LEN"

text \<open>A \<open>write\<close> of a report, given the reports written before.\<close>

definition device_write ::
    "(nat \<Rightarrow> bool) \<Rightarrow> u8 list \<Rightarrow> u8 list list \<Rightarrow> (hid_error + unit) \<times> u8 list list" where
  "device_write write_ok report written =
     (if write_ok (length written) then (Inr (), written @ [report]) else (Inl DeviceError, written))"

definition fragment :: "u8 \<Rightarrow> nat \<Rightarrow> u8 list \<Rightarrow> nat \<Rightarrow> u8 list option" where
  "fragment screen fragment_count payload i = do {
     buf \<leftarrow> set_byte 0 0x01 (replicate HID_REPORT_LEN 0);
     buf \<leftarrow> set_byte 1 screen buf;
     buf \<leftarrow> set_byte 2 (of_nat fragment_count) buf;
     buf \<leftarrow> set_byte 3 (of_nat i) buf;
     let first = i * PAYLOAD_PER_FRAGMENT;
     let past = min ((i + 1) * PAYLOAD_PER_FRAGMENT) (length payload);
     if first \<le> past then copy_from_slice HEADER_LEN (take (past - first) (drop first payload)) buf
     else None
   }"

fun send_fragments ::
    "(nat \<Rightarrow> bool) \<Rightarrow> u8 \<Rightarrow> nat \<Rightarrow> u8 list \<Rightarrow> nat list \<Rightarrow> u8 list list
     \<Rightarrow> ((hid_error + unit) \<times> u8 list list) option" where
  "send_fragments write_ok screen fragment_count payload [] written = Some (Inr (), written)"
| "send_fragments write_ok screen fragment_count payload (i # is) written = do {
     report \<leftarrow> fragment screen fragment_count payload i;
     (case device_write write_ok report written of
        (Inl e, written) \<Rightarrow> Some (Inl e, written)
      | (Inr _, written) \<Rightarrow> send_fragments write_ok screen fragment_count payload is written)
   }"

definition send_screen_update ::
    "(nat \<Rightarrow> bool) \<Rightarrow> ScreenSpec \<Rightarrow> u8 list list \<Rightarrow> ((hid_error + unit) \<times> u8 list list) option" where
  "send_screen_update write_ok spec written =
     (case ScreenSpec_encode spec of
        Inl e \<Rightarrow> Some (Inl e, written)
      | Inr payload \<Rightarrow>
          let fragment_count =
            (length payload + PAYLOAD_PER_FRAGMENT - 1) div PAYLOAD_PER_FRAGMENT in
          if fragment_count > 255 then Some (Inl (ScreenSpecTooLarge fragment_count), written)
          else send_fragments write_ok (screen_id spec) fragment_count payload
                 [0..<fragment_count] written)"

subsection \<open>Variables\<close>

fun get_encoded_size :: "VariableEntry \<Rightarrow> nat" where
  "get_encoded_size (FixedPoint _ _ _) = 4"
| "get_encoded_size (ShortString _ s) = 1 + length (as_bytes_with_nul s)"
| "get_encoded_size (HardwareControlEntry _) = 2"

fun hardware_value :: "HardwareControl \<Rightarrow> hid_error + u8 \<times> u8" where
  "hardware_value (LedRingValue ring_id v) =
     (if ring_id \<ge> 4 then Inl (InvalidRingId ring_id) else Inr (ring_id, v))"
| "hardware_value Reset = Inr (4, 1)"
| "hardware_value (SleepLevel can_deep_sleep) = Inr (5, of_bool can_deep_sleep)"

text \<open>\<open>encode\<close> on the buffer from the offset on.\<close>

fun VariableEntry_encode :: "VariableEntry \<Rightarrow> u8 list \<Rightarrow> (hid_error + u8 list) option" where
  "VariableEntry_encode (FixedPoint index decimals v) buf =
     (if index > 31 then Some (Inl (InvalidVariableIndex index))
      else do {
        buf \<leftarrow> set_byte 0 (push_bit 5 0b00 OR (index AND 0x1F)) buf;
        buf \<leftarrow> set_byte 1 decimals buf;
        buf \<leftarrow> copy_from_slice 2 (to_le_bytes v) buf;
        Some (Inr buf)
      })"
| "VariableEntry_encode (ShortString index s) buf =
     (if index > 31 then Some (Inl (InvalidVariableIndex index))
      else do {
        buf \<leftarrow> set_byte 0 (push_bit 5 0b01 OR (index AND 0x1F)) buf;
        buf \<leftarrow> copy_from_slice 1 (as_bytes_with_nul s) buf;
        Some (Inr buf)
      })"
| "VariableEntry_encode (HardwareControlEntry hw) buf =
     (case hardware_value hw of
        Inl e \<Rightarrow> Some (Inl e)
      | Inr (index, v) \<Rightarrow> do {
          buf \<leftarrow> set_byte 0 (push_bit 5 0b11 OR (index AND 0x1F)) buf;
          buf \<leftarrow> set_byte 1 v buf;
          Some (Inr buf)
        })"

definition VARIABLES_HEADER_LEN :: nat where "VARIABLES_HEADER_LEN = 2"

definition MAX_PAYLOAD :: nat where "MAX_PAYLOAD = HID_REPORT_LEN - VARIABLES_HEADER_LEN"

text \<open>Writing the current report with its header.\<close>

definition flush_report ::
    "(nat \<Rightarrow> bool) \<Rightarrow> u8 list \<Rightarrow> u8 \<Rightarrow> u8 list list \<Rightarrow> ((hid_error + unit) \<times> u8 list list) option" where
  "flush_report write_ok buf count written = do {
     buf \<leftarrow> set_byte 0 0x02 buf;
     buf \<leftarrow> set_byte 1 count buf;
     Some (device_write write_ok buf written)
   }"

text \<open>\<open>count += 1\<close> on a \<open>u8\<close>.\<close>

definition next_count :: "profile \<Rightarrow> u8 \<Rightarrow> u8 option" where
  "next_count p count = (if count = 255 then overflow p 0 else Some (count + 1))"

fun variable_loop ::
    "profile \<Rightarrow> (nat \<Rightarrow> bool) \<Rightarrow> VariableEntry list \<Rightarrow> u8 list \<times> nat \<times> u8 \<Rightarrow> u8 list list
     \<Rightarrow> ((hid_error + unit) \<times> u8 list list) option" where
  "variable_loop p write_ok [] (buf, offset, count) written =
     (if count > 0 then flush_report write_ok buf count written else Some (Inr (), written))"
| "variable_loop p write_ok (entry # entries) (buf, offset, count) written =
     (let entry_size = get_encoded_size entry in
      if entry_size > MAX_PAYLOAD then Some (Inl (VariableEntryTooLarge entry_size), written)
      else do {
        (r, written) \<leftarrow>
          (if offset + entry_size > HID_REPORT_LEN \<and> count > 0
           then flush_report write_ok buf count written else Some (Inr (), written));
        (case r of
           Inl e \<Rightarrow> Some (Inl e, written)
         | Inr _ \<Rightarrow>
             let (buf, offset, count) =
               (if offset + entry_size > HID_REPORT_LEN \<and> count > 0
                then (replicate HID_REPORT_LEN 0, VARIABLES_HEADER_LEN, 0)
                else (buf, offset, count)) in
             if length buf < offset then None
             else do {
               encoded \<leftarrow> VariableEntry_encode entry (drop offset buf);
               (case encoded of
                  Inl e \<Rightarrow> Some (Inl e, written)
                | Inr rest \<Rightarrow> do {
                    count \<leftarrow> next_count p count;
                    variable_loop p write_ok entries
                      (take offset buf @ rest, offset + entry_size, count) written
                  })
             })
      })"

definition send_variable_updates ::
    "profile \<Rightarrow> (nat \<Rightarrow> bool) \<Rightarrow> VariableEntry list \<Rightarrow> u8 list list
     \<Rightarrow> ((hid_error + unit) \<times> u8 list list) option" where
  "send_variable_updates p write_ok variables written =
     variable_loop p write_ok variables (replicate HID_REPORT_LEN 0, VARIABLES_HEADER_LEN, 0) written"

subsection \<open>Input reports\<close>

definition HidInputEvent_from_raw :: "u8 \<Rightarrow> u8 \<Rightarrow> HidInputEvent option" where
  "HidInputEvent_from_raw event_type event_data =
     (if event_type = 0x00 then Some (ButtonClick event_data)
      else if event_type = 0x01 then Some (ButtonDoubleClick event_data)
      else if event_type = 0x02 then Some (ButtonHoldStart event_data)
      else if event_type = 0x03 then Some (ButtonHoldEnd event_data)
      else if event_type = 0x04 then
        Some (MenuSelect (drop_bit 6 event_data) (event_data AND 0x3F))
      else if event_type = 0x05 then Some (MenuCancel (drop_bit 6 event_data))
      else None)"

definition read_input_report :: "hid_error + u8 list \<Rightarrow> hid_error + InputReport option" where
  "read_input_report input =
     andthen input (\<lambda>bytes.
       let (buf, len) = read_into (replicate HID_REPORT_LEN 0) bytes in
       if len = 0 then Inr None
       else if buf ! 0 \<noteq> 0x01 then Inr None
       else if len < 7 then Inl InputReportTooShort
       else
         let event_count = unat (buf ! 6) in
         if event_count * 2 > len - 7 then Inl InvalidEventSize
         else Inr (Some
           \<lparr>ir_active_screen_id = buf ! 1,
            ir_encoder_deltas = (buf ! 2, buf ! 3, buf ! 4, buf ! 5),
            ir_events = List.map_filter
              (\<lambda>i. HidInputEvent_from_raw (buf ! (7 + i * 2)) (buf ! (7 + i * 2 + 1)))
              [0..<event_count]\<rparr>))"

subsection \<open>The I/O thread\<close>

text \<open>
  One connection: what the thread sends to the core, in order, and the reports written.  A cycle
  is a read and the reports found in the outbound queue after it; \<open>core_alive\<close> says whether the
  core still receives.
\<close>

record io_cycle =
  io_read :: "hid_error + u8 list"
  io_queue :: "OutputReport list"
  io_core_alive :: bool

fun send_outbound ::
    "profile \<Rightarrow> (nat \<Rightarrow> bool) \<Rightarrow> OutputReport list \<Rightarrow> u8 list list
     \<Rightarrow> ((hid_error + unit) \<times> u8 list list) option" where
  "send_outbound p write_ok [] written = Some (Inr (), written)"
| "send_outbound p write_ok (report # reports) written = do {
     (r, written) \<leftarrow>
       (case report of
          ScreenSpecReport screen_spec \<Rightarrow> send_screen_update write_ok screen_spec written
        | VariableUpdate variables \<Rightarrow> send_variable_updates p write_ok variables written);
     (case r of Inl e \<Rightarrow> Some (Inl e, written)
      | Inr _ \<Rightarrow> send_outbound p write_ok reports written)
   }"

text \<open>The loop, over the cycles that take place; \<open>Inr ()\<close> means that it is still running.\<close>

fun io_loop ::
    "profile \<Rightarrow> (nat \<Rightarrow> bool) \<Rightarrow> io_cycle list \<Rightarrow> CoreEvent list \<times> u8 list list
     \<Rightarrow> ((hid_error + unit) \<times> CoreEvent list \<times> u8 list list) option" where
  "io_loop p write_ok [] (events, written) = Some (Inr (), events, written)"
| "io_loop p write_ok (cycle # cycles) (events, written) =
     (case read_input_report (io_read cycle) of
        Inl e \<Rightarrow> Some (Inl e, events, written)
      | Inr report \<Rightarrow>
          if report \<noteq> None \<and> \<not> io_core_alive cycle then Some (Inl CoreGone, events, written)
          else do {
            let events = events @ (case report of None \<Rightarrow> [] | Some r \<Rightarrow> [HidInputReport r]);
            (r, written) \<leftarrow> send_outbound p write_ok (io_queue cycle) written;
            (case r of Inl e \<Rightarrow> Some (Inl e, events, written)
             | Inr _ \<Rightarrow> io_loop p write_ok cycles (events, written))
          })"

definition connect_to_device ::
    "profile \<Rightarrow> (nat \<Rightarrow> bool) \<Rightarrow> hid_error + u8 list \<Rightarrow> bool \<Rightarrow> io_cycle list
     \<Rightarrow> ((hid_error + unit) \<times> CoreEvent list \<times> u8 list list) option" where
  "connect_to_device p write_ok feature_report core_alive cycles =
     (case read_device_info feature_report of
        Inl e \<Rightarrow> Some (Inl e, [], [])
      | Inr device_info \<Rightarrow>
          if firmware_version_major device_info \<noteq> SUPPORTED_FIRMWARE_MAJOR then
            Some (Inl (UnsupportedFirmware (firmware_version_major device_info)
                    (firmware_version_minor device_info)), [], [])
          else if \<not> core_alive then Some (Inl CoreGone, [], [])
          else io_loop p write_ok cycles ([ControllerConnected Hid], []))"

text \<open>
  One turn of \<open>run_loop\<close> for a device that was found and opened: when the connection ends, the
  core is told, and the thread looks for the device again; the thread ends when it cannot tell.
  A turn in which no device is found or opened has no effect but a delay.
\<close>

definition run_loop_turn ::
    "profile \<Rightarrow> (nat \<Rightarrow> bool) \<Rightarrow> hid_error + u8 list \<Rightarrow> bool \<Rightarrow> io_cycle list \<Rightarrow> bool
     \<Rightarrow> ((hid_error + unit) \<times> CoreEvent list \<times> u8 list list) option" where
  "run_loop_turn p write_ok feature_report core_alive cycles core_alive_after = do {
     (r, events, written) \<leftarrow> connect_to_device p write_ok feature_report core_alive cycles;
     (case r of
        Inr _ \<Rightarrow> Some (Inr (), events, written)
      | Inl _ \<Rightarrow>
          if core_alive_after then Some (Inr (), events @ [ControllerDisconnected Hid], written)
          else Some (Inl CoreGone, events, written))
   }"

end
