(* ===== verification/UiBehaviour.thy ===== *)
theory UiBehaviour
  imports UiManager
begin

text \<open>
  What the user interface of the handheld controller does: its messages describe its edits, it sends
  every variable that changed, and every report is answered.
\<close>

subsection \<open>The commands the interface edits\<close>

text \<open>Limits as the server is started with them: not negative.\<close>

definition limits_ok :: "SystemLimits \<Rightarrow> bool" where
  "limits_ok limits \<longleftrightarrow> 0 \<le> sint (position_0 (limit_position limits)) \<and>
     0 \<le> sint (velocity_0 (limit_velocity limits)) \<and>
     0 \<le> sint (acceleration_0 (limit_acceleration limits)) \<and>
     0 \<le> sint (acceleration_0 (limit_deceleration limits))"

text \<open>The stroke lies within the limits, and its start is not past its end.\<close>

definition stroke_ok :: "SystemLimits \<Rightarrow> MotionCommand \<times> MotionCommand \<Rightarrow> bool" where
  "stroke_ok limits cs \<longleftrightarrow> 0 \<le> sint (position_0 (position (fst cs))) \<and>
     position (fst cs) \<le> position (snd cs) \<and> position (snd cs) \<le> limit_position limits"

lemma quadratic_total: "\<exists>t. quadratic p (sint (d :: i8)) 10000 = Some t"
proof -
  let ?d = "sint d"
  have d: "\<bar>?d\<bar> \<le> 128"
    using sint_range_size [of d] by (simp add: word_size abs_le_iff)
  then have "\<bar>?d * \<bar>?d\<bar>\<bar> \<le> 128 * 128"
    unfolding abs_mult abs_abs by (intro mult_mono) auto
  then show ?thesis
    by (simp add: quadratic_def arith_i32_ok abs_le_iff)
qed

lemma cubic_total: "\<exists>t. cubic p (sint (d :: i8)) 1000 = Some t"
proof -
  let ?d = "sint d"
  have d: "\<bar>?d\<bar> \<le> 128"
    using sint_range_size [of d] by (simp add: word_size abs_le_iff)
  then have dd: "\<bar>?d * \<bar>?d\<bar>\<bar> \<le> 128 * 128"
    unfolding abs_mult abs_abs by (intro mult_mono) auto
  have "\<bar>?d * \<bar>?d\<bar> * \<bar>?d\<bar>\<bar> \<le> (128 * 128) * 128"
    unfolding abs_mult [of "?d * \<bar>?d\<bar>"] abs_abs using d dd by (intro mult_mono) auto
  then have "arith_i32 p (?d * \<bar>?d\<bar> * \<bar>?d\<bar>) = Some (?d * \<bar>?d\<bar> * \<bar>?d\<bar>)"
    "arith_i32 p (?d * \<bar>?d\<bar> * \<bar>?d\<bar> * 1000) = Some (?d * \<bar>?d\<bar> * \<bar>?d\<bar> * 1000)"
    unfolding abs_le_iff by (intro arith_i32_ok; linarith)+
  moreover have "arith_i32 p (?d * \<bar>?d\<bar>) = Some (?d * \<bar>?d\<bar>)"
    using dd unfolding abs_le_iff by (intro arith_i32_ok; linarith)
  ultimately show ?thesis
    by (simp add: cubic_def)
qed

lemma nudge_eq:
  assumes "0 \<le> sint limit"
  shows "nudge t x limit = Some (as_i32 (max 0 (min (sint limit) (saturate_i32 (sint x + t)))))"
  using assms by (simp add: nudge_def)

lemma sint_nudge:
  fixes limit :: i32
  assumes "0 \<le> sint limit"
  shows "sint (as_i32 (max 0 (min (sint limit) y))) = max 0 (min (sint limit) y)"
  using assms sint_i32_range [of limit] by (intro sint_as_i32) auto

lemma saturate_i32_mono: "a \<le> b \<Longrightarrow> saturate_i32 a \<le> saturate_i32 b"
  by (auto simp: saturate_i32_def)

text \<open>Turning a position encoder moves a position monotonically, within the limits.\<close>

lemma nudge_position_fun:
  assumes "limits_ok limits"
  obtains f where "\<And>c. nudge_position p (sint (d :: i8)) limits c = Some (c\<lparr>position := f (position c)\<rparr>)"
    and "\<And>x. Position 0 \<le> f x" and "\<And>x. f x \<le> limit_position limits"
    and "\<And>x y. x \<le> y \<Longrightarrow> f x \<le> f y"
proof -
  let ?limit = "position_0 (limit_position limits)"
  have lim: "0 \<le> sint ?limit"
    using assms by (simp add: limits_ok_def)
  obtain t where t: "quadratic p (sint d) 10000 = Some t"
    using quadratic_total by blast
  define f where "f = (\<lambda>x. Position (as_i32 (max 0 (min (sint ?limit)
    (saturate_i32 (sint (position_0 x) + t))))))"
  show thesis
  proof (rule that [of f])
    show "nudge_position p (sint d) limits c = Some (c\<lparr>position := f (position c)\<rparr>)" for c
      using lim t by (simp add: nudge_position_def nudge_eq f_def)
    show "Position 0 \<le> f x" "f x \<le> limit_position limits" for x
      using lim by (simp_all add: f_def position.le_iff sint_nudge)
    show "f x \<le> f y" if "x \<le> y" for x y
      using saturate_i32_mono [of "sint (position_0 x) + t" "sint (position_0 y) + t"] that
      unfolding f_def position.le_iff Position.sel sint_nudge [OF lim]
      by (intro max.mono min.mono) auto
  qed
qed

lemma stroke_ok_iff:
  "stroke_ok limits (c0, c1) \<longleftrightarrow>
   Position 0 \<le> position c0 \<and> position c0 \<le> position c1 \<and> position c1 \<le> limit_position limits"
  by (simp add: stroke_ok_def position.le_iff)

lemma turn_encoder_ok:
  assumes limits: "limits_ok limits" and ok: "stroke_ok limits (ui_motion_commands ui)"
  shows "\<exists>ms' ui'. turn_encoder p limits i d (ms, ui) = Some (ms', ui') \<and>
    stroke_ok limits (ui_motion_commands ui')"
proof -
  obtain c0 c1 where cs: "ui_motion_commands ui = (c0, c1)"
    by fastforce
  obtain f where nudge: "\<And>c. nudge_position p (sint d) limits c = Some (c\<lparr>position := f (position c)\<rparr>)"
    and f: "\<And>x. Position 0 \<le> f x" "\<And>x. f x \<le> limit_position limits"
      "\<And>x y. x \<le> y \<Longrightarrow> f x \<le> f y"
    using nudge_position_fun [OF limits] by metis
  obtain q k where qk: "quadratic p (sint d) 10000 = Some q" "cubic p (sint d) 1000 = Some k"
    using quadratic_total cubic_total by metis
  have lim: "0 \<le> sint (velocity_0 (limit_velocity limits))"
    "0 \<le> sint (acceleration_0 (limit_acceleration limits))"
    "0 \<le> sint (acceleration_0 (limit_deceleration limits))"
    using limits by (simp_all add: limits_ok_def)
  have stroke: "Position 0 \<le> position c0" "position c0 \<le> position c1"
    "position c1 \<le> limit_position limits"
    using ok by (simp_all add: cs stroke_ok_iff)
  have chain: "Position 0 \<le> position c1" "position c0 \<le> limit_position limits"
    using stroke by order+
  note turn = turn_encoder_def cs nudge
  consider "d = 0" | "d \<noteq> 0" "i = 0" | "d \<noteq> 0" "i = 1" | "d \<noteq> 0" "i = 2" | "d \<noteq> 0" "i = 3"
    | "d \<noteq> 0" "3 < i"
    by linarith
  then show ?thesis
  proof cases
    case 1
    with ok show ?thesis by (simp add: turn_encoder_def)
  next
    case 2
    with f stroke show ?thesis by (auto simp: turn stroke_ok_iff not_less Let_def)
  next
    case 3
    with f stroke chain show ?thesis by (auto simp: turn stroke_ok_iff not_less Let_def)
  next
    case 4
    moreover obtain x where "nudge q (velocity_0 (velocity c0)) (velocity_0 (limit_velocity limits)) =
        Some x"
      using lim nudge_eq by blast
    ultimately show ?thesis
      using qk stroke by (simp add: turn_encoder_def cs stroke_ok_iff Let_def)
  next
    case 5
    moreover obtain x where "nudge k (acceleration_0 (acceleration c0))
        (acceleration_0 (limit_acceleration limits)) = Some x"
      using lim nudge_eq by blast
    moreover obtain y where
      "ord_clamp (sint x) 0 (sint (acceleration_0 (limit_deceleration limits))) = Some y"
      using lim by simp
    ultimately show ?thesis
      using qk stroke by (simp add: turn_encoder_def cs stroke_ok_iff Let_def del: ord_clamp_Some)
  next
    case 6
    with ok cs show ?thesis by (simp add: turn)
  qed
qed

subsection \<open>The messages describe the edits\<close>

text \<open>What a command message does to the active command set it is addressed to.\<close>

fun edit :: "ClientMessage \<Rightarrow> MotionCommand list \<Rightarrow> MotionCommand list" where
  "edit (UpdateCommand _ u) cs =
     (if cu_index u < length cs
      then cs[cu_index u := fst (apply_fields (cu_fields u) (cs ! cu_index u))] else cs)"
| "edit (UpsertCommandSet _ None _ cs') cs = cs'"
| "edit (DeleteCommandSet _ None _) cs = []"
| "edit _ cs = cs"

lemma fst_apply_fields:
  "fst (apply_fields upd c) =
     c\<lparr>position := case f_position upd of None \<Rightarrow> position c | Some x \<Rightarrow> x,
       velocity := case f_velocity upd of None \<Rightarrow> velocity c | Some x \<Rightarrow> x,
       acceleration := case f_acceleration upd of None \<Rightarrow> acceleration c | Some x \<Rightarrow> x,
       deceleration := case f_deceleration upd of None \<Rightarrow> deceleration c | Some x \<Rightarrow> x\<rparr>"
  by (simp add: apply_fields_eq Let_def)

lemma edit_updates [simp]:
  "edit (update_position 0 c) [a, b] = [a\<lparr>position := position c\<rparr>, b]"
  "edit (update_position (Suc 0) c) [a, b] = [a, b\<lparr>position := position c\<rparr>]"
  "edit (update_velocity 0 c) [a, b] = [a\<lparr>velocity := velocity c\<rparr>, b]"
  "edit (update_velocity (Suc 0) c) [a, b] = [a, b\<lparr>velocity := velocity c\<rparr>]"
  "edit (update_acceleration 0 c) [a, b] =
     [a\<lparr>acceleration := acceleration c, deceleration := deceleration c\<rparr>, b]"
  "edit (update_acceleration (Suc 0) c) [a, b] =
     [a, b\<lparr>acceleration := acceleration c, deceleration := deceleration c\<rparr>]"
  by (simp_all add: update_position_def update_velocity_def update_acceleration_def
      fst_apply_fields)

text \<open>The messages whose effect depends neither on a version nor gives up the write access.\<close>

fun unconditional :: "ClientMessage \<Rightarrow> bool" where
  "unconditional (ReleaseWriteAccess _) = False"
| "unconditional (UpsertCommandSet _ _ base _) = (base = None)"
| "unconditional (DeleteCommandSet _ _ base) = (base = None)"
| "unconditional _ = True"

lemma unconditional_updates [simp]:
  "unconditional (update_position i c)" "unconditional (update_velocity i c)"
  "unconditional (update_acceleration i c)"
  by (simp_all add: update_position_def update_velocity_def update_acceleration_def)

definition in_step :: "ClientMessage list \<Rightarrow> UiManager \<Rightarrow> UiManager \<Rightarrow> bool" where
  "in_step messages ui ui' \<longleftrightarrow> list_all unconditional messages \<and>
     fold edit messages (commands_to_vec (ui_motion_commands ui)) =
     commands_to_vec (ui_motion_commands ui')"

lemma in_step_Nil [simp]: "in_step [] ui ui"
  by (simp add: in_step_def)

lemma in_step_append:
  "in_step ms ui ui' \<Longrightarrow> in_step ms' ui' ui'' \<Longrightarrow> in_step (ms @ ms') ui ui''"
  by (simp add: in_step_def)

lemma turn_encoder_in_step:
  assumes "turn_encoder p limits i d (ms, ui) = Some (ms', ui')"
  shows "\<exists>new. ms' = ms @ new \<and> in_step new ui ui'"
proof -
  obtain c0 c1 where cs: "ui_motion_commands ui = (c0, c1)"
    by fastforce
  consider "d = 0" | "d \<noteq> 0" "i = 0" | "d \<noteq> 0" "i = 1" | "d \<noteq> 0" "i = 2" | "d \<noteq> 0" "i = 3"
    | "d \<noteq> 0" "3 < i"
    by linarith
  then show ?thesis
    using assms
    by cases (auto simp: turn_encoder_def cs Let_def in_step_def commands_to_vec_def
        nudge_position_def split: Option.bind_splits if_splits)
qed

lemma handle_hid_event_in_step:
  assumes "handle_hid_event core_state event (ms, vs, ui) = (ms', vs', ui')"
  shows "\<exists>new. ms' = ms @ new \<and> in_step new ui ui'"
  using assms
  by (auto simp: handle_hid_event_def in_step_def
      split: HidInputEvent.splits DriveState.splits if_splits)

lemma turn_encoders_in_step:
  assumes "turn_encoders p limits deltas ui = Some (ms, ui')"
  shows "in_step ms ui ui'"
proof -
  obtain d0 d1 d2 d3 where "deltas = (d0, d1, d2, d3)"
    by (metis prod_cases4)
  with assms obtain m0 u0 m1 u1 m2 u2 where steps:
    "turn_encoder p limits 0 d0 ([], ui) = Some (m0, u0)"
    "turn_encoder p limits 1 d1 (m0, u0) = Some (m1, u1)"
    "turn_encoder p limits 2 d2 (m1, u1) = Some (m2, u2)"
    "turn_encoder p limits 3 d3 (m2, u2) = Some (ms, ui')"
    by (auto simp: turn_encoders_def split: Option.bind_splits)
  obtain n0 n1 n2 n3 where "m0 = n0" "m1 = m0 @ n1" "m2 = m1 @ n2" "ms = m2 @ n3"
    and news: "in_step n0 ui u0" "in_step n1 u0 u1" "in_step n2 u1 u2" "in_step n3 u2 ui'"
    using steps [THEN turn_encoder_in_step] by auto
  then show ?thesis
    using in_step_append [OF in_step_append [OF in_step_append [OF news(1,2)] news(3)] news(4)]
    by simp
qed

lemma handle_hid_events_in_step:
  assumes "fold (handle_hid_event core_state) events (ms, vs, ui) = (ms', vs', ui')"
  shows "\<exists>new. ms' = ms @ new \<and> in_step new ui ui'"
  using assms
proof (induction events arbitrary: ms vs ui)
  case (Cons event events)
  obtain ms1 vs1 ui1 where step: "handle_hid_event core_state event (ms, vs, ui) = (ms1, vs1, ui1)"
    by (metis prod_cases3)
  with Cons.prems have "fold (handle_hid_event core_state) events (ms1, vs1, ui1) = (ms', vs', ui')"
    by simp
  from Cons.IH [OF this] handle_hid_event_in_step [OF step] show ?case
    using in_step_append by fastforce
qed simp

lemma process_input_report_cases:
  assumes "process_input_report p hid_alive report limits core_state ui = Some (Inr (ms, out, ui'))"
  obtains (claim) "cs_write_access_holder core_state \<noteq> Some Hid" "out = []" "ui' = ui"
      "ms = [RequestWriteAccess 0,
         UpsertCommandSet 0 None None (commands_to_vec (ui_motion_commands ui))]"
    | (edit) m u vs ui1 screen kept sent where "cs_write_access_holder core_state = Some Hid"
      "turn_encoders p limits (ir_encoder_deltas report) ui = Some (m, u)"
      "fold (handle_hid_event core_state) (ir_events report) (m, [], u) = (ms, vs, ui1)"
      "screen_variables limits core_state ui1 = Some screen"
      "retain_changed (vs @ screen) (ui_last_sent_variables ui1) = (kept, sent)"
      "ui' = ui1\<lparr>ui_last_sent_variables := sent\<rparr>"
      "out = (if kept = [] then [] else [VariableUpdate kept])"
proof (cases "cs_write_access_holder core_state = Some Hid")
  case False
  with assms show thesis
    by (intro claim) (auto simp: process_input_report_def)
next
  case True
  with assms obtain m u where turned:
    "turn_encoders p limits (ir_encoder_deltas report) ui = Some (m, u)"
    by (auto simp: process_input_report_def split: Option.bind_splits)
  obtain ms1 vs ui1 where folded:
    "fold (handle_hid_event core_state) (ir_events report) (m, [], u) = (ms1, vs, ui1)"
    by (metis prod_cases3)
  from assms True turned folded obtain screen where
    screen: "screen_variables limits core_state ui1 = Some screen"
    by (auto simp: process_input_report_def split: Option.bind_splits)
  obtain kept sent where kept:
    "retain_changed (vs @ screen) (ui_last_sent_variables ui1) = (kept, sent)"
    by fastforce
  show thesis
    using assms True turned folded screen kept
    by (intro edit [OF True turned _ screen kept])
      (auto simp: process_input_report_def Let_def split: if_splits)
qed

lemma process_input_report_in_step:
  assumes "process_input_report p hid_alive report limits core_state ui = Some (Inr (ms, out, ui'))"
    and "cs_write_access_holder core_state = Some Hid"
  shows "in_step ms ui ui'"
  using assms(1)
proof (cases rule: process_input_report_cases)
  case (edit m u vs ui1 screen kept sent)
  then have "in_step ms ui ui1"
    using turn_encoders_in_step handle_hid_events_in_step in_step_append by metis
  with edit show ?thesis
    by (simp add: in_step_def)
qed (use assms(2) in simp)

text \<open>
  The messages an input report produces describe exactly what it did to the commands the
  interface shows: carrying them out in order on the command set turns the commands shown before
  into those shown after, and a report that arrives while another controller has write access
  claims it and replaces the command set by the commands shown.
\<close>

theorem input_report_in_step:
  assumes "process_input_report p hid_alive report limits core_state ui = Some (Inr (ms, out, ui'))"
  shows "if cs_write_access_holder core_state = Some Hid
    then fold edit ms (commands_to_vec (ui_motion_commands ui)) =
      commands_to_vec (ui_motion_commands ui')
    else hd ms = RequestWriteAccess 0 \<and> ui' = ui \<and>
      (fold edit ms cs = commands_to_vec (ui_motion_commands ui'))"
  using assms process_input_report_in_step [OF assms]
  by (cases rule: process_input_report_cases) (simp_all add: in_step_def)

subsection \<open>The variables on the device\<close>

text \<open>A LED ring shows the share of the limit, in steps of 1/255, to half a step and rounding noise.\<close>

lemma scale_to_u8_accurate:
  fixes v0 limit :: i32
  assumes "0 < sint limit"
  defines "share \<equiv> min (max (sint v0) 0) (sint limit) / sint limit"
  shows "\<bar>real (unat (scale_to_u8 v0 limit)) - 255 * share\<bar> \<le> 501 / 1000"
proof -
  define v l where "v = nat (min (max (sint v0) 0) (sint limit))" and "l = nat (sint limit)"
  have vl: "0 < l" "v \<le> l" using assms(1) by (auto simp: v_def l_def)
  have share: "real v / real l = share"
    using assms(1) by (simp add: v_def l_def share_def)
  then have range: "0 \<le> share" "share \<le> 1" using vl by auto
  obtain m e where q: "f64_div (f64_from v) (f64_from l) = Finite False m e"
    "\<bar>m * 2 powi e - share\<bar> \<le> max (share / 9007199254740992) f64_least_error"
    using f64_div_close [of "f64_from v" v 0 l] vl share range
    by (auto simp: f64_from_def elim: f64_close_E)
  then have q_err: "\<bar>m * 2 powi e - share\<bar> \<le> 1 / 1000000000000"
    using range f64_least_error(2) by (auto simp: le_max_iff_disj)
  obtain n f where p: "f64_mul (Finite False m e) (f64_from 255) = Finite False n f"
    "\<bar>n * 2 powi f - m * 2 powi e * 255\<bar> \<le> max (m * 2 powi e * 255 / 9007199254740992) f64_least_error"
  proof -
    have "m * 2 powi e \<le> 2" using q_err range by linarith
    then have "m * 2 powi e * 255 \<le> 2 ^ 62" by simp
    then show thesis
      using that f64_mul_close [of "Finite False m e" m e 255] by (auto elim: f64_close_E)
  qed
  define w where "w = n * 2 powi f"
  have w: "\<bar>w - 255 * share\<bar> \<le> 1 / 1000000000"
    using p(2) q_err range f64_least_error(2) unfolding w_def le_max_iff_disj by linarith
  define z where "z = \<lfloor>w + 1 / 2\<rfloor>"
  have z: "0 \<le> z" "z \<le> 255" "\<bar>z - 255 * share\<bar> \<le> 501 / 1000"
    using w range unfolding z_def by linarith+
  have "scale_to_u8 v0 limit = word_of_int z"
    using assms(1) z(1,2) q(1) p(1)
    by (simp del: f64_round_int.simps add: scale_to_u8_def v_def [symmetric] l_def [symmetric] Let_def f64_round_int_real
        w_def [symmetric] z_def [symmetric] f64_as_u8_def magnitude_floor_def signed_magnitude_def)
  then have "uint (scale_to_u8 v0 limit) = z"
    using z by (simp add: uint_word_of_int)
  then have "real (unat (scale_to_u8 v0 limit)) = real_of_int z"
    by (metis of_int_of_nat_eq uint_nat)
  with z(3) show ?thesis by simp
qed

text \<open>The device keeps the last entry it was sent under each key.\<close>

definition store_variable :: "VariableEntry \<Rightarrow> (u8 \<rightharpoonup> VariableEntry) \<Rightarrow> (u8 \<rightharpoonup> VariableEntry)" where
  "store_variable v device = device(get_variable_key v \<mapsto> v)"

lemma retain_changed_lossless:
  assumes "retain_changed vs sent = (kept, sent')"
  shows "fold store_variable kept sent = sent'" "fold store_variable vs sent = sent'"
  using assms
proof (induction vs arbitrary: sent kept)
  case (Cons v vs)
  {
    case 1
    with Cons.IH show ?case
      by (auto simp: Let_def store_variable_def [of v] split: if_splits prod.splits)
  next
    case 2
    moreover have "sent(get_variable_key v \<mapsto> v) = sent" if "sent (get_variable_key v) = Some v"
      using that by (simp add: fun_upd_idem)
    ultimately show ?case
      using Cons.IH(2) by (auto simp: Let_def store_variable_def [of v] split: if_splits prod.splits)
  }
qed simp_all

lemma fold_store_distinct:
  assumes "distinct (map get_variable_key vs)" and "v \<in> set vs"
  shows "fold store_variable vs device (get_variable_key v) = Some v"
proof -
  have other: "fold store_variable vs device k = device k" if "k \<notin> get_variable_key ` set vs"
    for vs k device
    using that by (induction vs arbitrary: device) (auto simp: store_variable_def)
  show ?thesis
    using assms
    by (induction vs arbitrary: device) (auto simp: store_variable_def other)
qed

lemma screen_keys_distinct:
  assumes "screen_variables limits core_state ui = Some screen"
  shows "distinct (map get_variable_key screen)"
  using assms
  by (auto simp: screen_variables_def Let_def split: Option.bind_splits if_splits prod.splits
      option.splits)

subsection \<open>Reports are always answered\<close>

definition clean :: "string \<Rightarrow> bool" where
  "clean s \<longleftrightarrow> CHR 0x00 \<notin> set s"

text \<open>Texts without NUL bytes, so that they can be shown on the device.\<close>

lemma clean_show_nat: "clean (show_nat n)"
proof (induction n rule: show_nat.induct)
  case (1 n)
  have "CHR 0x00 \<noteq> char_of (48 + d)" if "d < 10" for d :: nat
    using of_char_digit [OF that] by (auto dest: arg_cong [where f = "of_char :: char \<Rightarrow> nat"])
  with 1 show ?case
    by (subst show_nat.simps) (auto simp: clean_def)
qed

lemma clean_ErrorCode: "clean (ErrorCode_display e)"
  using clean_show_nat by (cases e) (auto simp: clean_def)

lemma clean_WarningFlags: "list_all clean (WarningFlags_display fs)"
proof -
  have "clean (WarningFlags_name b)" for b
    by (cases b) (simp_all add: clean_def)
  then show ?thesis
    by (simp add: WarningFlags_display_def list_all_iff)
qed

definition clean_state :: "CoreState \<Rightarrow> bool" where
  "clean_state cs \<longleftrightarrow> list_all clean (cs_warnings cs) \<and> pred_option clean (cs_error_code cs)"

lemma clean_join: "list_all clean ss \<Longrightarrow> clean sep \<Longrightarrow> clean (join sep ss)"
  by (induction sep ss rule: join.induct) (auto simp: clean_def)

lemma clean_DriveState: "clean (DriveState_debug s)"
  by (cases s) (simp_all add: clean_def)

lemma CString_new_clean: "clean s \<Longrightarrow> CString_new s = Some s"
  by (simp add: CString_new_def clean_def)

lemma screen_variables_total:
  assumes "clean_state core_state"
  shows "\<exists>screen. screen_variables limits core_state ui = Some screen"
proof -
  have "CString_new (join '', '' (cs_warnings core_state)) =
      Some (join '', '' (cs_warnings core_state))"
    using assms clean_join by (intro CString_new_clean) (simp add: clean_state_def clean_def)
  moreover have "CString_new (DriveState_debug s) = Some (DriveState_debug s)" for s
    by (rule CString_new_clean [OF clean_DriveState])
  moreover have "CString_new (''Error: '' @ e) = Some (''Error: '' @ e)"
    if "cs_error_code core_state = Some e" for e
    using assms that by (intro CString_new_clean) (simp add: clean_state_def clean_def)
  ultimately show ?thesis
    by (cases "ui_motion_commands ui"; cases "cs_error_code core_state")
      (simp_all add: screen_variables_def Let_def)
qed

lemma turn_encoders_ok:
  assumes "limits_ok limits" "stroke_ok limits (ui_motion_commands ui)"
  shows "\<exists>ms ui'. turn_encoders p limits deltas ui = Some (ms, ui') \<and>
    stroke_ok limits (ui_motion_commands ui')"
proof -
  obtain d0 d1 d2 d3 where deltas: "deltas = (d0, d1, d2, d3)"
    by (metis prod_cases4)
  note step = turn_encoder_ok [OF assms(1)]
  obtain m0 u0 where s0: "turn_encoder p limits 0 d0 ([], ui) = Some (m0, u0)"
    "stroke_ok limits (ui_motion_commands u0)"
    using step [OF assms(2)] by blast
  obtain m1 u1 where s1: "turn_encoder p limits 1 d1 (m0, u0) = Some (m1, u1)"
    "stroke_ok limits (ui_motion_commands u1)"
    using step [OF s0(2)] by blast
  obtain m2 u2 where s2: "turn_encoder p limits 2 d2 (m1, u1) = Some (m2, u2)"
    "stroke_ok limits (ui_motion_commands u2)"
    using step [OF s1(2)] by blast
  obtain m3 u3 where s3: "turn_encoder p limits 3 d3 (m2, u2) = Some (m3, u3)"
    "stroke_ok limits (ui_motion_commands u3)"
    using step [OF s2(2)] by blast
  show ?thesis
    using s0 s1 s2 s3 by (simp add: turn_encoders_def deltas)
qed

lemma handle_hid_events_ok:
  assumes "limits_ok limits" "stroke_ok limits (ui_motion_commands ui)"
    and "fold (handle_hid_event core_state) events (ms, vs, ui) = (ms', vs', ui')"
  shows "stroke_ok limits (ui_motion_commands ui')"
  using assms(2,3)
proof (induction events arbitrary: ms vs ui)
  case (Cons event events)
  obtain ms1 vs1 ui1 where step: "handle_hid_event core_state event (ms, vs, ui) = (ms1, vs1, ui1)"
    by (metis prod_cases3)
  have "stroke_ok limits DEFAULT_COMMANDS"
    using assms(1) by (simp add: stroke_ok_def DEFAULT_COMMANDS_def DEFAULT_COMMAND_def ops_ZERO_def
        limits_ok_def position.le_iff)
  then have "stroke_ok limits (ui_motion_commands ui1)"
    using step Cons.prems(1) by (auto simp: handle_hid_event_def
        split: HidInputEvent.splits if_splits)
  with Cons step show ?case by simp
qed simp

definition ui_ok :: "SystemLimits \<Rightarrow> UiManager \<Rightarrow> bool" where
  "ui_ok limits ui \<longleftrightarrow> stroke_ok limits (ui_motion_commands ui)"

lemma process_input_report_total:
  assumes "limits_ok limits" "ui_ok limits ui" "clean_state core_state"
  shows "\<exists>ms out ui'.
    process_input_report p True report limits core_state ui = Some (Inr (ms, out, ui')) \<and>
    ui_ok limits ui'"
proof (cases "cs_write_access_holder core_state = Some Hid")
  case True
  obtain m u where turned: "turn_encoders p limits (ir_encoder_deltas report) ui = Some (m, u)"
    "stroke_ok limits (ui_motion_commands u)"
    using turn_encoders_ok assms(1,2) unfolding ui_ok_def by blast
  obtain ms vs ui1 where folded:
    "fold (handle_hid_event core_state) (ir_events report) (m, [], u) = (ms, vs, ui1)"
    by (metis prod_cases3)
  obtain screen where screen: "screen_variables limits core_state ui1 = Some screen"
    using screen_variables_total assms(3) by blast
  obtain kept sent where kept:
    "retain_changed (vs @ screen) (ui_last_sent_variables ui1) = (kept, sent)"
    by fastforce
  have "stroke_ok limits (ui_motion_commands ui1)"
    using handle_hid_events_ok [OF assms(1) turned(2) folded] .
  then show ?thesis
    using True turned(1) folded screen kept
    by (simp add: process_input_report_def ui_ok_def Let_def)
qed (use assms(2) in \<open>simp add: process_input_report_def\<close>)

text \<open>
  C27: an input report never makes the interface panic: with limits that are not negative and
  texts without NUL bytes it is answered in either build profile, and the stroke it edits stays
  ordered and within the limits for every sequence of encoder turns and button presses.
\<close>

theorem input_report_answered:
  assumes "limits_ok limits" "ui_ok limits ui" "clean_state core_state"
  shows "\<exists>ms out ui'.
    process_input_report p True report limits core_state ui = Some (Inr (ms, out, ui')) \<and>
    ui_ok limits ui'"
  using assms by (rule process_input_report_total)

definition example_limits :: SystemLimits where
  "example_limits = \<lparr>limit_position = Position 3600000, limit_velocity = Velocity 2500000,
     limit_acceleration = Acceleration 1500000, limit_deceleration = Acceleration 1500000\<rparr>"

definition example_report :: InputReport where
  "example_report = \<lparr>ir_active_screen_id = 1, ir_encoder_deltas = (- 3, 12, 0, 1),
     ir_events = [ButtonHoldStart 0, ButtonClick 1]\<rparr>"

definition example_hid_state :: CoreState where
  "example_hid_state = CoreState_default\<lparr>cs_drive_state := Paused,
     cs_write_access_holder := Some Hid\<rparr>"

lemma example_hid_ok:
  "limits_ok example_limits" "ui_ok example_limits UiManager_new" "clean_state example_hid_state"
  by (simp_all add: limits_ok_def example_limits_def ui_ok_def stroke_ok_def UiManager_new_def
      DEFAULT_COMMANDS_def DEFAULT_COMMAND_def ops_ZERO_def position.le_iff clean_state_def
      example_hid_state_def CoreState_default_def)

theorem input_report_answered_witness:
  "\<exists>ms out ui'. process_input_report Debug True example_report example_limits example_hid_state
      UiManager_new = Some (Inr (ms, out, ui')) \<and>
    ui_ok example_limits ui'"
  by (rule input_report_answered) (fact example_hid_ok)+

theorem input_report_in_step_witness:
  "\<exists>ms out ui'. process_input_report Debug True example_report example_limits example_hid_state
      UiManager_new = Some (Inr (ms, out, ui')) \<and>
    fold edit ms (commands_to_vec (ui_motion_commands UiManager_new)) =
      commands_to_vec (ui_motion_commands ui')"
proof -
  obtain ms out ui' where run: "process_input_report Debug True example_report example_limits
      example_hid_state UiManager_new = Some (Inr (ms, out, ui'))"
    using process_input_report_total [OF example_hid_ok] by blast
  moreover have "cs_write_access_holder example_hid_state = Some Hid"
    by (simp add: example_hid_state_def)
  ultimately show ?thesis
    using input_report_in_step [OF run] by auto
qed

lemma turn_encoder_keeps_sent:
  assumes "turn_encoder p limits i d s = Some (ms', ui')"
  shows "ui_last_sent_variables ui' = ui_last_sent_variables (snd s)"
proof -
  obtain ms ui c0 c1 where s: "s = (ms, ui)" "ui_motion_commands ui = (c0, c1)"
    by (metis surj_pair)
  consider "d = 0" | "d \<noteq> 0" "i = 0" | "d \<noteq> 0" "i = 1" | "d \<noteq> 0" "i = 2" | "d \<noteq> 0" "i = 3"
    | "d \<noteq> 0" "3 < i"
    by linarith
  then show ?thesis
    using assms
    by cases (auto simp: turn_encoder_def s Let_def split: Option.bind_splits if_splits)
qed

lemma turn_encoders_keep_sent:
  assumes "turn_encoders p limits deltas ui = Some (ms, ui')"
  shows "ui_last_sent_variables ui' = ui_last_sent_variables ui"
  using assms
  by (cases deltas) (auto simp: turn_encoders_def split: Option.bind_splits
      dest!: turn_encoder_keeps_sent)

lemma handle_hid_events_keep_sent:
  assumes "fold (handle_hid_event core_state) events (ms, vs, ui) = (ms', vs', ui')"
  shows "ui_last_sent_variables ui' = ui_last_sent_variables ui"
  using assms
proof (induction events arbitrary: ms vs ui)
  case (Cons event events)
  obtain ms1 vs1 ui1 where step: "handle_hid_event core_state event (ms, vs, ui) = (ms1, vs1, ui1)"
    by (metis prod_cases3)
  then have "ui_last_sent_variables ui1 = ui_last_sent_variables ui"
    by (auto simp: handle_hid_event_def split: HidInputEvent.splits if_splits)
  with Cons step show ?case by simp
qed simp

end
