(* ===== verification/HidScreens.thy ===== *)
theory HidScreens
  imports Hid UiBehaviour
begin

text \<open>
  Wire formats as a contract between the encoder in the code and the decoder of the device, and the
  screens: what the device puts together from the fragments is the screen that was sent.
\<close>

subsection \<open>Codecs\<close>

text \<open>
  What a wire format has to promise: the bytes of a value are decoded to that value, whatever
  follows them.  A sequence of values with a known length then has the same property, and
  different values have different bytes.
\<close>

fun decode_many :: "(u8 list \<Rightarrow> ('a \<times> u8 list) option) \<Rightarrow> nat \<Rightarrow> u8 list \<Rightarrow> ('a list \<times> u8 list) option" where
  "decode_many dec 0 bs = Some ([], bs)"
| "decode_many dec (Suc n) bs = do {
     (x, bs) \<leftarrow> dec bs;
     (xs, bs) \<leftarrow> decode_many dec n bs;
     Some (x # xs, bs)
   }"

locale codec =
  fixes enc :: "'a \<Rightarrow> u8 list" and dec :: "u8 list \<Rightarrow> ('a \<times> u8 list) option" and valid :: "'a \<Rightarrow> bool"
  assumes dec_enc: "valid x \<Longrightarrow> dec (enc x @ rest) = Some (x, rest)"
begin

lemma dec_enc_Nil: "valid x \<Longrightarrow> dec (enc x) = Some (x, [])"
  using dec_enc [of x "[]"] by simp

lemma decode_many_enc:
  "list_all valid xs \<Longrightarrow> decode_many dec (length xs) (concat (map enc xs) @ rest) = Some (xs, rest)"
  by (induction xs) (simp_all add: dec_enc)

lemma enc_inject: "valid x \<Longrightarrow> valid y \<Longrightarrow> enc x @ rest = enc y @ rest' \<Longrightarrow> x = y \<and> rest = rest'"
  by (metis Pair_inject option.inject dec_enc)

end

text \<open>How the device reads strings, labels and menu items.\<close>

fun take_cstring :: "u8 list \<Rightarrow> (string \<times> u8 list) option" where
  "take_cstring [] = None"
| "take_cstring (b # bs) =
     (if b = 0 then Some ([], bs)
      else map_option (\<lambda>(s, bs). (char_of (unat b) # s, bs)) (take_cstring bs))"

lemma unat_of_char: "unat (of_char c :: u8) = of_char c"
proof -
  have "(of_char c :: u8) = of_nat (of_char c)"
    by (rule of_nat_of_char [symmetric])
  with nat_of_char_less_256 [of c] show ?thesis
    by (simp only: unat_of_nat) simp
qed

lemma of_char_eq_0: "(of_char c :: u8) = 0 \<longleftrightarrow> c = CHR 0x00"
proof -
  have "(of_char c :: u8) = 0 \<longleftrightarrow> unat (of_char c :: u8) = 0"
    by (rule unat_0_iff [symmetric])
  also have "\<dots> \<longleftrightarrow> (of_char c :: nat) = of_char (CHR 0x00)"
    unfolding unat_of_char by simp
  finally show ?thesis
    by (simp only: of_char_eq_iff)
qed

interpretation cstring: codec as_bytes_with_nul take_cstring clean
proof
  fix s rest
  assume "clean s"
  then show "take_cstring (as_bytes_with_nul s @ rest) = Some (s, rest)"
    by (induction s) (auto simp: as_bytes_with_nul_def clean_def of_char_eq_0 unat_of_char)
qed

definition take_label :: "u8 list \<Rightarrow> (EncoderLabel \<times> u8 list) option" where
  "take_label bs = do {
     (s, bs) \<leftarrow> take_cstring bs;
     (t, bs) \<leftarrow> take_cstring bs;
     Some (\<lparr>label_primary = s, label_secondary = t\<rparr>, bs)
   }"

definition label_ok :: "EncoderLabel \<Rightarrow> bool" where
  "label_ok l \<longleftrightarrow> clean (label_primary l) \<and> clean (label_secondary l)"

interpretation label: codec encode_label take_label label_ok
  by standard (simp add: encode_label_def take_label_def label_ok_def cstring.dec_enc)

definition item_bytes :: "MenuItem \<Rightarrow> u8 list" where
  "item_bytes item =
     item_id item # of_bool (item_enabled item) # as_bytes_with_nul (item_label item)"

fun take_item :: "u8 list \<Rightarrow> (MenuItem \<times> u8 list) option" where
  "take_item (i # enabled # bs) =
     map_option (\<lambda>(s, bs). (\<lparr>item_id = i, item_enabled = (enabled = 1), item_label = s\<rparr>, bs))
       (take_cstring bs)"
| "take_item _ = None"

definition item_ok :: "MenuItem \<Rightarrow> bool" where
  "item_ok item \<longleftrightarrow> item_id item \<le> 63 \<and> clean (item_label item)"

interpretation item: codec item_bytes take_item item_ok
  by standard (auto simp: item_bytes_def item_ok_def cstring.dec_enc)

lemma encode_items_ok: "list_all item_ok items \<Longrightarrow> encode_items items = Inr (concat (map item_bytes items))"
  by (induction items) (auto simp: item_ok_def item_bytes_def not_less)

subsection \<open>A screen survives fragmentation\<close>

fun content_bytes :: "DisplayContent \<Rightarrow> u8 list" where
  "content_bytes (TextLines m ls) =
     0 # m # of_nat (length ls) # concat (map as_bytes_with_nul ls)"
| "content_bytes (Menu m title items) =
     1 # m # as_bytes_with_nul title @ of_nat (length items) # concat (map item_bytes items)"

fun content_ok :: "DisplayContent \<Rightarrow> bool" where
  "content_ok (TextLines m ls) \<longleftrightarrow> length ls \<le> 255 \<and> list_all clean ls"
| "content_ok (Menu m title items) \<longleftrightarrow>
     length items \<le> 255 \<and> clean title \<and> list_all item_ok items"

fun take_content :: "u8 list \<Rightarrow> (DisplayContent \<times> u8 list) option" where
  "take_content (kind # m # bs) =
     (if kind = 0 then
        (case bs of
           n # bs \<Rightarrow> map_option (\<lambda>(ls, bs). (TextLines m ls, bs)) (decode_many take_cstring (unat n) bs)
         | _ \<Rightarrow> None)
      else if kind = 1 then
        (case take_cstring bs of
           Some (title, n # bs) \<Rightarrow>
             map_option (\<lambda>(items, bs). (Menu m title items, bs)) (decode_many take_item (unat n) bs)
         | _ \<Rightarrow> None)
      else None)"
| "take_content _ = None"

interpretation content: codec content_bytes take_content content_ok
proof
  fix c rest
  assume "content_ok c"
  then show "take_content (content_bytes c @ rest) = Some (c, rest)"
    by (cases c) (simp_all add: cstring.decode_many_enc cstring.dec_enc item.decode_many_enc
        unat_of_nat)
qed

lemma encode_content_ok: "content_ok c \<Longrightarrow> encode_content c = Inr (content_bytes c)"
  by (cases c) (simp_all add: encode_items_ok)

definition all_animations :: "ScreenAnimation list" where
  "all_animations = [NoAnimation, OverLeft, OverRight, OverTop, OverBottom, MoveLeft, MoveRight,
     MoveTop, MoveBottom, FadeIn, FadeOut, OutLeft, OutRight, OutTop, OutBottom]"

definition animation_of :: "u8 \<Rightarrow> ScreenAnimation option" where
  "animation_of b = find (\<lambda>a. ScreenAnimation_to_u8 a = b) all_animations"

lemma animation_of_to_u8: "animation_of (ScreenAnimation_to_u8 a) = Some a"
  by (cases a) (simp_all add: animation_of_def all_animations_def)

type_synonym area = "DisplayContent \<times> ScreenAnimation \<times> u16 \<times> u16"

definition area_bytes :: "area \<Rightarrow> u8 list" where
  "area_bytes area = (case area of (c, a, duration, delay) \<Rightarrow>
     content_bytes c @ ScreenAnimation_to_u8 a # to_le_bytes duration @ to_le_bytes delay)"

definition take_area :: "u8 list \<Rightarrow> (area \<times> u8 list) option" where
  "take_area bs = do {
     (c, bs) \<leftarrow> take_content bs;
     (case bs of
        a # d0 # d1 # e0 # e1 # bs \<Rightarrow> map_option
          (\<lambda>a. ((c, a, from_le_bytes [d0, d1], from_le_bytes [e0, e1]), bs)) (animation_of a)
      | _ \<Rightarrow> None)
   }"

definition area_ok :: "area \<Rightarrow> bool" where
  "area_ok area \<longleftrightarrow> content_ok (fst area)"

interpretation area: codec area_bytes take_area area_ok
proof
  fix area rest
  assume ok: "area_ok area"
  obtain c a duration delay where area: "area = (c, a, duration, delay)"
    by (metis prod_cases4)
  have two: "\<exists>x y. to_le_bytes (w :: u16) = [x, y]" for w
    by (simp add: to_le_bytes_def upt_conv_Cons)
  obtain x y x' y' where bytes: "to_le_bytes duration = [x, y]" "to_le_bytes delay = [x', y']"
    using two by metis
  then have "from_le_bytes [x, y] = duration" "from_le_bytes [x', y'] = delay"
    using from_le_bytes_to_le_bytes(2) by metis+
  with ok bytes show "take_area (area_bytes area @ rest) = Some (area, rest)"
    by (simp add: area area_bytes_def take_area_def area_ok_def content.dec_enc animation_of_to_u8)
qed

definition area_left :: "ScreenSpec \<Rightarrow> area" where
  "area_left spec = (left_main spec, left_animation_type spec, left_animation_duration spec,
     left_animation_delay spec)"

definition area_right :: "ScreenSpec \<Rightarrow> area" where
  "area_right spec = (right_main spec, right_animation_type spec, right_animation_duration spec,
     right_animation_delay spec)"

definition labels_of :: "ScreenSpec \<Rightarrow> EncoderLabel list" where
  "labels_of spec = (case encoder_labels spec of (l0, l1, l2, l3) \<Rightarrow> [l0, l1, l2, l3])"

definition screen_bytes :: "ScreenSpec \<Rightarrow> u8 list" where
  "screen_bytes spec = concat (map encode_label (labels_of spec)) @
     area_bytes (area_left spec) @ area_bytes (area_right spec)"

definition screen_ok :: "ScreenSpec \<Rightarrow> bool" where
  "screen_ok spec \<longleftrightarrow> list_all label_ok (labels_of spec) \<and> area_ok (area_left spec) \<and>
     area_ok (area_right spec)"

lemma encode_area_ok:
  "content_ok c \<Longrightarrow> encode_area c a duration delay = Inr (area_bytes (c, a, duration, delay))"
  by (simp add: encode_area_def area_bytes_def encode_content_ok)

lemma ScreenSpec_encode_ok: "screen_ok spec \<Longrightarrow> ScreenSpec_encode spec = Inr (screen_bytes spec)"
  by (auto simp: ScreenSpec_encode_def screen_ok_def screen_bytes_def labels_of_def area_left_def
      area_right_def area_ok_def encode_area_ok split: prod.splits)

text \<open>
  The device (\<open>docs/hid_protocol.md\<close>): it collects the fragments of a screen by their index,
  starts over when another screen begins, and shows the screen when it is complete.
\<close>

definition take_screen :: "u8 \<Rightarrow> u8 list \<Rightarrow> ScreenSpec option" where
  "take_screen screen bs = do {
     (ls, bs) \<leftarrow> decode_many take_label 4 bs;
     ((cl, al, dl, el), bs) \<leftarrow> take_area bs;
     ((cr, ar, dr, er), bs) \<leftarrow> take_area bs;
     (case ls of
        [l0, l1, l2, l3] \<Rightarrow> Some \<lparr>screen_id = screen, encoder_labels = (l0, l1, l2, l3),
          left_main = cl, left_animation_type = al, left_animation_duration = dl,
          left_animation_delay = el, right_main = cr, right_animation_type = ar,
          right_animation_duration = dr, right_animation_delay = er\<rparr>
      | _ \<Rightarrow> None)
   }"

type_synonym partial_screen = "(u8 \<times> (nat \<rightharpoonup> u8 list)) option"

definition receive_fragment :: "u8 list \<Rightarrow> partial_screen \<Rightarrow> partial_screen \<times> ScreenSpec option" where
  "receive_fragment report partial =
     (let screen = report ! 1; total = unat (report ! 2); i = unat (report ! 3);
          old = (case partial of Some (screen', fs) \<Rightarrow> if screen' = screen then fs else Map.empty
                 | None \<Rightarrow> Map.empty);
          fs = old(i \<mapsto> drop 4 report) in
      if list_all (\<lambda>j. fs j \<noteq> None) [0..<total]
      then (None, take_screen screen (concat (map (\<lambda>j. the (fs j)) [0..<total])))
      else (Some (screen, fs), None))"

fun receive_fragments :: "u8 list list \<Rightarrow> partial_screen \<Rightarrow> ScreenSpec list" where
  "receive_fragments [] partial = []"
| "receive_fragments (r # rs) partial =
     (case receive_fragment r partial of
        (partial, shown) \<Rightarrow>
          (case shown of None \<Rightarrow> [] | Some spec \<Rightarrow> [spec]) @ receive_fragments rs partial)"

lemma take_screen_bytes:
  assumes "screen_ok spec"
  shows "take_screen (screen_id spec) (screen_bytes spec @ rest) = Some spec"
proof -
  obtain l0 l1 l2 l3 where ls: "encoder_labels spec = (l0, l1, l2, l3)"
    by (metis prod_cases4)
  have "decode_many take_label (length (labels_of spec))
      (concat (map encode_label (labels_of spec)) @ bs) = Some (labels_of spec, bs)" for bs
    using assms by (intro label.decode_many_enc) (simp add: screen_ok_def)
  moreover have "length (labels_of spec) = 4"
    by (simp add: labels_of_def ls)
  ultimately have "decode_many take_label 4
      (concat (map encode_label (labels_of spec)) @ bs) = Some (labels_of spec, bs)" for bs
    by simp
  with assms ls show ?thesis
    by (cases spec) (simp add: take_screen_def screen_bytes_def screen_ok_def area.dec_enc
        area_left_def area_right_def labels_of_def del: decode_many.simps)
qed

text \<open>Cutting a list into pieces of length \<open>k\<close>, the last one filled up with zeros.\<close>

definition piece :: "nat \<Rightarrow> u8 list \<Rightarrow> nat \<Rightarrow> u8 list" where
  "piece k xs i = take k (drop (i * k) xs) @ replicate (k - length (take k (drop (i * k) xs))) 0"

lemma length_piece [simp]: "length (piece k xs i) = k"
  by (simp add: piece_def)

lemma concat_pieces:
  assumes "length xs \<le> n * k"
  shows "concat (map (piece k xs) [0..<n]) = xs @ replicate (n * k - length xs) 0"
proof -
  let ?ys = "xs @ replicate (n * k - length xs) 0"
  have piece: "piece k xs i = take k (drop (i * k) ?ys)" if "i < n" for i
  proof -
    have "i * k + k \<le> n * k"
      using mult_le_mono1 [of "Suc i" n k] that by simp
    then show ?thesis
      by (auto simp: piece_def)
  qed
  have "concat (map (\<lambda>i. take k (drop (i * k) ys)) [0..<m]) = take (m * k) ys" for m and ys :: "u8 list"
    by (induction m) (simp_all add: take_add add.commute [of k])
  from this [of ?ys n] have "concat (map (\<lambda>i. take k (drop (i * k) ?ys)) [0..<n]) = ?ys"
    using assms by simp
  moreover have "map (piece k xs) [0..<n] = map (\<lambda>i. take k (drop (i * k) ?ys)) [0..<n]"
    using piece by (intro map_cong) auto
  ultimately show ?thesis by (simp only:)
qed

definition screen_report :: "u8 \<Rightarrow> nat \<Rightarrow> u8 list \<Rightarrow> nat \<Rightarrow> u8 list" where
  "screen_report screen n payload i = 0x01 # screen # of_nat n # of_nat i # piece 60 payload i"

lemma fragment_eq:
  assumes "i * 60 \<le> length payload"
  shows "fragment screen n payload i = Some (screen_report screen n payload i)"
proof -
  let ?first = "i * 60"
  let ?past = "min (?first + 60) (length payload)"
  have chunk: "take (?past - ?first) (drop ?first payload) = take 60 (drop ?first payload)"
    by (simp add: min_def)
  have len: "length (take 60 (drop ?first payload)) \<le> 60"
    by simp
  have "take 4 ((((replicate 64 0)[0 := 1, 1 := screen, 2 := of_nat n, 3 := of_nat i]) :: u8 list)) =
      [1, screen, of_nat n, of_nat i]"
    by (simp add: eval_nat_numeral)
  moreover have "drop (4 + m) ((((replicate 64 0)[0 := 1, 1 := screen, 2 := of_nat n, 3 := of_nat i]) :: u8 list)) =
      replicate (60 - m) 0" for m
    by (simp add: add.commute)
  ultimately show ?thesis
    using assms len
    by (simp add: fragment_def set_byte_def copy_from_slice_def PAYLOAD_PER_FRAGMENT_def
        HID_REPORT_LEN_def HEADER_LEN_def screen_report_def piece_def chunk add.commute [of 60] Let_def)
qed

definition fragments_of :: "nat \<Rightarrow> nat" where
  "fragments_of n = (n + 59) div 60"

lemma fragments_of_bounds: "n \<le> fragments_of n * 60" "i < fragments_of n \<Longrightarrow> i * 60 < n"
  by (simp_all add: fragments_of_def)

lemma send_fragments_eq:
  assumes "\<And>i. i \<in> set is \<Longrightarrow> i * 60 \<le> length payload" and "\<And>k. write_ok k"
  shows "send_fragments write_ok screen n payload is written =
    Some (Inr (), written @ map (screen_report screen n payload) is)"
  using assms(1) by (induction "is" arbitrary: written)
    (simp_all add: fragment_eq device_write_def assms(2))

lemma send_screen_update_eq:
  assumes "screen_ok spec" "fragments_of (length (screen_bytes spec)) \<le> 255" "\<And>k. write_ok k"
  shows "send_screen_update write_ok spec written = Some (Inr (), written @
    map (screen_report (screen_id spec) (fragments_of (length (screen_bytes spec))) (screen_bytes spec))
      [0..<fragments_of (length (screen_bytes spec))])"
proof -
  let ?n = "fragments_of (length (screen_bytes spec))"
  have "(length (screen_bytes spec) + PAYLOAD_PER_FRAGMENT - 1) div PAYLOAD_PER_FRAGMENT = ?n"
    by (simp add: fragments_of_def PAYLOAD_PER_FRAGMENT_def HID_REPORT_LEN_def HEADER_LEN_def)
  moreover have fragments: "send_fragments write_ok s m (screen_bytes spec) [0..<?n] written =
      Some (Inr (), written @ map (screen_report s m (screen_bytes spec)) [0..<?n])" for s m
    using fragments_of_bounds(2) by (intro send_fragments_eq assms(3)) (simp add: less_imp_le)
  ultimately show ?thesis
    using assms(1,2) by (simp add: send_screen_update_def ScreenSpec_encode_ok Let_def fragments)
qed

definition collected :: "u8 \<Rightarrow> u8 list \<Rightarrow> nat \<Rightarrow> partial_screen" where
  "collected screen payload i =
     Some (screen, \<lambda>j. if j < i then Some (piece 60 payload j) else None)"

lemma receive_screen_report:
  assumes "i < n" "n \<le> 255"
    and "partial = collected screen payload i \<or> i = 0 \<and> (\<forall>s fs. partial = Some (s, fs) \<longrightarrow> s \<noteq> screen)"
  shows "receive_fragment (screen_report screen n payload i) partial =
    (if Suc i = n then (None, take_screen screen (concat (map (piece 60 payload) [0..<n])))
     else (collected screen payload (Suc i), None))"
proof -
  let ?old = "case partial of Some (s, fs) \<Rightarrow> if s = screen then fs else Map.empty
    | None \<Rightarrow> Map.empty"
  have "?old = (\<lambda>j. if j < i then Some (piece 60 payload j) else None)"
    using assms(3) by (auto simp: collected_def split: option.splits)
  then have fs: "?old(i \<mapsto> piece 60 payload i) = (\<lambda>j. if j < Suc i then Some (piece 60 payload j) else None)"
    by (auto simp: fun_eq_iff less_Suc_eq)
  have report: "screen_report screen n payload i ! 1 = screen"
    "unat (screen_report screen n payload i ! 2) = n" "unat (screen_report screen n payload i ! 3) = i"
    "drop 4 (screen_report screen n payload i) = piece 60 payload i"
    using assms(1,2) by (simp_all add: screen_report_def unat_of_nat)
  let ?fs = "\<lambda>j. if j < Suc i then Some (piece 60 payload j) else None"
  have complete: "list_all (\<lambda>j. ?fs j \<noteq> None) [0..<n] \<longleftrightarrow> Suc i = n"
    using assms(1) by (auto simp: list_all_iff)
  have pieces: "map (\<lambda>j. the (if j < n then Some (piece 60 payload j) else None)) [0..<n] =
      map (piece 60 payload) [0..<n]"
    by (intro map_cong) auto
  show ?thesis
    unfolding receive_fragment_def report fs Let_def complete by (simp add: pieces collected_def)
qed

lemma receive_screen_reports:
  assumes "i < n" "n \<le> 255"
    and "partial = collected screen payload i \<or> i = 0 \<and> (\<forall>s fs. partial = Some (s, fs) \<longrightarrow> s \<noteq> screen)"
    and "take_screen screen (concat (map (piece 60 payload) [0..<n])) = Some spec"
  shows "receive_fragments (map (screen_report screen n payload) [i..<n]) partial = [spec]"
  using assms
proof (induction "n - i" arbitrary: i partial)
  case (Suc d)
  show ?case
  proof (cases "Suc i = n")
    case True
    then have "[i..<n] = [i]" by (simp add: upt_rec)
    with True Suc.prems receive_screen_report [OF Suc.prems(1-3)] show ?thesis by simp
  next
    case False
    then have "receive_fragments (map (screen_report screen n payload) [Suc i..<n])
        (collected screen payload (Suc i)) = [spec]"
      using Suc.hyps Suc.prems by (intro Suc.hyps(1)) simp_all
    with False Suc.prems(1) receive_screen_report [OF Suc.prems(1-3)] show ?thesis
      by (simp add: upt_conv_Cons)
  qed
qed simp

text \<open>
  C30: a screen whose texts and item numbers are in range reaches the device: the reports have the
  length of the protocol, at most 255 of them, and the device that puts their payloads together
  shows exactly that screen, once, whatever another screen's transmission left unfinished.
\<close>

theorem screen_reaches_device:
  assumes "screen_ok spec" "length (screen_bytes spec) \<le> 15300" "\<And>k. write_ok k"
    and "\<And>screen fs. partial = Some (screen, fs) \<Longrightarrow> screen \<noteq> screen_id spec"
  shows "\<exists>reports. send_screen_update write_ok spec written = Some (Inr (), written @ reports) \<and>
    length reports \<le> 255 \<and> list_all (\<lambda>r. length r = 64) reports \<and>
    receive_fragments reports partial = [spec]"
proof -
  let ?payload = "screen_bytes spec"
  let ?n = "fragments_of (length ?payload)"
  have n: "?n \<le> 255"
    using assms(2) by (simp add: fragments_of_def)
  have "0 < length ?payload"
    by (auto simp: screen_bytes_def area_bytes_def area_left_def)
  then have "0 < ?n"
    using fragments_of_bounds(1) [of "length ?payload"] by (cases ?n) simp_all
  moreover have "concat (map (piece 60 ?payload) [0..<?n]) = ?payload @ replicate (?n * 60 - length ?payload) 0"
    by (rule concat_pieces [OF fragments_of_bounds(1)])
  ultimately have "receive_fragments (map (screen_report (screen_id spec) ?n ?payload) [0..<?n]) partial = [spec]"
    using n assms(4) take_screen_bytes [OF assms(1)] by (intro receive_screen_reports) auto
  with n show ?thesis
    using send_screen_update_eq [OF assms(1) n assms(3)]
    by (intro exI conjI) (auto simp: list_all_iff screen_report_def)
qed

theorem screen_reaches_device_witness:
  "\<exists>reports. send_screen_update (\<lambda>_. True) default_screen [] = Some (Inr (), [] @ reports) \<and>
    length reports \<le> 255 \<and> list_all (\<lambda>r. length r = 64) reports \<and>
    receive_fragments reports None = [default_screen]"
  by (rule screen_reaches_device)
    (simp_all add: default_screen_def screen_ok_def screen_bytes_def labels_of_def label_ok_def
      clean_def area_left_def area_right_def area_ok_def area_bytes_def encode_label_def
      as_bytes_with_nul_def)

end
