(* ===== verification/HidReports.thy ===== *)
theory HidReports
  imports HidScreens
begin

text \<open>
  The variables and the input reports: packing and unpacking, and what a text that does not fit a
  report does to the connection.
\<close>

subsection \<open>Variables survive packing\<close>

fun entry_tag :: "VariableEntry \<Rightarrow> u8 \<times> u8" where
  "entry_tag (FixedPoint index _ _) = (0, index)"
| "entry_tag (ShortString index _) = (1, index)"
| "entry_tag (HardwareControlEntry (LedRingValue ring_id _)) = (3, ring_id)"
| "entry_tag (HardwareControlEntry Reset) = (3, 4)"
| "entry_tag (HardwareControlEntry (SleepLevel _)) = (3, 5)"

fun entry_data :: "VariableEntry \<Rightarrow> u8 list" where
  "entry_data (FixedPoint _ decimals v) = decimals # to_le_bytes v"
| "entry_data (ShortString _ s) = as_bytes_with_nul s"
| "entry_data (HardwareControlEntry (LedRingValue _ v)) = [v]"
| "entry_data (HardwareControlEntry Reset) = [1]"
| "entry_data (HardwareControlEntry (SleepLevel b)) = [of_bool b]"

definition entry_bytes :: "VariableEntry \<Rightarrow> u8 list" where
  "entry_bytes e = (case entry_tag e of (kind, index) \<Rightarrow> (push_bit 5 kind OR (index AND 0x1F)) # entry_data e)"

fun index_ok :: "VariableEntry \<Rightarrow> bool" where
  "index_ok (FixedPoint index _ _) = (index \<le> 31)"
| "index_ok (ShortString index _) = (index \<le> 31)"
| "index_ok (HardwareControlEntry (LedRingValue ring_id _)) = (ring_id < 4)"
| "index_ok (HardwareControlEntry _) = True"

fun text_ok :: "VariableEntry \<Rightarrow> bool" where
  "text_ok (ShortString _ s) = clean s"
| "text_ok _ = True"

text \<open>How the device reads an entry.\<close>

definition take_data :: "u8 \<Rightarrow> u8 \<Rightarrow> u8 list \<Rightarrow> (VariableEntry \<times> u8 list) option" where
  "take_data kind index bs =
     (if kind = 0 then
        (case bs of d # x # y # bs \<Rightarrow> Some (FixedPoint index d (from_le_bytes [x, y]), bs) | _ \<Rightarrow> None)
      else if kind = 1 then
        map_option (\<lambda>(s, bs). (ShortString index s, bs)) (take_cstring bs)
      else if kind = 3 then
        (case bs of
           [] \<Rightarrow> None
         | v # bs \<Rightarrow>
             if index < 4 then Some (HardwareControlEntry (LedRingValue index v), bs)
             else if index = 4 \<and> v = 1 then Some (HardwareControlEntry Reset, bs)
             else if index = 5 then Some (HardwareControlEntry (SleepLevel (v = 1)), bs)
             else None)
      else None)"

fun take_entry :: "u8 list \<Rightarrow> (VariableEntry \<times> u8 list) option" where
  "take_entry [] = None"
| "take_entry (tag # bs) = take_data (drop_bit 5 tag) (tag AND 0x1F) bs"

lemma five_bits:
  assumes "(index :: u8) \<le> 31"
  shows "index AND 31 = index"
proof -
  have "index < 2 ^ 5"
    using assms by (simp add: word_le_nat_alt word_less_nat_alt)
  then have "index AND mask 5 = index"
    by (rule less_mask_eq)
  then show ?thesis
    by (simp add: mask_eq_exp_minus_1)
qed

lemma tag_fields:
  assumes "index \<le> 31" "kind < 8"
  shows "drop_bit 5 (push_bit 5 kind OR (index AND 0x1F)) = (kind :: u8)"
    "(push_bit 5 kind OR (index AND 0x1F)) AND 0x1F = index"
proof -
  have mask: "(31 :: u8) = mask 5"
    by (simp add: mask_eq_exp_minus_1)
  have high: "n < 3" if "bit kind n" for n
  proof -
    have "kind < 2 ^ 3"
      using assms(2) by simp
    then have "kind AND mask 3 = kind"
      by (rule less_mask_eq)
    with that show ?thesis
      by (metis bit_and_iff bit_mask_iff not_le)
  qed
  show "drop_bit 5 (push_bit 5 kind OR (index AND 0x1F)) = kind"
    unfolding mask using high by (intro bit_word_eqI) (auto simp: bit_simps)
  have "(push_bit 5 kind OR (index AND 0x1F)) AND 0x1F = index AND 0x1F"
    unfolding mask by (intro bit_word_eqI) (auto simp: bit_simps)
  with five_bits [OF assms(1)] show "(push_bit 5 kind OR (index AND 0x1F)) AND 0x1F = index"
    by simp
qed

definition entry_ok :: "VariableEntry \<Rightarrow> bool" where
  "entry_ok e \<longleftrightarrow> index_ok e \<and> text_ok e"

lemma index_ok_tag: "index_ok e \<Longrightarrow> snd (entry_tag e) \<le> 31 \<and> fst (entry_tag e) < 8"
  by (cases e rule: entry_tag.cases) (auto simp: word_less_nat_alt word_le_nat_alt)

interpretation entry: codec entry_bytes take_entry entry_ok
proof
  fix e rest
  assume ok: "entry_ok e"
  obtain kind index where tag: "entry_tag e = (kind, index)"
    by fastforce
  with ok have "index \<le> 31" "kind < 8"
    using index_ok_tag [of e] by (simp_all add: entry_ok_def)
  then have "take_entry (entry_bytes e @ rest) = take_data kind index (entry_data e @ rest)"
    by (simp only: entry_bytes_def tag prod.case append_Cons take_entry.simps tag_fields)
  also have "\<dots> = Some (e, rest)"
  proof (cases e rule: entry_tag.cases)
    case (1 i d v)
    have "\<exists>x y. to_le_bytes v = [x, y] \<and> from_le_bytes [x, y] = v"
      using from_le_bytes_to_le_bytes(2) [of v] by (simp add: to_le_bytes_def upt_conv_Cons)
    with 1 tag show ?thesis
      by (auto simp: take_data_def)
  qed (use tag ok in \<open>auto simp: take_data_def entry_ok_def cstring.dec_enc\<close>)
  finally show "take_entry (entry_bytes e @ rest) = Some (e, rest)" .
qed

fun index_error :: "VariableEntry \<Rightarrow> hid_error" where
  "index_error (FixedPoint index _ _) = InvalidVariableIndex index"
| "index_error (ShortString index _) = InvalidVariableIndex index"
| "index_error (HardwareControlEntry (LedRingValue ring_id _)) = InvalidRingId ring_id"
| "index_error (HardwareControlEntry _) = DeviceError"

lemma length_entry_bytes [simp]: "length (entry_bytes e) = get_encoded_size e"
  by (cases e rule: entry_tag.cases) (simp_all add: entry_bytes_def)

lemma set_head: "0 < length buf \<Longrightarrow> buf[0 := x] = x # drop 1 buf"
  by (cases buf) simp_all

lemma get_encoded_size_pos: "2 \<le> get_encoded_size e"
  by (cases e) (simp_all add: as_bytes_with_nul_def)

text \<open>Encoding into a buffer with room never panics.\<close>

lemma VariableEntry_encode_eq:
  assumes "get_encoded_size e \<le> length buf"
  shows "VariableEntry_encode e buf = Some
    (if index_ok e then Inr (entry_bytes e @ drop (get_encoded_size e) buf) else Inl (index_error e))"
proof -
  obtain a b rest where buf: "buf = a # b # rest"
    using get_encoded_size_pos [of e] assms by (cases buf; cases "tl buf") auto
  have first: "set_byte 0 x (a # bs) = Some (x # bs)" "set_byte (Suc 0) y (x # b # bs) = Some (x # y # bs)"
    for a b x y bs
    by (simp_all add: set_byte_def)
  have copy: "copy_from_slice (Suc 0) bs (x # xs) = Some (x # bs @ drop (length bs) xs)"
    if "length bs \<le> length xs" for bs x xs
    using that by (simp add: copy_from_slice_def)
  have copy2: "copy_from_slice 2 bs (x # y # xs) = Some (x # y # bs @ drop (length bs) xs)"
    if "length bs \<le> length xs" for bs x y xs
    using that by (simp add: copy_from_slice_def)
  show ?thesis
  proof (cases e rule: entry_tag.cases)
    case (1 i d v)
    with assms show ?thesis
      by (auto simp: buf first copy2 entry_bytes_def not_less)
  next
    case (2 i s)
    then have "length (as_bytes_with_nul s) \<le> length (b # rest)"
      using assms by (simp add: buf)
    moreover have "drop (get_encoded_size e) buf = drop (length (as_bytes_with_nul s)) (b # rest)"
      using 2 by (simp add: buf)
    ultimately show ?thesis
      using 2 by (auto simp: buf first copy entry_bytes_def not_less)
  next
    case (3 i v)
    then show ?thesis by (auto simp: buf first entry_bytes_def not_less)
  next
    case 4
    then show ?thesis by (simp add: buf first entry_bytes_def)
  next
    case (5 sleep)
    then show ?thesis by (simp add: buf first entry_bytes_def)
  qed
qed

definition size_of :: "VariableEntry list \<Rightarrow> nat" where
  "size_of g = length (concat (map entry_bytes g))"

lemma size_of_simps [simp]: "size_of [] = 0" "size_of (g @ h) = size_of g + size_of h"
  "size_of [e] = get_encoded_size e"
  by (simp_all add: size_of_def)

lemma two_length_le_size_of: "2 * length g \<le> size_of g"
proof (induction g)
  case (Cons e g)
  then show ?case
    using get_encoded_size_pos [of e] by (simp add: size_of_def)
qed simp

definition packing :: "VariableEntry list \<Rightarrow> u8 list \<times> nat \<times> u8" where
  "packing g = (0 # 0 # concat (map entry_bytes g) @ replicate (62 - size_of g) 0, 2 + size_of g,
     of_nat (length g))"

definition variable_report :: "VariableEntry list \<Rightarrow> u8 list" where
  "variable_report g =
     0x02 # of_nat (length g) # concat (map entry_bytes g) @ replicate (62 - size_of g) 0"

definition sendable :: "VariableEntry \<Rightarrow> bool" where
  "sendable e \<longleftrightarrow> index_ok e \<and> get_encoded_size e \<le> 62"

lemma packing_empty: "packing [] = (replicate HID_REPORT_LEN 0, VARIABLES_HEADER_LEN, 0)"
  by (simp add: packing_def HID_REPORT_LEN_def VARIABLES_HEADER_LEN_def eval_nat_numeral)

lemma flush_packing:
  assumes "packing g = (buf, offset, count)"
  shows "flush_report write_ok buf count written = Some (device_write write_ok (variable_report g) written)"
  using assms by (auto simp: packing_def flush_report_def set_byte_def variable_report_def)

lemma count_packing:
  assumes "packing g = (buf, offset, count)" "size_of g \<le> 62"
  shows "count > 0 \<longleftrightarrow> g \<noteq> []" "next_count p count = Some (of_nat (length g + 1))"
proof -
  have "length g \<le> 31"
    using two_length_le_size_of [of g] assms(2) by simp
  then have "unat (of_nat (length g) :: u8) = length g"
    by (simp add: unat_of_nat)
  moreover have count: "count = of_nat (length g)"
    using assms(1) by (simp add: packing_def)
  ultimately have unat: "unat count = length g"
    by simp
  then show "count > 0 \<longleftrightarrow> g \<noteq> []"
    by (simp add: word_less_nat_alt)
  from unat have "count \<noteq> 255"
    using \<open>length g \<le> 31\<close> by auto
  then show "next_count p count = Some (of_nat (length g + 1))"
    by (simp add: next_count_def count)
qed

lemma encode_packing:
  assumes "packing g = (buf, offset, count)" "size_of g + get_encoded_size e \<le> 62"
  shows "VariableEntry_encode e (drop offset buf) = Some
    (if index_ok e then Inr (entry_bytes e @ replicate (62 - size_of (g @ [e])) 0)
     else Inl (index_error e))"
    "offset \<le> length buf"
    "(take offset buf @ entry_bytes e @ replicate (62 - size_of (g @ [e])) 0, offset + get_encoded_size e,
      of_nat (length g + 1)) = packing (g @ [e])"
proof -
  have buf: "buf = 0 # 0 # concat (map entry_bytes g) @ replicate (62 - size_of g) 0"
    and offset: "offset = 2 + size_of g"
    using assms(1) by (simp_all add: packing_def)
  have len: "length (concat (map entry_bytes g)) = size_of g"
    by (simp add: size_of_def)
  have drop: "drop offset buf = replicate (62 - size_of g) 0"
    by (simp add: buf offset len)
  have take: "take offset buf = 0 # 0 # concat (map entry_bytes g)"
    unfolding buf offset by (simp add: len)
  show "VariableEntry_encode e (drop offset buf) = Some
    (if index_ok e then Inr (entry_bytes e @ replicate (62 - size_of (g @ [e])) 0)
     else Inl (index_error e))"
    using assms(2) by (simp add: drop VariableEntry_encode_eq)
  show "offset \<le> length buf"
    by (simp add: buf offset len)
  show "(take offset buf @ entry_bytes e @ replicate (62 - size_of (g @ [e])) 0, offset + get_encoded_size e,
      of_nat (length g + 1)) = packing (g @ [e])"
    unfolding take by (simp add: packing_def offset)
qed

text \<open>What the reports carry, whether or not the transmission succeeds.\<close>

definition transmits ::
    "VariableEntry list \<Rightarrow> (nat \<Rightarrow> bool) \<Rightarrow> u8 list list \<Rightarrow> ((hid_error + unit) \<times> u8 list list) option \<Rightarrow> bool" where
  "transmits vs write_ok written result \<longleftrightarrow>
     (\<exists>groups r rest. result = Some (r, written @ map variable_report groups) \<and>
        vs = concat groups @ rest \<and> (r = Inr () \<longrightarrow> rest = []) \<and>
        list_all (\<lambda>g. g \<noteq> [] \<and> size_of g \<le> 62 \<and> list_all sendable g) groups \<and>
        ((\<forall>k. write_ok k) \<longrightarrow> (r = Inr () \<longleftrightarrow> list_all sendable vs)))"

lemma transmits_write:
  assumes "transmits vs write_ok (written @ [variable_report g]) result"
    and "g \<noteq> []" "size_of g \<le> 62" "list_all sendable g"
  shows "transmits (g @ vs) write_ok written result"
proof -
  from assms(1) obtain groups r rest where
    "result = Some (r, (written @ [variable_report g]) @ map variable_report groups)"
    "vs = concat groups @ rest" "r = Inr () \<longrightarrow> rest = []"
    "list_all (\<lambda>g. g \<noteq> [] \<and> size_of g \<le> 62 \<and> list_all sendable g) groups"
    "(\<forall>k. write_ok k) \<longrightarrow> (r = Inr () \<longleftrightarrow> list_all sendable vs)"
    unfolding transmits_def by blast
  with assms(2-) show ?thesis
    unfolding transmits_def
    by (intro exI [of _ "g # groups"] exI [of _ r] exI [of _ rest]) simp
qed

lemma transmits_error:
  "vs \<noteq> [] \<Longrightarrow> \<not> list_all sendable vs \<or> \<not> (\<forall>k. write_ok k) \<Longrightarrow> transmits vs write_ok written (Some (Inl e, written))"
  by (auto simp: transmits_def intro!: exI [of _ "[]"])

lemma variable_loop_transmits:
  assumes "size_of g \<le> 62" "list_all sendable g"
  shows "transmits (g @ vs) write_ok written (variable_loop p write_ok vs (packing g) written)"
  using assms
proof (induction vs arbitrary: g written)
  case Nil
  obtain buf offset count where pk: "packing g = (buf, offset, count)"
    by (cases "packing g") auto
  note count = count_packing [OF pk Nil.prems(1)]
  show ?case
  proof (cases "g = []")
    case True
    with count show ?thesis
      unfolding pk by (auto simp: transmits_def intro!: exI [of _ "[]"])
  next
    case False
    have "transmits [] write_ok (written @ [variable_report g]) (Some (Inr (), written @ [variable_report g]))"
      by (auto simp: transmits_def intro!: exI [of _ "[]"])
    from transmits_write [OF this False Nil.prems] show ?thesis
      using False count(1) transmits_error [OF False, of write_ok written DeviceError]
      unfolding pk by (auto simp: flush_packing [OF pk] device_write_def)
  qed
next
  case (Cons e vs)
  obtain buf offset count where pk: "packing g = (buf, offset, count)"
    by (cases "packing g") auto
  note count = count_packing [OF pk Cons.prems(1)]
  have offset: "offset = 2 + size_of g"
    using pk by (simp add: packing_def)
  show ?case
  proof (cases "get_encoded_size e > 62")
    case True
    then have "\<not> list_all sendable (g @ e # vs)"
      by (simp add: sendable_def)
    with True transmits_error [of "g @ e # vs" write_ok written] show ?thesis
      unfolding pk by (simp add: MAX_PAYLOAD_def HID_REPORT_LEN_def VARIABLES_HEADER_LEN_def)
  next
    case small: False
    have go: "transmits (h @ e # vs) write_ok w
        (case packing h of (buf, offset, count) \<Rightarrow>
           if length buf < offset then None
           else do {
             encoded \<leftarrow> VariableEntry_encode e (drop offset buf);
             (case encoded of
                Inl err \<Rightarrow> Some (Inl err, w)
              | Inr rest \<Rightarrow> do {
                  count \<leftarrow> next_count p count;
                  variable_loop p write_ok vs
                    (take offset buf @ rest, offset + get_encoded_size e, count) w
                })
           })"
      if h: "size_of h + get_encoded_size e \<le> 62" "list_all sendable h" for h w
    proof -
      obtain buf offset count where pk: "packing h = (buf, offset, count)"
        by (cases "packing h") auto
      note enc = encode_packing [OF pk h(1)]
      show ?thesis
      proof (cases "index_ok e")
        case True
        with small have "sendable e"
          by (simp add: sendable_def)
        with h have "transmits ((h @ [e]) @ vs) write_ok w (variable_loop p write_ok vs (packing (h @ [e])) w)"
          by (intro Cons.IH) simp_all
        with True enc h show ?thesis
          unfolding pk by (simp add: count_packing(2) [OF pk] not_less)
      next
        case False
        then have "\<not> list_all sendable (h @ e # vs)"
          by (simp add: sendable_def)
        with False enc(1,2) transmits_error [of "h @ e # vs" write_ok w] show ?thesis
          unfolding pk by simp
      qed
    qed
    show ?thesis
    proof (cases "2 + size_of g + get_encoded_size e > 64 \<and> g \<noteq> []")
      case False
      then have "size_of g + get_encoded_size e \<le> 62"
        using small by auto
      note go = go [OF this Cons.prems(2), of written]
      have "\<not> (offset + get_encoded_size e > 64 \<and> count > 0)"
        using False offset count(1) by simp
      with go small show ?thesis
        unfolding pk
        by (auto simp: MAX_PAYLOAD_def HID_REPORT_LEN_def VARIABLES_HEADER_LEN_def)
    next
      case True
      have "transmits ([] @ e # vs) write_ok (written @ [variable_report g]) (case packing [] of (buf, offset, count) \<Rightarrow>
           if length buf < offset then None
           else do {
             encoded \<leftarrow> VariableEntry_encode e (drop offset buf);
             (case encoded of
                Inl err \<Rightarrow> Some (Inl err, written @ [variable_report g])
              | Inr rest \<Rightarrow> do {
                  count \<leftarrow> next_count p count;
                  variable_loop p write_ok vs
                    (take offset buf @ rest, offset + get_encoded_size e, count) (written @ [variable_report g])
                })
           })"
        using small by (intro go) simp_all
      from transmits_write [OF this _ Cons.prems] True small count(1) offset
        transmits_error [of "g @ e # vs" write_ok written DeviceError]
      show ?thesis
        unfolding pk packing_empty
        by (auto simp: MAX_PAYLOAD_def HID_REPORT_LEN_def VARIABLES_HEADER_LEN_def
            flush_packing [OF pk] device_write_def)
    qed
  qed
qed

text \<open>How the device reads a report of variables.\<close>

definition take_report :: "u8 list \<Rightarrow> VariableEntry list option" where
  "take_report report =
     (if report ! 0 = 0x02
      then map_option fst (decode_many take_entry (unat (report ! 1)) (drop 2 report)) else None)"

lemma take_report_variable_report:
  assumes "size_of g \<le> 62" "list_all sendable g" "list_all text_ok g"
  shows "take_report (variable_report g) = Some g" "length (variable_report g) = 64"
proof -
  have ok: "list_all entry_ok g"
    using assms(2,3) by (simp add: list_all_iff entry_ok_def sendable_def)
  have "length g \<le> 31"
    using two_length_le_size_of [of g] assms(1) by simp
  then have "unat (of_nat (length g) :: u8) = length g"
    by (simp add: unat_of_nat)
  then show "take_report (variable_report g) = Some g"
    using entry.decode_many_enc [OF ok] by (simp add: take_report_def variable_report_def)
  show "length (variable_report g) = 64"
    using assms(1) by (simp add: variable_report_def size_of_def)
qed

text \<open>
  C28: updating variables never panics, whatever the entries; every report written has the length
  of the protocol and the device reads back from the reports, in order, a beginning of the list of
  entries, which is the whole list when the call succeeds; and as long as the device takes the
  reports, the call succeeds exactly if every entry has a valid index and fits a report.
\<close>

theorem variables_reach_device_packed:
  assumes "list_all text_ok vs"
  shows "\<exists>r reports groups rest.
    send_variable_updates p write_ok vs written = Some (r, written @ reports) \<and>
    list_all (\<lambda>report. length report = 64) reports \<and>
    map take_report reports = map Some groups \<and> vs = concat groups @ rest \<and>
    (r = Inr () \<longrightarrow> rest = []) \<and>
    ((\<forall>k. write_ok k) \<longrightarrow> (r = Inr () \<longleftrightarrow> list_all sendable vs))"
proof -
  have "transmits ([] @ vs) write_ok written (send_variable_updates p write_ok vs written)"
    unfolding send_variable_updates_def packing_empty [symmetric]
    by (rule variable_loop_transmits) simp_all
  then obtain groups r rest where t:
    "send_variable_updates p write_ok vs written = Some (r, written @ map variable_report groups)"
    "vs = concat groups @ rest" "r = Inr () \<longrightarrow> rest = []"
    "list_all (\<lambda>g. g \<noteq> [] \<and> size_of g \<le> 62 \<and> list_all sendable g) groups"
    "(\<forall>k. write_ok k) \<longrightarrow> (r = Inr () \<longleftrightarrow> list_all sendable vs)"
    unfolding transmits_def append_Nil by blast
  have "size_of g \<le> 62 \<and> list_all sendable g \<and> list_all text_ok g" if "g \<in> set groups" for g
    using t(2,4) assms that by (auto simp: list_all_iff)
  then have "map take_report (map variable_report groups) = map Some groups"
    "list_all (\<lambda>report. length report = 64) (map variable_report groups)"
    using take_report_variable_report by (auto simp: list_all_iff)
  with t show ?thesis by blast
qed

definition example_variables :: "VariableEntry list" where
  "example_variables =
     [FixedPoint 5 2 1234, ShortString 12 ''Hello'', HardwareControlEntry (SleepLevel True),
      HardwareControlEntry (LedRingValue 2 200)]"

theorem variables_reach_device_packed_witness:
  "\<exists>reports groups. send_variable_updates Debug (\<lambda>_. True) example_variables [] = Some (Inr (), [] @ reports) \<and>
    map take_report reports = map Some groups \<and> example_variables = concat groups"
proof -
  have "list_all text_ok example_variables" "list_all sendable example_variables"
    by (simp_all add: example_variables_def sendable_def clean_def as_bytes_with_nul_def)
  with variables_reach_device_packed [of example_variables Debug "\<lambda>_. True" "[]"]
  show ?thesis by auto
qed

subsection \<open>Input reports\<close>

text \<open>What the device sends.\<close>

fun event_bytes :: "HidInputEvent \<Rightarrow> u8 \<times> u8" where
  "event_bytes (ButtonClick e) = (0, e)"
| "event_bytes (ButtonDoubleClick e) = (1, e)"
| "event_bytes (ButtonHoldStart e) = (2, e)"
| "event_bytes (ButtonHoldEnd e) = (3, e)"
| "event_bytes (MenuSelect d i) = (4, push_bit 6 d OR i)"
| "event_bytes (MenuCancel d) = (5, push_bit 6 d)"

fun event_ok :: "HidInputEvent \<Rightarrow> bool" where
  "event_ok (MenuSelect d i) = (d < 4 \<and> i < 64)"
| "event_ok (MenuCancel d) = (d < 4)"
| "event_ok _ = True"

definition input_bytes :: "InputReport \<Rightarrow> u8 list" where
  "input_bytes report =
     (case ir_encoder_deltas report of (d0, d1, d2, d3) \<Rightarrow>
      [0x01, ir_active_screen_id report, d0, d1, d2, d3, of_nat (length (ir_events report))] @
      concat (map (\<lambda>e. [fst (event_bytes e), snd (event_bytes e)]) (ir_events report)))"

lemma menu_fields:
  assumes "d < 4" "i < 64"
  shows "drop_bit 6 (push_bit 6 d OR i) = (d :: u8)" "(push_bit 6 d OR i) AND 0x3F = i"
    "drop_bit 6 (push_bit 6 d) = d"
proof -
  have mask: "(63 :: u8) = mask 6"
    by (simp add: mask_eq_exp_minus_1)
  have "d < 2 ^ 2" "i < 2 ^ 6"
    using assms by simp_all
  then have "d AND mask 2 = d" "i AND mask 6 = i"
    by (auto intro: less_mask_eq)
  then have d: "bit d n \<Longrightarrow> n < 2" and i: "bit i n \<Longrightarrow> n < 6" for n
    by (metis bit_and_iff bit_mask_iff)+
  show "drop_bit 6 (push_bit 6 d OR i) = d" "drop_bit 6 (push_bit 6 d) = d"
    by (intro bit_word_eqI; auto simp: bit_simps dest: d i)+
  show "(push_bit 6 d OR i) AND 0x3F = i"
    unfolding mask by (intro bit_word_eqI) (auto simp: bit_simps dest: i)
qed

lemma from_raw_event_bytes: "event_ok e \<Longrightarrow> HidInputEvent_from_raw (fst (event_bytes e)) (snd (event_bytes e)) = Some e"
  using menu_fields menu_fields(3) [of _ 0] by (cases e) (auto simp: HidInputEvent_from_raw_def)

definition report_ok :: "InputReport \<Rightarrow> bool" where
  "report_ok report \<longleftrightarrow> length (ir_events report) \<le> 28 \<and> list_all event_ok (ir_events report)"

lemma length_input_bytes: "length (input_bytes report) = 7 + 2 * length (ir_events report)"
proof -
  have "length (concat (map (\<lambda>e. [fst (event_bytes e), snd (event_bytes e)]) es)) = 2 * length es" for es
    by (induction es) simp_all
  then show ?thesis
    by (simp add: input_bytes_def split: prod.splits)
qed

lemma concat_pairs_nth:
  assumes "i < length es"
  shows "(concat (map (\<lambda>e. [f e, g e]) es) @ rest) ! (i * 2) = f (es ! i)"
    "(concat (map (\<lambda>e. [f e, g e]) es) @ rest) ! Suc (i * 2) = g (es ! i)"
proof -
  have "(concat (map (\<lambda>e. [f e, g e]) es) @ rest) ! (i * 2) = f (es ! i) \<and>
      (concat (map (\<lambda>e. [f e, g e]) es) @ rest) ! Suc (i * 2) = g (es ! i)"
    using assms
  proof (induction es arbitrary: i)
    case (Cons e es)
    then show ?case by (cases i) simp_all
  qed simp
  then show "(concat (map (\<lambda>e. [f e, g e]) es) @ rest) ! (i * 2) = f (es ! i)"
    "(concat (map (\<lambda>e. [f e, g e]) es) @ rest) ! Suc (i * 2) = g (es ! i)"
    by auto
qed

text \<open>
  C36: an input report of up to 28 events, padded or not, is read as what the device sent.
\<close>

theorem input_report_roundtrip:
  assumes "report_ok report" "length (input_bytes report @ pad) \<le> 64"
  shows "read_input_report (Inr (input_bytes report @ pad)) = Inr (Some report)"
proof -
  let ?es = "ir_events report"
  obtain d0 d1 d2 d3 where d: "ir_encoder_deltas report = (d0, d1, d2, d3)"
    by (metis prod_cases4)
  let ?pairs = "concat (map (\<lambda>e. [fst (event_bytes e), snd (event_bytes e)]) ?es)"
  let ?zeros = "drop (length (input_bytes report @ pad)) (replicate 64 0) :: u8 list"
  have bytes: "input_bytes report = [0x01, ir_active_screen_id report, d0, d1, d2, d3,
      of_nat (length ?es)] @ ?pairs"
    by (simp add: input_bytes_def d)
  have count: "unat (of_nat (length ?es) :: u8) = length ?es"
    using assms(1) by (simp add: report_ok_def unat_of_nat)
  have buf: "read_into (replicate HID_REPORT_LEN 0) (input_bytes report @ pad) =
      (0x01 # ir_active_screen_id report # d0 # d1 # d2 # d3 # of_nat (length ?es) # (?pairs @ pad @ ?zeros),
       length (input_bytes report @ pad))"
    using assms(2) by (simp add: read_into_def HID_REPORT_LEN_def bytes Let_def)
  have "map (\<lambda>i. HidInputEvent_from_raw ((?pairs @ rest) ! (i * 2)) ((?pairs @ rest) ! Suc (i * 2)))
      [0..<length ?es] = map Some ?es" for rest
    using assms(1) from_raw_event_bytes
    by (intro nth_equalityI) (auto simp: concat_pairs_nth report_ok_def list_all_length)
  moreover have "List.map_filter f xs = ys" if "map f xs = map Some ys" for f and xs :: "nat list" and ys
    using that by (induction xs arbitrary: ys) (auto simp: map_filter_simps)
  ultimately have events: "List.map_filter (\<lambda>i. HidInputEvent_from_raw ((?pairs @ rest) ! (i * 2))
      ((?pairs @ rest) ! Suc (i * 2))) [0..<length ?es] = ?es" for rest
    by blast
  have report: "\<lparr>ir_active_screen_id = ir_active_screen_id report,
      ir_encoder_deltas = (d0, d1, d2, d3), ir_events = ?es\<rparr> = report"
    by (simp add: d [symmetric])
  have len: "length (input_bytes report @ pad) = 7 + 2 * length ?es + length pad"
    by (simp add: length_input_bytes)
  show ?thesis
    unfolding read_input_report_def andthen_simps buf Let_def prod.case len
    by (simp add: count events report)
qed

definition padded_example :: "u8 list" where
  "padded_example = input_bytes example_report @ replicate 20 0xFF"

theorem input_report_roundtrip_witness:
  "read_input_report (Inr padded_example) = Inr (Some example_report)"
  unfolding padded_example_def
  by (rule input_report_roundtrip) (simp_all add: report_ok_def example_report_def length_input_bytes)

lemma from_raw_ok: "HidInputEvent_from_raw t d = Some e \<Longrightarrow> event_ok e"
proof -
  have "drop_bit 6 d < 4"
  proof -
    have "unat d < 2 ^ LENGTH(8)"
      by (rule unsigned_less)
    then have "unat d div 64 < 4"
      by simp
    then show ?thesis
      by (simp add: word_less_nat_alt unat_drop_bit_eq drop_bit_eq_div unat_div)
  qed
  moreover have "d AND 63 < 64"
    by (rule le_less_trans [OF word_and_le1]) simp
  ultimately show "HidInputEvent_from_raw t d = Some e \<Longrightarrow> event_ok e"
    by (auto simp: HidInputEvent_from_raw_def split: if_splits)
qed

text \<open>
  Whatever bytes the device delivers, a report that is accepted has at most 28 events, and
  their display and item numbers are in range.
\<close>

theorem input_report_bounded:
  assumes "read_input_report (Inr bytes) = Inr (Some report)"
  shows "report_ok report"
proof -
  from assms obtain buf len where
    buf: "read_into (replicate HID_REPORT_LEN 0) bytes = (buf, len)" and
    n: "\<not> unat (buf ! 6) * 2 > len - 7" and
    events: "ir_events report = List.map_filter
      (\<lambda>i. HidInputEvent_from_raw (buf ! (7 + i * 2)) (buf ! (7 + i * 2 + 1))) [0..<unat (buf ! 6)]"
    by (auto simp: read_input_report_def Let_def split: prod.splits if_splits)
  have "len \<le> 64"
    using buf by (auto simp: read_into_def HID_REPORT_LEN_def Let_def)
  moreover have "length (List.map_filter f xs) \<le> length xs" for f :: "nat \<Rightarrow> HidInputEvent option" and xs
    by (induction xs) (auto simp: map_filter_simps split: option.splits)
  from this [of _ "[0..<unat (buf ! 6)]"] have "length (ir_events report) \<le> unat (buf ! 6)"
    by (simp add: events)
  moreover have "list_all event_ok (ir_events report)"
    using from_raw_ok by (auto simp: events list_all_iff map_filter_def)
  ultimately show ?thesis
    using n by (simp add: report_ok_def)
qed

lemma padded_example_read: "read_input_report (Inr padded_example) = Inr (Some example_report)"
  by (simp add: read_input_report_def read_into_def HID_REPORT_LEN_def padded_example_def
      input_bytes_def example_report_def HidInputEvent_from_raw_def map_filter_simps upt_conv_Cons)

theorem input_report_bounded_witness:
  "read_input_report (Inr padded_example) = Inr (Some example_report) \<and> report_ok example_report"
  using padded_example_read input_report_bounded [OF padded_example_read] by simp

subsection \<open>Long texts\<close>

lemma retain_changed_kept:
  assumes "retain_changed vs sent = (kept, sent')" "v \<in> set vs"
  shows "v \<in> set kept \<or> sent (get_variable_key v) = Some v"
  using assms
proof (induction vs arbitrary: sent kept)
  case (Cons x vs)
  show ?case
  proof (cases "sent (get_variable_key x) = Some x")
    case True
    with Cons show ?thesis by (auto simp: Let_def)
  next
    case False
    with Cons.prems(1) obtain kept' where
      rec: "retain_changed vs (sent(get_variable_key x \<mapsto> x)) = (kept', sent')" and "kept = x # kept'"
      by (auto simp: Let_def split: prod.splits)
    with Cons.IH [OF rec] Cons.prems(2) show ?thesis
      by (auto split: if_splits)
  qed
qed simp

lemma screen_shows_warnings:
  assumes "screen_variables limits cs ui = Some screen" "cs_warnings cs \<noteq> []"
  shows "ShortString 7 (join '', '' (cs_warnings cs)) \<in> set screen"
  using assms by (auto simp: screen_variables_def CString_new_def Let_def
      split: Option.bind_splits if_splits prod.splits)

lemma interface_sends_warnings:
  assumes "process_input_report p True report limits cs ui = Some (Inr (ms, out, ui'))"
    and "cs_write_access_holder cs = Some Hid" "cs_warnings cs \<noteq> []"
    and "ui_last_sent_variables ui 7 \<noteq> Some (ShortString 7 (join '', '' (cs_warnings cs)))"
  obtains vs where "out = [VariableUpdate vs]" "ShortString 7 (join '', '' (cs_warnings cs)) \<in> set vs"
  using assms(1)
proof (cases rule: process_input_report_cases)
  case (edit m u vs ui1 screen kept sent)
  let ?v = "ShortString 7 (join '', '' (cs_warnings cs))"
  have "ui_last_sent_variables ui1 = ui_last_sent_variables ui"
    using edit(2,3) turn_encoders_keep_sent handle_hid_events_keep_sent by metis
  moreover have "?v \<in> set screen"
    by (rule screen_shows_warnings [OF edit(4) assms(3)])
  ultimately have "?v \<in> set kept"
    using retain_changed_kept [OF edit(5), of ?v] assms(4) by auto
  with edit(7) show thesis
    by (intro that [of kept]) auto
qed (use assms(2) in simp)

lemma send_variable_updates_fails:
  assumes "\<not> list_all sendable vs"
  shows "\<exists>e written'. send_variable_updates p write_ok vs written = Some (Inl e, written')"
proof -
  have "transmits ([] @ vs) write_ok written (send_variable_updates p write_ok vs written)" for write_ok
    unfolding send_variable_updates_def packing_empty [symmetric]
    by (rule variable_loop_transmits) simp_all
  then obtain groups r rest where t:
    "send_variable_updates p write_ok vs written = Some (r, written @ map variable_report groups)"
    "vs = concat groups @ rest" "r = Inr () \<longrightarrow> rest = []"
    "list_all (\<lambda>g. g \<noteq> [] \<and> size_of g \<le> 62 \<and> list_all sendable g) groups"
    unfolding transmits_def append_Nil by blast
  have "r \<noteq> Inr ()"
  proof
    assume "r = Inr ()"
    with t(2,3) have "vs = concat groups" by simp
    with t(4) assms show False
      by (auto simp: list_all_iff)
  qed
  with t(1) show ?thesis
    by (cases r) auto
qed

text \<open>
  C37: the texts of the warnings are joined into one variable, which has to fit one report: with
  more than 60 characters, as three warnings can have, the update fails and the loop that serves
  the device ends, whatever else it was about to do.
\<close>

theorem long_warnings_end_connection:
  assumes "process_input_report p True report limits cs ui = Some (Inr (ms, out, ui'))"
    and "cs_write_access_holder cs = Some Hid" "60 < length (join '', '' (cs_warnings cs))"
    and "ui_last_sent_variables ui 7 \<noteq> Some (ShortString 7 (join '', '' (cs_warnings cs)))"
    and "read_input_report (io_read cycle) = Inr (Some input)" "io_core_alive cycle" "io_queue cycle = out"
  shows "\<exists>e written'. io_loop p write_ok (cycle # cycles) (events, written) =
    Some (Inl e, events @ [HidInputReport input], written')"
proof -
  have "cs_warnings cs \<noteq> []"
    using assms(3) by auto
  then obtain vs where out: "out = [VariableUpdate vs]"
    and long: "ShortString 7 (join '', '' (cs_warnings cs)) \<in> set vs"
    using interface_sends_warnings [OF assms(1,2) _ assms(4)] by blast
  have "\<not> sendable (ShortString 7 (join '', '' (cs_warnings cs)))"
    using assms(3) by (simp add: sendable_def as_bytes_with_nul_def)
  with long have "\<not> list_all sendable vs"
    by (auto simp: list_all_iff)
  from send_variable_updates_fails [OF this] obtain e written' where
    "send_variable_updates p write_ok vs written = Some (Inl e, written')"
    by blast
  with assms(5-7) out show ?thesis
    by simp
qed

lemma three_warnings_long: "60 < length (join '', '' (WarningFlags_display 7))"
proof -
  have "WarningFlags_iter 7 = [WarningFlags_MOTOR_HOT_SENSOR, WarningFlags_MOTOR_SHORT_TIME_OVERLOAD,
      WarningFlags_MOTOR_SUPPLY_VOLTAGE_LOW]"
    by (simp add: WarningFlags_iter_def WarningFlags_all_def flags_contains_def)
  then show ?thesis
    by (simp add: WarningFlags_display_def)
qed

definition example_warned :: CoreState where
  "example_warned = state_after_feedback (DriveFeedback_default\<lparr>fb_warning_flags := 7\<rparr>)
     (example_hid_state)"

theorem long_warnings_end_connection_witness:
  "\<exists>ms out ui' e written'. process_input_report Debug True example_report example_limits example_warned
      UiManager_new = Some (Inr (ms, out, ui')) \<and>
    io_loop Debug (\<lambda>_. True)
      [\<lparr>io_read = Inr padded_example, io_queue = out, io_core_alive = True\<rparr>] ([], []) =
      Some (Inl e, [HidInputReport example_report], written')"
proof -
  have warned: "cs_write_access_holder example_warned = Some Hid"
    "cs_warnings example_warned = WarningFlags_display 7" "clean_state example_warned"
    using clean_WarningFlags by (simp_all add: example_warned_def state_after_feedback_def
        example_hid_state_def DriveFeedback_default_def clean_state_def)
  obtain ms out ui' where run: "process_input_report Debug True example_report example_limits
      example_warned UiManager_new = Some (Inr (ms, out, ui'))"
    using process_input_report_total [OF example_hid_ok(1,2) warned(3)] by blast
  let ?cycle = "\<lparr>io_read = Inr padded_example, io_queue = out, io_core_alive = True\<rparr>"
  have "\<exists>e written'. io_loop Debug (\<lambda>_. True) (?cycle # []) ([], []) =
    Some (Inl e, [] @ [HidInputReport example_report], written')"
    using run by (rule long_warnings_end_connection)
      (simp_all add: warned three_warnings_long UiManager_new_def padded_example_read)
  with run show ?thesis by auto
qed

end
