(* ===== verification/CoreSpec.thy ===== *)
theory CoreSpec
  imports Core UiBehaviour
begin

text \<open>
  The core as a specification: what sending changes, the effect of each message as one change of
  state and a list of messages to post, the proof that the handlers refine it, and the contract of
  the core's invariants, as a locale over that specification.
\<close>

subsection \<open>What sending changes\<close>

text \<open>Sending adds deliveries; of the interface of the handheld controller it at most forgets
  which variables were sent.\<close>

definition only_sends :: "CoreManager \<Rightarrow> CoreManager \<Rightarrow> bool" where
  "only_sends cm cm' \<longleftrightarrow> (\<exists>ui out. cm' = cm\<lparr>cm_hid_ui := ui, cm_sent := cm_sent cm @ out\<rparr> \<and>
     map_option ui_motion_commands ui = map_option ui_motion_commands (cm_hid_ui cm))"

lemma only_sends_refl [simp, intro]: "only_sends cm cm"
  unfolding only_sends_def by (rule exI [of _ "cm_hid_ui cm"], rule exI [of _ "[]"]) simp

lemma only_sends_trans [trans]:
  assumes "only_sends a b" "only_sends b c"
  shows "only_sends a c"
proof -
  obtain ui out ui' out' where
    "b = a\<lparr>cm_hid_ui := ui, cm_sent := cm_sent a @ out\<rparr>"
    "c = b\<lparr>cm_hid_ui := ui', cm_sent := cm_sent b @ out'\<rparr>"
    "map_option ui_motion_commands ui = map_option ui_motion_commands (cm_hid_ui a)"
    "map_option ui_motion_commands ui' = map_option ui_motion_commands (cm_hid_ui b)"
    using assms unfolding only_sends_def by blast
  then show ?thesis
    unfolding only_sends_def
    by (intro exI [of _ ui'] exI [of _ "out @ out'"]) simp
qed

lemma only_sends_simps:
  assumes "only_sends cm cm'"
  shows "cm_limits cm' = cm_limits cm" "cm_drive cm' = cm_drive cm"
    "cm_websocket_server cm' = cm_websocket_server cm" "cm_core_state cm' = cm_core_state cm"
    "cm_active_command_set cm' = cm_active_command_set cm"
    "cm_saved_command_sets cm' = cm_saved_command_sets cm" "holder cm' = holder cm"
    "map_option ui_motion_commands (cm_hid_ui cm') = map_option ui_motion_commands (cm_hid_ui cm)"
  using assms by (auto simp: only_sends_def holder_def)

lemma process_core_message_keeps:
  "process_core_message alive m ui = Inr (reports, ui') \<Longrightarrow>
     ui_motion_commands ui' = ui_motion_commands ui"
  by (auto simp: process_core_message_def split: CoreMessage.splits if_splits)

text \<open>A request is answered by exactly the messages that carry its sequence number.\<close>

fun reply_seq :: "CoreMessage \<Rightarrow> u64 option" where
  "reply_seq (Connected _ _ _) = None"
| "reply_seq (Ack seq _ _) = Some seq"
| "reply_seq (WriteAccessResult seq _ _) = Some seq"
| "reply_seq (CommandSet seq _ _ _) = Some seq"
| "reply_seq (CommandResult seq _ _) = Some seq"
| "reply_seq (SavedSetList seq _) = Some seq"
| "reply_seq (StateMessage seq _) = seq"
| "reply_seq (CommandSetChanged _ _) = None"
| "reply_seq (WriteAccessChanged _ _) = None"

fun reply_of :: "delivery \<Rightarrow> (ControllerId \<times> u64) list" where
  "reply_of (ToUi m) = (case reply_seq m of None \<Rightarrow> [] | Some seq \<Rightarrow> [(Hid, seq)])"
| "reply_of (ToHid _) = []"
| "reply_of (ToWebSocket (Some token) m) =
     (case reply_seq m of None \<Rightarrow> [] | Some seq \<Rightarrow> [(WebSocket token, seq)])"
| "reply_of (ToWebSocket None m) = []"

definition replies :: "delivery list \<Rightarrow> (ControllerId \<times> u64) list" where
  "replies ds = concat (map reply_of ds)"

lemma replies_simps [simp]:
  "replies [] = []" "replies (d # ds) = reply_of d @ replies ds"
  "replies (xs @ ys) = replies xs @ replies ys" "replies (map ToHid rs) = []"
  by (auto simp: replies_def)

lemma and_then_cases:
  assumes "and_then a b cm = (r, cm'')"
  obtains (fail) e where "a cm = (Inl e, cm'')" "r = Inl e"
    | (go) cm' where "a cm = (Inr (), cm')" "b cm' = (r, cm'')"
  using assms by (auto simp: and_then_def split: prod.splits sum.splits)

lemma send_hid_effect:
  assumes "send_hid env m ui cm = (r, cm')" and "cm_hid_ui cm = Some ui"
  shows "only_sends cm cm' \<and> r \<noteq> Inl Panic \<and> (\<exists>new. cm_sent cm' = cm_sent cm @ new \<and>
    (r = Inr () \<longrightarrow> replies new = reply_of (ToUi m)))"
proof (cases "process_core_message (ce_hid_alive env (length (cm_sent cm))) m ui")
  case (Inr x)
  then obtain reports ui' where x:
    "process_core_message (ce_hid_alive env (length (cm_sent cm))) m ui = Inr (reports, ui')"
    by (cases x) simp
  then have "only_sends cm cm'"
    unfolding only_sends_def using assms process_core_message_keeps [OF x]
    by (intro exI [of _ "Some ui'"] exI [of _ "ToUi m # map ToHid reports"]) (auto simp: send_hid_def)
  with x assms show ?thesis
    by (auto simp: send_hid_def)
qed (use assms in \<open>auto simp: send_hid_def\<close>)

lemma send_websocket_effect:
  assumes "send_websocket env t m cm = (r, cm')"
  shows "only_sends cm cm' \<and> r \<noteq> Inl Panic \<and> (\<exists>new. cm_sent cm' = cm_sent cm @ new \<and>
    (r = Inr () \<longrightarrow> replies new = reply_of (ToWebSocket t m)))"
proof -
  have "only_sends cm (cm\<lparr>cm_sent := cm_sent cm @ out\<rparr>)" for out
    unfolding only_sends_def by (intro exI [of _ "cm_hid_ui cm"] exI [of _ out]) simp
  with assms show ?thesis
    by (auto simp: send_websocket_def split: if_splits)
qed

lemma send_effect:
  assumes "send env d m cm = (r, cm')" and "d = None \<Longrightarrow> reply_seq m = None"
  shows "only_sends cm cm' \<and> r \<noteq> Inl Panic \<and> (\<exists>new. cm_sent cm' = cm_sent cm @ new \<and>
    (r = Inr () \<longrightarrow> replies new =
       (case d of None \<Rightarrow> [] | Some c \<Rightarrow>
          (case reply_seq m of None \<Rightarrow> [] | Some seq \<Rightarrow> [(c, seq)]))))"
proof (cases d)
  case None
  with assms have no_seq: "reply_seq m = None" by simp
  from assms(1) None have "and_then
      (\<lambda>cm. case cm_hid_ui cm of Some ui \<Rightarrow> send_hid env m ui cm | None \<Rightarrow> ok cm)
      (\<lambda>cm. if cm_websocket_server cm then send_websocket env None m cm else ok cm) cm = (r, cm')"
    by (simp add: send_def)
  then show ?thesis
  proof (cases rule: and_then_cases)
    case (fail e)
    then show ?thesis
      using send_hid_effect [of env m _ cm "Inl e" cm'] None
      by (auto simp: ok_def split: option.splits)
  next
    case (go cm1)
    then have "only_sends cm cm1 \<and> (\<exists>new. cm_sent cm1 = cm_sent cm @ new \<and> replies new = [])"
      using send_hid_effect [of env m _ cm "Inr ()" cm1] no_seq
      by (cases "cm_hid_ui cm") (auto simp: ok_def)
    moreover from go have "only_sends cm1 cm' \<and> r \<noteq> Inl Panic \<and>
        (\<exists>new. cm_sent cm' = cm_sent cm1 @ new \<and> (r = Inr () \<longrightarrow> replies new = []))"
      using send_websocket_effect [of env None m cm1 r cm'] no_seq
      by (auto simp: ok_def split: if_splits)
    ultimately show ?thesis
      using None only_sends_trans [of cm cm1 cm'] by auto
  qed
next
  case (Some c)
  show ?thesis
  proof (cases c)
    case Hid
    with Some assms(1) show ?thesis
      using send_hid_effect [of env m _ cm r cm'] by (auto simp: send_def split: option.splits)
  next
    case (WebSocket t)
    with Some assms(1) show ?thesis
      using send_websocket_effect [of env "Some t" m cm r cm']
      by (auto simp: send_def split: option.splits if_splits)
  qed
qed

type_synonym post = "(ControllerId option \<times> CoreMessage) list"

fun send_all :: "core_env \<Rightarrow> post \<Rightarrow> step" where
  "send_all env [] = ok"
| "send_all env ((d, m) # post) = and_then (send env d m) (send_all env post)"

definition broadcasts_plain :: "post \<Rightarrow> bool" where
  "broadcasts_plain post \<longleftrightarrow> (\<forall>m. (None, m) \<in> set post \<longrightarrow> reply_seq m = None)"

definition post_replies :: "post \<Rightarrow> (ControllerId \<times> u64) list" where
  "post_replies post = concat (map (\<lambda>(d, m). case d of None \<Rightarrow> [] | Some c \<Rightarrow>
     (case reply_seq m of None \<Rightarrow> [] | Some seq \<Rightarrow> [(c, seq)])) post)"

lemma send_all_effect:
  assumes "send_all env post cm = (r, cm')" and "broadcasts_plain post"
  shows "only_sends cm cm' \<and> r \<noteq> Inl Panic \<and> (\<exists>new. cm_sent cm' = cm_sent cm @ new \<and>
    (r = Inr () \<longrightarrow> replies new = post_replies post))"
  using assms
proof (induction post arbitrary: cm)
  case Nil
  then show ?case by (auto simp: ok_def post_replies_def)
next
  case (Cons dm post)
  obtain d m where dm: "dm = (d, m)" by fastforce
  with Cons.prems(2) have plain: "d = None \<Longrightarrow> reply_seq m = None" "broadcasts_plain post"
    by (auto simp: broadcasts_plain_def)
  from Cons.prems(1) have "and_then (send env d m) (send_all env post) cm = (r, cm')"
    by (simp add: dm)
  then show ?case
  proof (cases rule: and_then_cases)
    case (fail e)
    with send_effect [OF fail(1) plain(1)] show ?thesis by auto
  next
    case (go cm1)
    from send_effect [OF go(1) plain(1)] Cons.IH [OF go(2) plain(2)] show ?thesis
      using only_sends_trans [of cm cm1 cm'] by (auto simp: dm post_replies_def)
  qed
qed

subsection \<open>Messages commit before they answer\<close>

text \<open>
  A specification without effects: a message either panics or moves the core to a new state, and
  a list of messages is then posted.
\<close>

definition synced :: "CoreManager \<Rightarrow> CoreManager option" where
  "synced cm =
     map_option (\<lambda>limited. lock_commands (dc_commands_update (\<lambda>_. limited))
         (cm\<lparr>cm_core_state := (cm_core_state cm)
             \<lparr>cs_command_set_version := fst (cm_active_command_set cm)\<rparr>\<rparr>))
       (clamp_commands (cm_limits cm) (snd (cm_active_command_set cm)))"

definition answer :: "ControllerId \<Rightarrow> CoreMessage \<Rightarrow> CoreManager \<Rightarrow> (CoreManager \<times> post) option" where
  "answer c m cm = Some (cm, [(Some c, m)])"

definition plan_replace ::
    "core_env \<Rightarrow> ControllerId \<Rightarrow> u64 \<Rightarrow> u64 option \<Rightarrow> MotionCommand list \<Rightarrow> CoreManager
     \<Rightarrow> (CoreManager \<times> post) option" where
  "plan_replace env c seq base new cm =
     (let version = fst (cm_active_command_set cm) in
      if base \<in> {None, Some version} then do {
        v \<leftarrow> next_version env version;
        cm \<leftarrow> synced (cm\<lparr>cm_active_command_set := (v, new)\<rparr>);
        Some (send_actions ACTION_RESET_INDEX cm,
          [(None, CommandSetChanged v None), (Some c, CommandResult seq True v)])
      } else answer c (CommandResult seq False version) cm)"

definition plan_update ::
    "core_env \<Rightarrow> ControllerId \<Rightarrow> u64 \<Rightarrow> CommandUpdate \<Rightarrow> CoreManager \<Rightarrow> (CoreManager \<times> post) option" where
  "plan_update env c seq upd cm =
     (let (version, commands) = cm_active_command_set cm; i = cu_index upd;
          command = fst (apply_fields (cu_fields upd) (commands ! i)) in
      if length commands \<le> i then answer c (Ack seq False (Some OutOfRange)) cm
      else if command = commands ! i then answer c (CommandResult seq True version) cm
      else do {
        v \<leftarrow> next_version env version;
        cm \<leftarrow> synced (cm\<lparr>cm_active_command_set := (v, commands[i := command])\<rparr>);
        Some (cm, [(None, CommandSetChanged v (Some upd)), (Some c, CommandResult seq True v)])
      })"

definition plan_saved ::
    "core_env \<Rightarrow> ControllerId \<Rightarrow> u64 \<Rightarrow> string \<Rightarrow> u64 option \<Rightarrow> MotionCommand list \<Rightarrow> CoreManager
     \<Rightarrow> (CoreManager \<times> post) option" where
  "plan_saved env c seq name base new cm =
     (let store = (\<lambda>v. (cm\<lparr>cm_saved_command_sets := (cm_saved_command_sets cm)(name \<mapsto> (v, new))\<rparr>,
            [(Some c, CommandResult seq True v)])) in
      case cm_saved_command_sets cm name of
        None \<Rightarrow> Some (store 1)
      | Some (version, _) \<Rightarrow>
          if base \<in> {None, Some version} then map_option store (next_version env version)
          else answer c (CommandResult seq False version) cm)"

text \<open>The messages that only the controller with write access may send.\<close>

fun controls :: "ClientMessage \<Rightarrow> bool" where
  "controls (ReleaseWriteAccess _) = True"
| "controls (UpsertCommandSet _ set_id _ _) = (set_id = None)"
| "controls (UpdateCommand _ _) = True"
| "controls (DeleteCommandSet _ set_id _) = (set_id = None)"
| "controls (SetDrivePower _ _) = True"
| "controls (SetMotionState _ _) = True"
| "controls (AcknowledgeError _) = True"
| "controls _ = False"

definition may_take :: "ControllerId \<Rightarrow> CoreManager \<Rightarrow> bool" where
  "may_take c cm \<longleftrightarrow> cs_drive_state (cm_core_state cm) = Off \<or> holder cm = None \<or> c = Hid"

definition plan :: "core_env \<Rightarrow> ControllerId \<Rightarrow> ClientMessage \<Rightarrow> CoreManager \<Rightarrow> (CoreManager \<times> post) option" where
  "plan env c message cm =
     (if controls message \<and> holder cm \<noteq> Some c
      then answer c (Ack (msg_seq message) False (Some NotWriter)) cm
      else
        case message of
          RequestWriteAccess seq \<Rightarrow>
            if may_take c cm then
              Some (set_holder (Some c) cm,
                (if holder cm = Some c then [] else [(None, WriteAccessChanged (Some c) (holder cm))]) @
                [(Some c, WriteAccessResult seq True (Some c))])
            else answer c (WriteAccessResult seq False (holder cm)) cm
        | ReleaseWriteAccess seq \<Rightarrow>
            Some (set_holder None cm,
              [(None, WriteAccessChanged None (Some c)), (Some c, Ack seq True None)])
        | GetState seq \<Rightarrow> answer c (StateMessage (Some seq) (cm_core_state cm)) cm
        | GetCommandSet seq None \<Rightarrow>
            answer c (case cm_active_command_set cm of (v, cs) \<Rightarrow> CommandSet seq None v cs) cm
        | GetCommandSet seq (Some name) \<Rightarrow>
            answer c (case cm_saved_command_sets cm name of
                None \<Rightarrow> Ack seq False (Some NotFound)
              | Some (v, cs) \<Rightarrow> CommandSet seq (Some name) v cs) cm
        | UpsertCommandSet seq None base new \<Rightarrow> plan_replace env c seq base new cm
        | UpsertCommandSet seq (Some name) base new \<Rightarrow> plan_saved env c seq name base new cm
        | UpdateCommand seq upd \<Rightarrow> plan_update env c seq upd cm
        | DeleteCommandSet seq None base \<Rightarrow> plan_replace env c seq base [] cm
        | DeleteCommandSet seq (Some name) base \<Rightarrow>
            (case cm_saved_command_sets cm name of
               None \<Rightarrow> answer c (Ack seq False (Some NotFound)) cm
             | Some (v, _) \<Rightarrow>
                 if base \<in> {None, Some v}
                 then answer c (Ack seq True None)
                   (cm\<lparr>cm_saved_command_sets := (cm_saved_command_sets cm)(name := None)\<rparr>)
                 else answer c (CommandResult seq False v) cm)
        | ListSavedSets seq \<Rightarrow>
            answer c (SavedSetList seq (saved_set_metadata env (cm_saved_command_sets cm))) cm
        | SetDrivePower seq enabled \<Rightarrow>
            answer c (Ack seq True None)
              (lock_commands (\<lambda>dc. dc\<lparr>dc_power_enabled := enabled,
                 dc_motion_enabled := enabled \<and> dc_motion_enabled dc\<rparr>) cm)
        | SetMotionState seq action \<Rightarrow>
            if motion_action_valid action (cs_drive_state (cm_core_state cm)) then
              answer c (Ack seq True None)
                ((if action \<in> {Start, Stop} then send_actions ACTION_RESET_INDEX else (\<lambda>cm. cm))
                  (lock_commands (\<lambda>dc. dc\<lparr>dc_motion_enabled := action \<in> {Start, Resume}\<rparr>) cm))
            else answer c (Ack seq False (Some InvalidState)) cm
        | AcknowledgeError seq \<Rightarrow>
            if cs_drive_state (cm_core_state cm) = Errored then
              answer c (Ack seq True None) (send_actions ACTION_ACK_ERROR cm)
            else answer c (Ack seq False (Some InvalidState)) cm)"

lemma sync_synced:
  "sync_commands_to_drive cm =
     (case synced cm of Some cm' \<Rightarrow> (Inr (), cm')
      | None \<Rightarrow> (Inl Panic, snd (sync_commands_to_drive cm)))"
  by (auto simp: sync_commands_to_drive_def synced_def ok_def panic_def Let_def
      split: prod.splits option.splits)

lemma and_then_ok [simp]: "and_then a ok = a"
  by (rule ext) (auto simp: and_then_def ok_def split: prod.splits sum.splits)

lemma ok_and_then [simp]: "and_then ok a = a"
  by (rule ext) (simp add: and_then_def ok_def)

lemma and_then_Inr [simp]: "a cm = (Inr u, cm') \<Longrightarrow> and_then a b cm = b cm'"
  by (simp add: and_then_def)

lemma and_then_Inl [simp]: "a cm = (Inl e, cm') \<Longrightarrow> and_then a b cm = (Inl e, cm')"
  by (simp add: and_then_def)

lemma synced_active: "synced cm = Some cm' \<Longrightarrow> cm_active_command_set cm' = cm_active_command_set cm"
  by (auto simp: synced_def lock_commands_def)

definition follows :: "core_env \<Rightarrow> (CoreManager \<times> post) option \<Rightarrow> (core_error + unit) \<times> CoreManager \<Rightarrow> bool" where
  "follows env pl res \<longleftrightarrow>
     (case pl of None \<Rightarrow> fst res = Inl Panic | Some (cm, post) \<Rightarrow> res = send_all env post cm)"

lemma follows_answer [simp]:
  "follows env (answer c m cm) res \<longleftrightarrow> res = send env (Some c) m cm"
  by (simp add: follows_def answer_def)

lemma replace_active_follows:
  "holder cm = Some c \<Longrightarrow>
   follows env (plan_replace env c seq base new cm)
     (replace_active_command_set env c seq base new cm)"
proof -
  assume h: "holder cm = Some c"
  show ?thesis
  proof (cases "base \<in> {None, Some (fst (cm_active_command_set cm))}")
    case False
    with h show ?thesis
      by (auto simp: plan_replace_def replace_active_command_set_def)
  next
    case True
    show ?thesis
    proof (cases "next_version env (fst (cm_active_command_set cm))")
      case None
      with True h show ?thesis
        by (auto simp: plan_replace_def replace_active_command_set_def follows_def panic_def)
    next
      case (Some v)
      let ?cm = "cm\<lparr>cm_active_command_set := (v, new)\<rparr>"
      show ?thesis
      proof (cases "synced ?cm")
        case None
        with sync_synced [of ?cm] obtain cm' where "sync_commands_to_drive ?cm = (Inl Panic, cm')"
          by auto
        with True h Some None show ?thesis
          by (auto simp: plan_replace_def replace_active_command_set_def follows_def)
      next
        case (Some cm')
        with sync_synced [of ?cm] have "sync_commands_to_drive ?cm = (Inr (), cm')"
          by simp
        moreover have "fst (cm_active_command_set cm') = v"
          using synced_active [OF Some] by simp
        moreover have "cm_active_command_set (snd (send env None m cm'')) = cm_active_command_set cm''"
          if "reply_seq m = None" for m cm''
          using send_effect [of env None m cm''] that only_sends_simps(5)
          by (cases "send env None m cm''") auto
        from this [of "CommandSetChanged v None" "send_actions ACTION_RESET_INDEX cm'"]
        have "and_then (send env None (CommandSetChanged v None))
            (\<lambda>cm. send env (Some c) (CommandResult seq True (fst (cm_active_command_set cm))) cm)
            (send_actions ACTION_RESET_INDEX cm') =
          and_then (send env None (CommandSetChanged v None))
            (send env (Some c) (CommandResult seq True v)) (send_actions ACTION_RESET_INDEX cm')"
          using \<open>fst (cm_active_command_set cm') = v\<close>
          by (auto simp: and_then_def send_actions_def split: prod.splits sum.splits)
        ultimately show ?thesis
          using True h \<open>next_version env _ = Some v\<close> Some
          by (auto simp: plan_replace_def replace_active_command_set_def follows_def send_actions_def)
      qed
    qed
  qed
qed

lemma update_command_follows:
  assumes h: "holder cm = Some c"
  shows "follows env (plan_update env c seq upd cm) (update_command env c seq upd cm)"
proof -
  obtain version commands where active: "cm_active_command_set cm = (version, commands)"
    by fastforce
  let ?i = "cu_index upd"
  obtain command changed where applied: "apply_fields (cu_fields upd) (commands ! ?i) = (command, changed)"
    by fastforce
  then have changed: "changed \<longleftrightarrow> command \<noteq> commands ! ?i"
    using apply_fields_changed [of "cu_fields upd" "commands ! ?i"] by simp
  consider "length commands \<le> ?i" | "?i < length commands" "\<not> changed"
    | "?i < length commands" "changed" by linarith
  then show ?thesis
  proof cases
    case 1
    with h active show ?thesis
      by (simp add: plan_update_def update_command_def reject_def)
  next
    case 2
    have unchanged: "cm\<lparr>cm_active_command_set := (version, commands)\<rparr> = cm"
      by (simp add: active [symmetric])
    from 2 h active applied changed show ?thesis
      by (simp add: plan_update_def update_command_def unchanged)
  next
    case 3
    show ?thesis
    proof (cases "next_version env version")
      case None
      with 3 h active applied changed show ?thesis
        by (auto simp: plan_update_def update_command_def follows_def panic_def and_then_def)
    next
      case (Some v)
      let ?cm = "cm\<lparr>cm_active_command_set := (v, commands[?i := command])\<rparr>"
      show ?thesis
      proof (cases "synced ?cm")
        case None
        with sync_synced [of ?cm] obtain cm' where "sync_commands_to_drive ?cm = (Inl Panic, cm')"
          by auto
        with 3 h active applied changed Some None show ?thesis
          by (auto simp: plan_update_def update_command_def follows_def and_then_def)
      next
        case synced: (Some cm')
        with sync_synced [of ?cm] have sync: "sync_commands_to_drive ?cm = (Inr (), cm')"
          by simp
        let ?m = "CommandSetChanged v (Some upd)"
        obtain r cm'' where sent: "send env None ?m cm' = (r, cm'')" by fastforce
        then have "fst (cm_active_command_set cm'') = v"
          using send_effect [OF sent] only_sends_simps(5) synced_active [OF synced] by auto
        with 3 h active applied changed Some synced sync sent show ?thesis
          by (cases r) (auto simp: plan_update_def update_command_def follows_def and_then_def)
      qed
    qed
  qed
qed

lemma saved_follows:
  "follows env (plan_saved env c seq name base new cm)
     (upsert_command_set env c seq (Some name) base new cm)"
  by (auto simp: plan_saved_def upsert_command_set_def follows_def answer_def panic_def
      split: option.splits)

lemma set_motion_state_follows:
  assumes "holder cm = Some c"
  shows "follows env (plan env c (SetMotionState seq action) cm) (set_motion_state env c seq action cm)"
  using assms
  by (cases action) (auto simp: plan_def set_motion_state_def reject_def Let_def comp_def)

lemma request_write_access_follows:
  "follows env (plan env c (RequestWriteAccess seq) cm) (request_write_access env c seq cm)"
  by (auto simp: plan_def request_write_access_def may_take_def follows_def answer_def Let_def)

lemma handle_message_follows: "follows env (plan env c m cm) (handle_message env c m cm)"
proof (cases "controls m \<and> holder cm \<noteq> Some c")
  case True
  then show ?thesis
    by (cases m) (auto simp: plan_def handle_message_def release_write_access_def reject_def
        upsert_command_set_def replace_active_command_set_def update_command_def
        delete_command_set_def set_drive_power_def set_motion_state_def acknowledge_error_def)
next
  case False
  then show ?thesis
  proof (cases m)
    case (RequestWriteAccess seq)
    then show ?thesis using request_write_access_follows by (simp add: handle_message_def)
  next
    case (ReleaseWriteAccess seq)
    with False show ?thesis
      by (auto simp: handle_message_def plan_def release_write_access_def follows_def)
  next
    case (GetState seq)
    then show ?thesis by (simp add: handle_message_def plan_def)
  next
    case (GetCommandSet seq set_id)
    then show ?thesis
      by (auto simp: handle_message_def plan_def get_command_set_def reject_def
          split: option.splits prod.splits)
  next
    case (UpsertCommandSet seq set_id base new)
    with False show ?thesis
      using replace_active_follows saved_follows
      by (cases set_id) (auto simp: handle_message_def plan_def upsert_command_set_def)
  next
    case (UpdateCommand seq upd)
    with False show ?thesis
      using update_command_follows by (simp add: handle_message_def plan_def)
  next
    case (DeleteCommandSet seq set_id base)
    with False show ?thesis
      using replace_active_follows
      by (cases set_id) (auto simp: handle_message_def plan_def delete_command_set_def reject_def
          split: option.splits)
  next
    case (ListSavedSets seq)
    then show ?thesis by (simp add: handle_message_def plan_def list_saved_sets_def)
  next
    case (SetDrivePower seq enabled)
    with False show ?thesis by (simp add: handle_message_def plan_def set_drive_power_def)
  next
    case (SetMotionState seq action)
    with False show ?thesis
      using set_motion_state_follows by (simp add: handle_message_def)
  next
    case (AcknowledgeError seq)
    with False show ?thesis
      by (simp add: handle_message_def plan_def acknowledge_error_def reject_def)
  qed
qed

subsection \<open>Consequences for every message\<close>

lemma synced_frame:
  assumes "synced cm = Some cm'"
  shows "cm_hid_ui cm' = cm_hid_ui cm" "cm_sent cm' = cm_sent cm" "cm_limits cm' = cm_limits cm"
    "cm_websocket_server cm' = cm_websocket_server cm"
    "cm_active_command_set cm' = cm_active_command_set cm"
    "cm_saved_command_sets cm' = cm_saved_command_sets cm" "holder cm' = holder cm"
    "cs_command_set_version (cm_core_state cm') = fst (cm_active_command_set cm)"
    "cs_drive_state (cm_core_state cm') = cs_drive_state (cm_core_state cm)"
    "dc_power_enabled (di_commands (cm_drive cm')) = dc_power_enabled (di_commands (cm_drive cm))"
    "dc_motion_enabled (di_commands (cm_drive cm')) = dc_motion_enabled (di_commands (cm_drive cm))"
    "clamp_commands (cm_limits cm) (snd (cm_active_command_set cm)) =
       Some (dc_commands (di_commands (cm_drive cm')))"
  using assms by (auto simp: synced_def lock_commands_def holder_def)

lemma plan_replace_cases:
  assumes "plan_replace env c seq base new cm = Some (cm', post)"
  obtains (changed) v cm1 where "base \<in> {None, Some (fst (cm_active_command_set cm))}"
      "next_version env (fst (cm_active_command_set cm)) = Some v"
      "synced (cm\<lparr>cm_active_command_set := (v, new)\<rparr>) = Some cm1"
      "cm' = send_actions ACTION_RESET_INDEX cm1"
      "post = [(None, CommandSetChanged v None), (Some c, CommandResult seq True v)]"
    | (stale) "base \<notin> {None, Some (fst (cm_active_command_set cm))}" "cm' = cm"
      "post = [(Some c, CommandResult seq False (fst (cm_active_command_set cm)))]"
proof (cases "base \<in> {None, Some (fst (cm_active_command_set cm))}")
  case True
  with assms obtain v cm1 where "next_version env (fst (cm_active_command_set cm)) = Some v"
    "synced (cm\<lparr>cm_active_command_set := (v, new)\<rparr>) = Some cm1"
    "cm' = send_actions ACTION_RESET_INDEX cm1"
    "post = [(None, CommandSetChanged v None), (Some c, CommandResult seq True v)]"
    by (auto simp: plan_replace_def split: Option.bind_splits)
  with True show thesis by (rule changed)
next
  case False
  with assms show thesis
    by (intro stale) (auto simp: plan_replace_def answer_def Let_def split: if_splits)
qed

lemma plan_update_cases:
  assumes "plan_update env c seq upd cm = Some (cm', post)"
  obtains (changed) v cm1 version commands where "cm_active_command_set cm = (version, commands)"
      "cu_index upd < length commands" "next_version env version = Some v"
      "fst (apply_fields (cu_fields upd) (commands ! cu_index upd)) \<noteq> commands ! cu_index upd"
      "synced (cm\<lparr>cm_active_command_set := (v, commands[cu_index upd :=
         fst (apply_fields (cu_fields upd) (commands ! cu_index upd))])\<rparr>) = Some cm'"
      "post = [(None, CommandSetChanged v (Some upd)), (Some c, CommandResult seq True v)]"
    | (same) version commands m where "cm_active_command_set cm = (version, commands)"
      "cu_index upd < length commands \<Longrightarrow>
         fst (apply_fields (cu_fields upd) (commands ! cu_index upd)) = commands ! cu_index upd"
      "cm' = cm" "post = [(Some c, m)]"
      "m = CommandResult seq True version \<or> m = Ack seq False (Some OutOfRange)"
proof -
  obtain version commands where active: "cm_active_command_set cm = (version, commands)"
    by fastforce
  let ?command = "fst (apply_fields (cu_fields upd) (commands ! cu_index upd))"
  show thesis
  proof (cases "cu_index upd < length commands \<and> ?command \<noteq> commands ! cu_index upd")
    case True
    with assms active obtain v where "next_version env version = Some v"
      "synced (cm\<lparr>cm_active_command_set := (v, commands[cu_index upd := ?command])\<rparr>) = Some cm'"
      "post = [(None, CommandSetChanged v (Some upd)), (Some c, CommandResult seq True v)]"
      by (auto simp: plan_update_def Let_def split: Option.bind_splits)
    with True active show thesis by (intro changed) auto
  next
    case False
    with assms active show thesis
      by (intro same [of version commands "if length commands \<le> cu_index upd
          then Ack seq False (Some OutOfRange) else CommandResult seq True version"])
        (auto simp: plan_update_def answer_def Let_def split: if_splits)
  qed
qed

lemma plan_saved_cases:
  assumes "plan_saved env c seq name base new cm = Some (cm', post)"
  obtains (changed) v where
      "cm' = cm\<lparr>cm_saved_command_sets := (cm_saved_command_sets cm)(name \<mapsto> (v, new))\<rparr>"
      "post = [(Some c, CommandResult seq True v)]"
      "v = (case cm_saved_command_sets cm name of None \<Rightarrow> 1
        | Some (version, _) \<Rightarrow> the (next_version env version))"
    | (stale) version commands where "cm' = cm" "cm_saved_command_sets cm name = Some (version, commands)"
      "base \<notin> {None, Some version}" "post = [(Some c, CommandResult seq False version)]"
proof (cases "cm_saved_command_sets cm name")
  case None
  with assms show thesis
    by (intro changed [of 1]) (simp_all add: plan_saved_def)
next
  case (Some x)
  obtain version commands where x: "x = (version, commands)" by fastforce
  show thesis
  proof (cases "base \<in> {None, Some version}")
    case True
    with assms Some x show thesis
      by (intro changed) (auto simp: plan_saved_def)
  next
    case False
    with assms Some x show thesis
      by (intro stale) (auto simp: plan_saved_def answer_def split: if_splits)
  qed
qed

definition addressed :: "ControllerId \<Rightarrow> post \<Rightarrow> bool" where
  "addressed c post \<longleftrightarrow> fst ` set post \<subseteq> {None, Some c}"

text \<open>What every message does to the rest of the core, and the one reply it gets.\<close>

lemma plan_frame:
  assumes "plan env c m cm = Some (cm', post)"
  shows "cm_hid_ui cm' = cm_hid_ui cm \<and> cm_sent cm' = cm_sent cm \<and> cm_limits cm' = cm_limits cm \<and>
    cm_websocket_server cm' = cm_websocket_server cm \<and>
    broadcasts_plain post \<and> post_replies post = [(c, msg_seq m)] \<and> addressed c post"
proof -
  note replies = broadcasts_plain_def post_replies_def addressed_def
  consider (active) seq base new where "plan_replace env c seq base new cm = Some (cm', post)"
      "msg_seq m = seq"
    | (upd) seq u where "plan_update env c seq u cm = Some (cm', post)" "msg_seq m = seq"
    | (saved) seq name base new where "plan_saved env c seq name base new cm = Some (cm', post)"
      "msg_seq m = seq"
    | (other) "cm_hid_ui cm' = cm_hid_ui cm" "cm_sent cm' = cm_sent cm"
      "cm_limits cm' = cm_limits cm" "cm_websocket_server cm' = cm_websocket_server cm"
      "broadcasts_plain post" "post_replies post = [(c, msg_seq m)]" "addressed c post"
    using assms
    by (cases m; cases "controls m \<and> holder cm \<noteq> Some c")
      (auto simp: plan_def answer_def replies set_holder_def lock_commands_def send_actions_def
        split: if_splits option.splits prod.splits)
  then show ?thesis
  proof cases
    case active
    from active(1) show ?thesis
      using active(2) by (cases rule: plan_replace_cases)
        (auto simp: replies send_actions_def synced_frame)
  next
    case upd
    from upd(1) show ?thesis
      using upd(2) by (cases rule: plan_update_cases) (auto simp: replies synced_frame)
  next
    case saved
    from saved(1) show ?thesis
      using saved(2) by (cases rule: plan_saved_cases) (auto simp: replies)
  qed auto
qed

lemma handle_message_cases:
  assumes "handle_message env c m cm = (r, cm')"
  obtains (panic) "plan env c m cm = None" "r = Inl Panic"
    | (plan) cm1 post new where "plan env c m cm = Some (cm1, post)" "send_all env post cm1 = (r, cm')"
      "only_sends cm1 cm'" "r \<noteq> Inl Panic" "cm_sent cm' = cm_sent cm @ new"
      "r = Inr () \<longrightarrow> replies new = [(c, msg_seq m)]"
proof (cases "plan env c m cm")
  case None
  with assms handle_message_follows [of env c m cm] show thesis
    by (intro panic) (auto simp: follows_def)
next
  case (Some x)
  then obtain cm1 post where x: "plan env c m cm = Some (cm1, post)"
    by (cases x) simp
  with assms handle_message_follows [of env c m cm] have "send_all env post cm1 = (r, cm')"
    by (simp add: follows_def)
  with plan_frame [OF x] send_all_effect [OF this] show thesis
    using plan [OF x] by auto
qed

subsection \<open>Invariants of the core\<close>

text \<open>
  The contract an invariant has to meet, in surroundings that are \<open>env_ok\<close>: it does not depend on the user interface or on what was
  sent, and every message, a disconnection and a feedback of the drive preserve it.
\<close>

definition cut_power :: "CoreManager \<Rightarrow> CoreManager" where
  "cut_power cm = lock_commands (\<lambda>dc. dc\<lparr>dc_power_enabled := False, dc_motion_enabled := False\<rparr>)
     (set_holder None cm)"

definition feed_back :: "DriveFeedback \<Rightarrow> CoreManager \<Rightarrow> CoreManager" where
  "feed_back fb cm = cm\<lparr>cm_core_state := state_after_feedback fb (cm_core_state cm)\<rparr>"

lemma simple_events:
  "handle_event env (ControllerConnected c) cm = (r, cm') \<Longrightarrow> only_sends cm cm'"
  "handle_event env (ControllerDisconnected c) cm = (r, cm') \<Longrightarrow>
     only_sends (if holder cm = Some c then cut_power cm else cm) cm'"
  "handle_event env (DriveStateUpdated fb) cm = (r, cm') \<Longrightarrow> only_sends (feed_back fb cm) cm'"
  using send_effect [of env "Some c" _ cm r cm'] send_effect [of env None _ "cut_power cm" r cm']
    send_effect [of env None _ "feed_back fb cm" r cm']
  by (auto simp: handle_event_def controller_disconnected_def cut_power_def feed_back_def ok_def
      Let_def split: if_splits)

locale core_invariant =
  fixes env_ok :: "core_env \<Rightarrow> bool" and inv :: "CoreManager \<Rightarrow> bool"
  assumes inv_outputs: "inv (cm\<lparr>cm_hid_ui := ui, cm_sent := out\<rparr>) \<longleftrightarrow> inv cm"
    and inv_plan: "env_ok env \<Longrightarrow> plan env c m cm = Some (cm', post) \<Longrightarrow> inv cm \<Longrightarrow> inv cm'"
    and inv_cut_power: "inv cm \<Longrightarrow> inv (cut_power cm)"
    and inv_feed_back: "inv cm \<Longrightarrow> inv (feed_back fb cm)"
begin

lemma inv_sends: "only_sends cm cm' \<Longrightarrow> inv cm' \<longleftrightarrow> inv cm"
  by (auto simp: only_sends_def inv_outputs)

lemma inv_message:
  assumes "handle_message env c m cm = (r, cm')" "inv cm" "r \<noteq> Inl Panic" "env_ok env"
  shows "inv cm'"
  using assms(1)
proof (cases rule: handle_message_cases)
  case (plan cm1 post new)
  with assms(2,4) show ?thesis
    using inv_plan inv_sends by blast
qed (use assms(3) in simp)

lemma inv_messages:
  assumes "handle_messages env c ms cm = (r, cm')" "inv cm" "r \<noteq> Inl Panic" "env_ok env"
  shows "inv cm'"
  using assms
proof (induction ms arbitrary: cm)
  case (Cons m ms)
  from Cons.prems(1) have "and_then (handle_message env c m) (handle_messages env c ms) cm = (r, cm')"
    by simp
  then show ?case
    by (cases rule: and_then_cases) (use Cons inv_message in blast)+
qed (simp add: ok_def)

lemma inv_event:
  assumes "handle_event env ev cm = (r, cm')" "inv cm" "r \<noteq> Inl Panic" "env_ok env"
  shows "inv cm'"
proof (cases ev)
  case (ControllerConnected c)
  with assms show ?thesis
    using simple_events(1) inv_sends by blast
next
  case (ControllerDisconnected c)
  then have "only_sends (if holder cm = Some c then cut_power cm else cm) cm'"
    using assms(1) simple_events(2) by blast
  then show ?thesis
    using assms(2) inv_cut_power [of cm] inv_sends by (simp split: if_splits)
next
  case (Message c m)
  with assms show ?thesis
    using inv_message by (auto simp: handle_event_def)
next
  case (DriveStateUpdated fb)
  then show ?thesis
    using assms(1,2) inv_feed_back simple_events(3) inv_sends by blast
next
  case (HidInputReport report)
  then show ?thesis
    using assms inv_messages [of env Hid _ "cm\<lparr>cm_hid_ui := _, cm_sent := _\<rparr>" r cm'] inv_outputs
    by (auto simp: handle_event_def hid_input_report_def ok_def panic_def
        split: option.splits sum.splits prod.splits)
qed

end

text \<open>The states the core reaches from its start, as long as no event ends in an error.\<close>

inductive core_reachable :: "SystemLimits \<Rightarrow> CoreManager \<Rightarrow> bool" for limits where
  start: "core_reachable limits (CoreManager_new limits hid_io websocket_server)"
| event: "core_reachable limits cm \<Longrightarrow> handle_event env ev cm = (Inr (), cm') \<Longrightarrow>
    core_reachable limits cm'"

context core_invariant
begin

lemma inv_reachable:
  assumes "core_reachable limits cm"
    and "\<And>hid_io ws. inv (CoreManager_new limits hid_io ws)" and "\<And>env. env_ok env"
  shows "inv cm"
  using assms(1)
proof induction
  case (event cm env ev cm')
  then show ?case using inv_event assms(3) by blast
qed (rule assms(2))

end

subsection \<open>A concrete core\<close>

definition example_env :: core_env where
  "example_env = \<lparr>ce_profile = Release, ce_hid_alive = \<lambda>_. True, ce_websocket_alive = \<lambda>_. True,
     ce_iter = \<lambda>_. [''warm up'']\<rparr>"

definition example_core :: CoreManager where
  "example_core = CoreManager_new example_limits True True"

text \<open>Unfolding a handler on a concrete state.\<close>

lemmas run_defs = handle_event_def handle_message_def send_def send_hid_def send_websocket_def
  process_core_message_def and_then_def ok_def panic_def reject_def example_env_def
  request_write_access_def upsert_command_set_def replace_active_command_set_def
  delete_command_set_def get_command_set_def list_saved_sets_def set_drive_power_def
  set_motion_state_def motion_action_valid_def controller_disconnected_def
  sync_commands_to_drive_def next_version_def arith_u64_def holder_def set_holder_def
  lock_commands_def send_actions_def CoreManager_new_def CoreState_default_def
  DriveInterface_default_def DriveCommands_default_def state_after_feedback_def
  DriveFeedback_default_def

end
