(* ===== verification/CoreSafety.thy ===== *)
theory CoreSafety
  imports CoreSpec
begin

text \<open>
  What the core lets reach the drive: the published commands are within the limits, only the
  controller with write access changes them, and the handheld controller edits what it shows.
\<close>

subsection \<open>What is published to the drive\<close>

definition within_limits :: "SystemLimits \<Rightarrow> MotionCommand \<Rightarrow> bool" where
  "within_limits limits c \<longleftrightarrow>
     Position 0 \<le> position c \<and> position c \<le> limit_position limits \<and>
     Velocity 0 \<le> velocity c \<and> velocity c \<le> limit_velocity limits \<and>
     Acceleration 0 \<le> acceleration c \<and> acceleration c \<le> limit_acceleration limits \<and>
     Acceleration 0 \<le> deceleration c \<and> deceleration c \<le> limit_deceleration limits"

lemma clamp_command_within: "clamp_command limits c = Some c' \<Longrightarrow> within_limits limits c'"
  by (auto simp: clamp_command_def within_limits_def dest!: ord_clamp_range
      split: Option.bind_splits)

lemma clamp_command_id: "within_limits limits c \<Longrightarrow> clamp_command limits c = Some c"
  by (cases c) (simp add: clamp_command_def within_limits_def ord_clamp_id)

lemma clamp_commands_within:
  "clamp_commands limits cs = Some cs' \<Longrightarrow> list_all (within_limits limits) cs' \<and> length cs' = length cs"
  by (induction cs arbitrary: cs') (auto simp: clamp_command_within split: Option.bind_splits)

lemma clamp_commands_id: "list_all (within_limits limits) cs \<Longrightarrow> clamp_commands limits cs = Some cs"
  by (induction cs) (auto simp: clamp_command_id)

definition published :: "CoreManager \<Rightarrow> MotionCommand list" where
  "published cm = dc_commands (di_commands (cm_drive cm))"

definition published_ok :: "SystemLimits \<Rightarrow> CoreManager \<Rightarrow> bool" where
  "published_ok limits cm \<longleftrightarrow> cm_limits cm = limits \<and>
     clamp_commands limits (snd (cm_active_command_set cm)) = Some (published cm) \<and>
     cs_command_set_version (cm_core_state cm) = fst (cm_active_command_set cm)"

lemma synced_published:
  assumes "synced cm = Some cm'" "cm_limits cm = limits"
  shows "published_ok limits cm'"
  using synced_frame [OF assms(1)] assms(2) by (simp add: published_ok_def published_def)

lemma published_send_actions [simp]:
  "published_ok limits (send_actions bits cm) = published_ok limits cm"
  by (simp add: published_ok_def published_def send_actions_def)

lemma plan_published:
  assumes "plan env c m cm = Some (cm', post)" "published_ok limits cm"
  shows "published_ok limits cm'"
proof -
  consider (active) seq base new where "plan_replace env c seq base new cm = Some (cm', post)"
    | (upd) seq u where "plan_update env c seq u cm = Some (cm', post)"
    | (saved) seq name base new where "plan_saved env c seq name base new cm = Some (cm', post)"
    | (other) "cm_limits cm' = cm_limits cm" "cm_active_command_set cm' = cm_active_command_set cm"
      "published cm' = published cm"
      "cs_command_set_version (cm_core_state cm') = cs_command_set_version (cm_core_state cm)"
    using assms(1)
    by (cases m; cases "controls m \<and> holder cm \<noteq> Some c")
      (auto simp: plan_def answer_def set_holder_def lock_commands_def send_actions_def published_def
        split: if_splits option.splits prod.splits)
  then show ?thesis
  proof cases
    case active
    then show ?thesis
      using assms(2) synced_published
      by (cases rule: plan_replace_cases) (simp_all add: published_ok_def [of limits cm])
  next
    case upd
    then show ?thesis
      using assms(2) synced_published
      by (cases rule: plan_update_cases) (simp_all add: published_ok_def [of limits cm])
  next
    case saved
    then show ?thesis
      using assms(2) by (cases rule: plan_saved_cases) (auto simp: published_ok_def published_def)
  qed (use assms(2) in \<open>simp add: published_ok_def\<close>)
qed

interpretation published: core_invariant "\<lambda>_. True" "published_ok limits" for limits
proof
  show "published_ok limits (cm\<lparr>cm_hid_ui := ui, cm_sent := out\<rparr>) \<longleftrightarrow> published_ok limits cm"
    for cm ui out
    by (simp add: published_ok_def published_def)
  show "published_ok limits (cut_power cm)" if "published_ok limits cm" for cm
    using that by (simp add: published_ok_def published_def cut_power_def lock_commands_def
        set_holder_def)
  show "published_ok limits (feed_back fb cm)" if "published_ok limits cm" for cm fb
    using that by (simp add: published_ok_def published_def feed_back_def state_after_feedback_def)
qed (rule plan_published)

lemma published_ok_start: "published_ok limits (CoreManager_new limits hid_io ws)"
  by (simp add: published_ok_def published_def CoreManager_new_def DriveInterface_default_def
      DriveCommands_default_def CoreState_default_def)

text \<open>
  C5: whatever the controllers and the drive do, the command list published to the drive is the
  active command set with every field clamped to the system limits, and the version the core
  state reports is that of the active command set.
\<close>

theorem published_commands_within_limits:
  assumes "core_reachable limits cm"
  shows "clamp_commands limits (snd (cm_active_command_set cm)) = Some (published cm) \<and>
    list_all (within_limits limits) (published cm) \<and>
    length (published cm) = length (snd (cm_active_command_set cm)) \<and>
    cs_command_set_version (cm_core_state cm) = fst (cm_active_command_set cm)"
  using published.inv_reachable [OF assms published_ok_start] clamp_commands_within
  by (auto simp: published_ok_def)

subsection \<open>Write access\<close>

fun source :: "CoreEvent \<Rightarrow> ControllerId option" where
  "source (ControllerConnected c) = Some c"
| "source (ControllerDisconnected c) = Some c"
| "source (Message c _) = Some c"
| "source (DriveStateUpdated _) = None"
| "source (HidInputReport _) = Some Hid"

lemma plan_bystander:
  assumes "plan env c m cm = Some (cm', post)" "holder cm \<noteq> Some c"
  shows "cm_drive cm' = cm_drive cm \<and> cm_active_command_set cm' = cm_active_command_set cm"
  using assms
  by (cases m) (auto simp: plan_def answer_def set_holder_def plan_saved_def Let_def
      split: if_splits option.splits)

lemma plan_holder:
  assumes "plan env c m cm = Some (cm', post)"
  shows "holder cm' =
    (case m of
       RequestWriteAccess _ \<Rightarrow> if may_take c cm then Some c else holder cm
     | ReleaseWriteAccess _ \<Rightarrow> if holder cm = Some c then None else holder cm
     | _ \<Rightarrow> holder cm)"
proof -
  have put: "holder (cm\<lparr>cm_active_command_set := x\<rparr>) = holder cm" for x
    by (simp add: holder_def)
  have "holder cm' = holder cm" if "plan_replace env c seq base new cm = Some (cm', post)" for seq base new
    using that by (cases rule: plan_replace_cases)
      (auto simp: send_actions_def holder_def dest: synced_frame(7))
  moreover have "holder cm' = holder cm" if "plan_update env c seq u cm = Some (cm', post)" for seq u
    using that by (cases rule: plan_update_cases) (auto simp: put dest!: synced_frame(7))
  moreover have "holder cm' = holder cm" if "plan_saved env c seq name base new cm = Some (cm', post)"
    for seq name base new
    using that by (cases rule: plan_saved_cases) (auto simp: holder_def)
  ultimately show ?thesis
    using assms
    by (cases m) (auto simp: plan_def answer_def holder_def set_holder_def lock_commands_def
        send_actions_def split: if_splits option.splits)
qed

definition quiet :: "CoreManager \<Rightarrow> CoreManager \<Rightarrow> bool" where
  "quiet cm cm' \<longleftrightarrow> cm_drive cm' = cm_drive cm \<and> cm_active_command_set cm' = cm_active_command_set cm \<and>
     (cs_drive_state (cm_core_state cm) \<noteq> Off \<longrightarrow> holder cm \<noteq> None \<longrightarrow> holder cm' = holder cm)"

lemma quiet_sends: "only_sends cm cm' \<Longrightarrow> quiet cm cm'"
  by (simp add: quiet_def only_sends_simps)

lemma handle_message_quiet:
  assumes "handle_message env c m cm = (r, cm')" "r \<noteq> Inl Panic" "holder cm \<noteq> Some c" "c \<noteq> Hid"
  shows "quiet cm cm'"
  using assms(1)
proof (cases rule: handle_message_cases)
  case (plan cm1 post new)
  have "holder cm1 = holder cm" if "cs_drive_state (cm_core_state cm) \<noteq> Off" "holder cm \<noteq> None"
    using plan_holder [OF plan(1)] that assms(3,4)
    by (auto simp: may_take_def split: ClientMessage.splits)
  then show ?thesis
    using plan_bystander [OF plan(1) assms(3)] only_sends_simps [OF plan(3)] by (simp add: quiet_def)
qed (use assms(2) in simp)

text \<open>
  C6: an event that does not come from the controller with write access, nor from the handheld
  controller, leaves the power and motion switches, the pending actions and the commands of the
  drive and the active command set as they are; and unless the drive is off it does not take the
  write access away.
\<close>

theorem exclusive_control:
  assumes "handle_event env ev cm = (r, cm')" "r \<noteq> Inl Panic"
    and "source ev \<noteq> Some Hid" "source ev = None \<or> holder cm \<noteq> source ev"
  shows "cm_drive cm' = cm_drive cm \<and> cm_active_command_set cm' = cm_active_command_set cm \<and>
    (cs_drive_state (cm_core_state cm) \<noteq> Off \<longrightarrow> holder cm \<noteq> None \<longrightarrow> holder cm' = holder cm)"
proof -
  have "quiet cm cm'"
  proof (cases ev)
    case (ControllerConnected c)
    with assms(1) show ?thesis
      using simple_events(1) quiet_sends by blast
  next
    case (DriveStateUpdated fb)
    with assms(1) have "only_sends (feed_back fb cm) cm'"
      using simple_events(3) by blast
    from only_sends_simps [OF this] show ?thesis
      by (simp add: quiet_def feed_back_def holder_def state_after_feedback_def)
  qed (use assms handle_message_quiet in \<open>auto simp: handle_event_def controller_disconnected_def
    ok_def quiet_def\<close>)
  then show ?thesis
    by (simp add: quiet_def)
qed

text \<open>
  C16: every message a client sends is answered exactly once, to the client that sent it and with
  its sequence number, whatever the message and the state; no other delivery carries a sequence
  number.
\<close>

theorem one_reply:
  assumes "handle_message env c m cm = (Inr (), cm')"
  shows "\<exists>new. cm_sent cm' = cm_sent cm @ new \<and> replies new = [(c, msg_seq m)]"
  using assms by (cases rule: handle_message_cases) auto

text \<open>When the controller with write access disconnects, the drive's power and motion switches are
  off and the write access is free, whether or not the others can be told.\<close>

lemma disconnect_cuts_power:
  assumes "handle_event env (ControllerDisconnected c) cm = (r, cm')" "holder cm = Some c"
  shows "\<not> dc_power_enabled (di_commands (cm_drive cm')) \<and>
    \<not> dc_motion_enabled (di_commands (cm_drive cm')) \<and> holder cm' = None"
proof -
  have "only_sends (cut_power cm) cm'"
    using assms simple_events(2) by fastforce
  from only_sends_simps [OF this] show ?thesis
    by (simp add: cut_power_def lock_commands_def set_holder_def holder_def)
qed

subsection \<open>The handheld controller and the active command set\<close>

lemma plan_edit:
  assumes "plan env c m cm = Some (cm', post)" "holder cm = Some c" "unconditional m"
  shows "snd (cm_active_command_set cm') = edit m (snd (cm_active_command_set cm)) \<and>
    holder cm' = Some c"
proof
  show "holder cm' = Some c"
    using plan_holder [OF assms(1)] assms(2,3) by (cases m) auto
  have replace: "snd (cm_active_command_set cm') = new"
    if "plan_replace env c seq None new cm = Some (cm', post)" for seq new
    using that by (cases rule: plan_replace_cases)
      (auto simp: send_actions_def dest!: synced_frame(5))
  have upd: "snd (cm_active_command_set cm') = edit (UpdateCommand seq u) (snd (cm_active_command_set cm))"
    if "plan_update env c seq u cm = Some (cm', post)" for seq u
    using that by (cases rule: plan_update_cases) (auto dest!: synced_frame(5))
  have saved: "cm_active_command_set cm' = cm_active_command_set cm"
    if "plan_saved env c seq name base new cm = Some (cm', post)" for seq name base new
    using that by (cases rule: plan_saved_cases) auto
  show "snd (cm_active_command_set cm') = edit m (snd (cm_active_command_set cm))"
    using assms upd replace saved
    by (cases m) (auto simp: plan_def answer_def set_holder_def lock_commands_def send_actions_def
        split: if_splits option.splits simp del: edit.simps(1))
qed

definition ui_commands :: "CoreManager \<Rightarrow> (MotionCommand \<times> MotionCommand) option" where
  "ui_commands cm = map_option ui_motion_commands (cm_hid_ui cm)"

lemma handle_message_ui:
  assumes "handle_message env c m cm = (Inr (), cm')"
  shows "ui_commands cm' = ui_commands cm \<and> cm_limits cm' = cm_limits cm"
  using assms
proof (cases rule: handle_message_cases)
  case (plan cm1 post new)
  then show ?thesis
    using plan_frame [OF plan(1)] only_sends_simps [OF plan(3)] by (simp add: ui_commands_def)
qed simp

lemma handle_message_edit:
  assumes "handle_message env c m cm = (Inr (), cm')" "holder cm = Some c" "unconditional m"
  shows "snd (cm_active_command_set cm') = edit m (snd (cm_active_command_set cm)) \<and>
    holder cm' = Some c"
  using assms(1)
proof (cases rule: handle_message_cases)
  case (plan cm1 post new)
  then show ?thesis
    using plan_edit [OF plan(1) assms(2,3)] only_sends_simps [OF plan(3)] by simp
qed simp

lemma handle_messages_ui:
  "handle_messages env c ms cm = (Inr (), cm') \<Longrightarrow> ui_commands cm' = ui_commands cm"
proof (induction ms arbitrary: cm)
  case (Cons m ms)
  then have "and_then (handle_message env c m) (handle_messages env c ms) cm = (Inr (), cm')"
    by simp
  then show ?case
  proof (cases rule: and_then_cases)
    case (go cm1)
    with Cons.IH [OF go(2)] handle_message_ui [OF go(1)] show ?thesis by simp
  qed simp
qed (simp add: ok_def)

lemma handle_messages_edit:
  assumes "handle_messages env c ms cm = (Inr (), cm')" "holder cm = Some c" "list_all unconditional ms"
  shows "snd (cm_active_command_set cm') = fold edit ms (snd (cm_active_command_set cm))"
  using assms
proof (induction ms arbitrary: cm)
  case (Cons m ms)
  then have "and_then (handle_message env c m) (handle_messages env c ms) cm = (Inr (), cm')"
    by simp
  then show ?case
  proof (cases rule: and_then_cases)
    case (go cm1)
    with Cons.prems handle_message_edit [OF go(1)] Cons.IH [OF go(2)] show ?thesis
      by simp
  qed simp
qed (simp add: ok_def)

definition hid_in_step :: "CoreManager \<Rightarrow> bool" where
  "hid_in_step cm \<longleftrightarrow> (holder cm = Some Hid \<longrightarrow>
     map_option commands_to_vec (ui_commands cm) = Some (snd (cm_active_command_set cm)))"

text \<open>Only connections send messages; the thread of the handheld controller sends reports.\<close>

fun from_threads :: "CoreEvent \<Rightarrow> bool" where
  "from_threads (Message c _) = (c \<noteq> Hid)"
| "from_threads _ = True"

lemma hid_in_step_sends: "only_sends cm cm' \<Longrightarrow> hid_in_step cm' = hid_in_step cm"
  by (simp add: hid_in_step_def ui_commands_def only_sends_simps)

lemma hid_in_step_report:
  assumes "hid_input_report env report cm = (Inr (), cm')" "hid_in_step cm"
  shows "hid_in_step cm'"
proof (cases "cm_hid_ui cm")
  case None
  with assms show ?thesis by (simp add: hid_input_report_def ok_def)
next
  case (Some ui)
  with assms(1) obtain ms out ui' where
    report: "process_input_report (ce_profile env) (ce_hid_alive env (length (cm_sent cm))) report
      (cm_limits cm) (cm_core_state cm) ui = Some (Inr (ms, out, ui'))" and
    run: "handle_messages env Hid ms (cm\<lparr>cm_hid_ui := Some ui', cm_sent := cm_sent cm @ map ToHid out\<rparr>)
      = (Inr (), cm')"
    by (auto simp: hid_input_report_def panic_def split: option.splits sum.splits prod.splits)
  let ?cm = "cm\<lparr>cm_hid_ui := Some ui', cm_sent := cm_sent cm @ map ToHid out\<rparr>"
  have ui': "ui_commands cm' = Some (ui_motion_commands ui')"
    using handle_messages_ui [OF run] by (simp add: ui_commands_def)
  have h: "holder ?cm = holder cm" by (simp add: holder_def)
  show ?thesis
  proof (cases "holder cm = Some Hid")
    case True
    then have "in_step ms ui ui'"
      using process_input_report_in_step [OF report] by (simp add: holder_def)
    then have "snd (cm_active_command_set cm') = commands_to_vec (ui_motion_commands ui')"
      using handle_messages_edit [OF run] h True assms(2) Some
      by (simp add: in_step_def hid_in_step_def ui_commands_def)
    with ui' show ?thesis by (simp add: hid_in_step_def)
  next
    case False
    from report have "ui' = ui" and ms: "ms = [RequestWriteAccess 0,
        UpsertCommandSet 0 None None (commands_to_vec (ui_motion_commands ui))]"
      using False by (cases rule: process_input_report_cases; simp add: holder_def)+
    from run ms obtain cm1 where
      claim: "handle_message env Hid (RequestWriteAccess 0) ?cm = (Inr (), cm1)" and
      upsert: "handle_message env Hid
        (UpsertCommandSet 0 None None (commands_to_vec (ui_motion_commands ui))) cm1 = (Inr (), cm')"
      by (auto simp: and_then_def split: prod.splits sum.splits)
    from claim have "holder cm1 = Some Hid"
    proof (cases rule: handle_message_cases)
      case (plan cm2 post new)
      then show ?thesis
        using plan_holder [OF plan(1)] only_sends_simps(7) [OF plan(3)] by (simp add: may_take_def)
    qed simp
    with handle_message_edit [OF upsert] ui' \<open>ui' = ui\<close> show ?thesis
      by (simp add: hid_in_step_def)
  qed
qed

lemma hid_in_step_message:
  assumes "handle_message env c m cm = (Inr (), cm')" "c \<noteq> Hid" "hid_in_step cm"
  shows "hid_in_step cm'"
  using assms(1)
proof (cases rule: handle_message_cases)
  case (plan cm1 post new)
  have "holder cm1 = Some Hid \<Longrightarrow> holder cm = Some Hid"
    using plan_holder [OF plan(1)] assms(2) by (auto split: ClientMessage.splits if_splits)
  then have "hid_in_step cm1"
    using plan_bystander [OF plan(1)] plan_frame [OF plan(1)] assms(2,3)
    by (auto simp: hid_in_step_def ui_commands_def)
  then show ?thesis
    using hid_in_step_sends [OF plan(3)] by simp
qed simp

lemma hid_in_step_event:
  assumes "handle_event env ev cm = (Inr (), cm')" "from_threads ev" "hid_in_step cm"
  shows "hid_in_step cm'"
proof (cases ev)
  case (ControllerConnected c)
  with assms show ?thesis
    using simple_events(1) hid_in_step_sends by blast
next
  case (ControllerDisconnected c)
  then have "only_sends (if holder cm = Some c then cut_power cm else cm) cm'"
    using assms(1) simple_events(2) by blast
  moreover have "hid_in_step (cut_power cm)"
    by (simp add: hid_in_step_def cut_power_def set_holder_def lock_commands_def holder_def)
  ultimately show ?thesis
    using assms(3) hid_in_step_sends by (simp split: if_splits)
next
  case (Message c m)
  with assms show ?thesis
    using hid_in_step_message by (auto simp: handle_event_def)
next
  case (DriveStateUpdated fb)
  have "hid_in_step (feed_back fb cm)"
    using assms(3) by (simp add: hid_in_step_def feed_back_def ui_commands_def holder_def
        state_after_feedback_def)
  with DriveStateUpdated assms(1) show ?thesis
    using simple_events(3) hid_in_step_sends by blast
next
  case (HidInputReport report)
  with assms show ?thesis
    using hid_in_step_report by (simp add: handle_event_def)
qed

lemma run_core_Cons:
  assumes "run_core ((env, ev) # evs) cm = (Inr (), cm')"
  obtains cm1 where "handle_event env ev cm = (Inr (), cm1)" "run_core evs cm1 = (Inr (), cm')"
proof -
  from assms have "and_then (handle_event env ev) (run_core evs) cm = (Inr (), cm')"
    by simp
  then show thesis
    by (cases rule: and_then_cases) (use that in auto)
qed

lemma run_core_append:
  "run_core (evs @ evs') cm = and_then (run_core evs) (run_core evs') cm"
proof (induction evs arbitrary: cm)
  case (Cons x evs)
  then show ?case
    by (cases x) (simp add: and_then_def split: prod.splits sum.splits)
qed simp

lemma run_core_reachable:
  "run_core evs cm = (Inr (), cm') \<Longrightarrow> core_reachable limits cm \<Longrightarrow> core_reachable limits cm'"
proof (induction evs arbitrary: cm)
  case (Cons x evs)
  obtain env ev where x: "x = (env, ev)" by fastforce
  from Cons.prems(1) obtain cm1 where "handle_event env ev cm = (Inr (), cm1)"
    "run_core evs cm1 = (Inr (), cm')"
    unfolding x by (rule run_core_Cons)
  with Cons.IH Cons.prems(2) core_reachable.event show ?case by blast
qed (simp add: ok_def)

text \<open>
  C8: while the handheld controller has write access, the stroke it shows and edits is the
  active command set, after any sequence of events that the core is started with and processes.
\<close>

theorem hid_edits_active_set:
  assumes "run_core evs (CoreManager_new limits hid_io ws) = (Inr (), cm)"
    and "list_all (\<lambda>(env, ev). from_threads ev) evs" and "holder cm = Some Hid"
  shows "\<exists>ui. cm_hid_ui cm = Some ui \<and>
    snd (cm_active_command_set cm) = commands_to_vec (ui_motion_commands ui)"
proof -
  have "hid_in_step cm" if "run_core evs cm0 = (Inr (), cm)" "hid_in_step cm0" for cm0
    using that assms(2)
  proof (induction evs arbitrary: cm0)
    case (Cons x evs)
    obtain env ev where x: "x = (env, ev)" by fastforce
    from Cons.prems(1) obtain cm1 where "handle_event env ev cm0 = (Inr (), cm1)"
      "run_core evs cm1 = (Inr (), cm)"
      unfolding x by (rule run_core_Cons)
    with Cons.IH hid_in_step_event Cons.prems(2,3) x show ?case by auto
  qed (simp add: ok_def)
  moreover have "hid_in_step (CoreManager_new limits hid_io ws)"
    by (simp add: hid_in_step_def holder_def CoreManager_new_def CoreState_default_def)
  ultimately have "hid_in_step cm"
    using assms(1) by blast
  with assms(3) show ?thesis
    by (cases "cm_hid_ui cm") (simp_all add: hid_in_step_def ui_commands_def)
qed

subsection \<open>Examples\<close>

theorem published_commands_within_limits_witness:
  "clamp_commands example_limits (snd (cm_active_command_set example_core)) =
     Some (published example_core) \<and>
   list_all (within_limits example_limits) (published example_core) \<and>
   length (published example_core) = length (snd (cm_active_command_set example_core)) \<and>
   cs_command_set_version (cm_core_state example_core) = fst (cm_active_command_set example_core)"
  by (rule published_commands_within_limits) (simp add: example_core_def core_reachable.start)

theorem exclusive_control_witness:
  "\<exists>r cm'. handle_event example_env (Message (WebSocket 3) (SetDrivePower 1 True)) example_core = (r, cm') \<and>
    cm_drive cm' = cm_drive example_core \<and>
    cm_active_command_set cm' = cm_active_command_set example_core"
proof -
  obtain r cm' where run: "handle_event example_env (Message (WebSocket 3) (SetDrivePower 1 True))
      example_core = (r, cm')"
    by fastforce
  have "r \<noteq> Inl Panic" "source (Message (WebSocket 3) (SetDrivePower 1 True)) \<noteq> Some Hid"
    "source (Message (WebSocket 3) (SetDrivePower 1 True)) = None \<or>
     holder example_core \<noteq> source (Message (WebSocket 3) (SetDrivePower 1 True))"
    using run by (auto simp: run_defs example_core_def)
  from exclusive_control [OF run this] run show ?thesis by blast
qed

theorem hid_edits_active_set_witness:
  "\<exists>cm ui. run_core [(example_env, HidInputReport example_report)]
      (CoreManager_new example_limits True True) = (Inr (), cm) \<and>
    cm_hid_ui cm = Some ui \<and> snd (cm_active_command_set cm) = commands_to_vec (ui_motion_commands ui)"
proof -
  obtain cm where run: "run_core [(example_env, HidInputReport example_report)]
      (CoreManager_new example_limits True True) = (Inr (), cm)"
    and "holder cm = Some Hid"
    by (auto simp: run_defs hid_input_report_def process_input_report_def example_limits_def
        clamp_command_def commands_to_vec_def UiManager_new_def DEFAULT_COMMANDS_def
        DEFAULT_COMMAND_def ord_clamp_def less_Position_def less_eq_Position_def
        less_Velocity_def less_eq_Velocity_def less_Acceleration_def less_eq_Acceleration_def
        ops_ZERO_def overflow_def)
  with hid_edits_active_set [OF run] show ?thesis by auto
qed

end
