(* ===== verification/CoreService.thy ===== *)
theory CoreService
  imports CoreSafety
begin

text \<open>
  What the core does for its clients: it goes on, changes are announced under versions that
  identify them, and saved command sets are kept.  Two histories that surprise are at the end.
\<close>

subsection \<open>The core does not stop by itself\<close>

definition receivers_alive :: "core_env \<Rightarrow> bool" where
  "receivers_alive env \<longleftrightarrow> (\<forall>n. ce_hid_alive env n \<and> ce_websocket_alive env n)"

definition has_transport :: "CoreManager \<Rightarrow> ControllerId \<Rightarrow> bool" where
  "has_transport cm c \<longleftrightarrow> (case c of Hid \<Rightarrow> cm_hid_ui cm \<noteq> None | WebSocket _ \<Rightarrow> cm_websocket_server cm)"

definition has_source :: "CoreManager \<Rightarrow> CoreEvent \<Rightarrow> bool" where
  "has_source cm ev \<longleftrightarrow> (case source ev of None \<Rightarrow> True | Some c \<Rightarrow> has_transport cm c)"

definition same_transports :: "CoreManager \<Rightarrow> CoreManager \<Rightarrow> bool" where
  "same_transports cm cm' \<longleftrightarrow> cm_websocket_server cm' = cm_websocket_server cm \<and>
     (cm_hid_ui cm' = None \<longleftrightarrow> cm_hid_ui cm = None)"

lemma same_transports_sends: "only_sends cm cm' \<Longrightarrow> same_transports cm cm'"
  using only_sends_simps(8) [of cm cm']
  by (cases "cm_hid_ui cm"; cases "cm_hid_ui cm'") (auto simp: same_transports_def only_sends_simps)

lemma has_transport_same: "same_transports cm cm' \<Longrightarrow> has_transport cm' c = has_transport cm c"
  by (auto simp: same_transports_def has_transport_def split: ControllerId.splits)

lemma send_hid_total:
  "receivers_alive env \<Longrightarrow> \<exists>cm'. send_hid env m ui cm = (Inr (), cm')"
  by (cases m) (auto simp: send_hid_def process_core_message_def receivers_alive_def)

lemma send_websocket_total:
  "receivers_alive env \<Longrightarrow> \<exists>cm'. send_websocket env t m cm = (Inr (), cm')"
  by (auto simp: send_websocket_def receivers_alive_def)

lemma send_total:
  assumes "receivers_alive env" "\<And>c. d = Some c \<Longrightarrow> has_transport cm c"
  shows "\<exists>cm'. send env d m cm = (Inr (), cm')"
proof (cases d)
  case None
  have "\<exists>cm1. (case cm_hid_ui cm of Some ui \<Rightarrow> send_hid env m ui cm | None \<Rightarrow> ok cm) = (Inr (), cm1)"
    using send_hid_total [OF assms(1)] by (auto simp: ok_def split: option.split)
  with None show ?thesis
    using send_websocket_total [OF assms(1)] by (auto simp: send_def and_then_def ok_def)
next
  case (Some c)
  with assms show ?thesis
    using send_hid_total [OF assms(1)] send_websocket_total [OF assms(1)]
    by (auto simp: send_def has_transport_def split: ControllerId.splits option.splits)
qed

lemma send_all_total:
  assumes "receivers_alive env" "addressed c post" "broadcasts_plain post" "has_transport cm c"
  shows "\<exists>cm'. send_all env post cm = (Inr (), cm')"
  using assms(2-)
proof (induction post arbitrary: cm)
  case (Cons x post)
  obtain d m where x: "x = (d, m)" by fastforce
  with Cons.prems have plain: "d = None \<Longrightarrow> reply_seq m = None"
    by (auto simp: broadcasts_plain_def)
  have "has_transport cm c'" if "d = Some c'" for c'
    using that Cons.prems(1,3) x by (auto simp: addressed_def)
  then obtain cm1 where sent: "send env d m cm = (Inr (), cm1)"
    using send_total [OF assms(1)] by blast
  moreover have "has_transport cm1 c"
    using send_effect [OF sent plain] has_transport_same [OF same_transports_sends] Cons.prems(3)
    by auto
  ultimately show ?case
    using Cons.IH [of cm1] Cons.prems x by (auto simp: addressed_def broadcasts_plain_def)
qed (simp add: ok_def)

lemma next_version_release: "ce_profile env = Release \<Longrightarrow> \<exists>v'. next_version env v = Some v'"
  by (simp add: next_version_def arith_u64_def overflow_def)

lemma clamp_commands_total: "limits_ok limits \<Longrightarrow> \<exists>cs'. clamp_commands limits cs = Some cs'"
proof (induction cs)
  case (Cons c cs)
  have "\<exists>c'. clamp_command limits c = Some c'"
    using Cons.prems by (simp add: clamp_command_def limits_ok_def position.le_iff velocity.le_iff
        acceleration.le_iff)
  with Cons show ?case by auto
qed simp

lemma synced_total: "limits_ok (cm_limits cm) \<Longrightarrow> \<exists>cm'. synced cm = Some cm'"
  using clamp_commands_total by (auto simp: synced_def)

lemma plan_total:
  assumes "limits_ok (cm_limits cm)" "ce_profile env = Release"
  shows "\<exists>cm' post. plan env c m cm = Some (cm', post)"
proof -
  obtain f where f: "\<And>v. next_version env v = Some (f v)"
    using next_version_release [OF assms(2)] by metis
  have "\<exists>cm'. synced (cm\<lparr>cm_active_command_set := x\<rparr>) = Some cm'" for x
    using assms(1) by (intro synced_total) simp
  then obtain g where g: "\<And>x. synced (cm\<lparr>cm_active_command_set := x\<rparr>) = Some (g x)"
    by metis
  have "\<exists>x. plan_replace env c seq base new cm = Some x" for seq base new
    by (simp add: plan_replace_def answer_def Let_def f g)
  moreover have "\<exists>x. plan_update env c seq u cm = Some x" for seq u
    by (simp add: plan_update_def answer_def Let_def f g split: prod.splits)
  moreover have "\<exists>x. plan_saved env c seq name base new cm = Some x" for seq name base new
    by (simp add: plan_saved_def answer_def Let_def f split: option.splits prod.splits)
  ultimately have "\<exists>x. plan env c m cm = Some x"
    by (cases m) (auto simp: plan_def answer_def split: option.splits)
  then show ?thesis by auto
qed

lemma clean_state_cong:
  "cs_warnings cs' = cs_warnings cs \<Longrightarrow> cs_error_code cs' = cs_error_code cs \<Longrightarrow>
     clean_state cs' = clean_state cs"
  by (simp add: clean_state_def)

lemma plan_clean:
  assumes "plan env c m cm = Some (cm', post)"
  shows "clean_state (cm_core_state cm') = clean_state (cm_core_state cm)"
proof -
  have sync: "clean_state (cm_core_state cm2) = clean_state (cm_core_state cm1)"
    if "synced cm1 = Some cm2" for cm1 cm2
    using that by (auto simp: synced_def lock_commands_def intro!: clean_state_cong)
  have "clean_state (cm_core_state cm') = clean_state (cm_core_state cm)"
    if "plan_replace env c seq base new cm = Some (cm', post)" for seq base new
    using that by (cases rule: plan_replace_cases) (auto simp: send_actions_def dest!: sync)
  moreover have "clean_state (cm_core_state cm') = clean_state (cm_core_state cm)"
    if "plan_update env c seq u cm = Some (cm', post)" for seq u
    using that by (cases rule: plan_update_cases) (auto dest!: sync)
  moreover have "clean_state (cm_core_state cm') = clean_state (cm_core_state cm)"
    if "plan_saved env c seq name base new cm = Some (cm', post)" for seq name base new
    using that by (cases rule: plan_saved_cases) auto
  ultimately show ?thesis
    using assms
    by (cases m) (auto simp: plan_def answer_def set_holder_def lock_commands_def send_actions_def
        intro!: clean_state_cong split: if_splits option.splits)
qed

definition clean_core :: "SystemLimits \<Rightarrow> CoreManager \<Rightarrow> bool" where
  "clean_core limits cm \<longleftrightarrow> cm_limits cm = limits \<and> clean_state (cm_core_state cm)"

interpretation clean: core_invariant "\<lambda>_. True" "clean_core limits" for limits
proof
  show "clean_core limits (cm\<lparr>cm_hid_ui := ui, cm_sent := out\<rparr>) \<longleftrightarrow> clean_core limits cm" for cm ui out
    by (simp add: clean_core_def)
  show "clean_core limits cm'" if "plan env c m cm = Some (cm', post)" "clean_core limits cm"
    for env c m cm cm' post
    using plan_clean [OF that(1)] plan_frame [OF that(1)] that(2) by (simp add: clean_core_def)
  show "clean_core limits (cut_power cm)" if "clean_core limits cm" for cm
    using that by (simp add: clean_core_def cut_power_def lock_commands_def set_holder_def
        clean_state_def)
  show "clean_core limits (feed_back fb cm)" if "clean_core limits cm" for cm fb
    using that clean_WarningFlags clean_ErrorCode
    by (simp add: clean_core_def feed_back_def state_after_feedback_def clean_state_def)
qed

definition healthy :: "SystemLimits \<Rightarrow> CoreManager \<Rightarrow> bool" where
  "healthy limits cm \<longleftrightarrow> clean_core limits cm \<and>
     (\<forall>cs. ui_commands cm = Some cs \<longrightarrow> stroke_ok limits cs)"

lemma handle_message_total:
  assumes "receivers_alive env" "ce_profile env = Release" "limits_ok (cm_limits cm)"
    and "has_transport cm c"
  shows "\<exists>cm'. handle_message env c m cm = (Inr (), cm') \<and> same_transports cm cm'"
proof -
  obtain cm1 post where plan: "plan env c m cm = Some (cm1, post)"
    using plan_total [OF assms(3,2)] by blast
  note frame = plan_frame [OF plan]
  then have same: "same_transports cm cm1"
    by (simp add: same_transports_def)
  obtain cm' where sent: "send_all env post cm1 = (Inr (), cm')"
    using send_all_total [OF assms(1), of c post cm1] frame assms(4) has_transport_same [OF same]
    by blast
  have "same_transports cm1 cm'"
    using send_all_effect [OF sent] frame same_transports_sends by blast
  with same have "same_transports cm cm'"
    by (simp add: same_transports_def)
  with sent show ?thesis
    using handle_message_follows [of env c m cm] plan by (simp add: follows_def)
qed

lemma handle_messages_total:
  assumes "receivers_alive env" "ce_profile env = Release" "limits_ok limits"
    and "cm_limits cm = limits" "has_transport cm c"
  shows "\<exists>cm'. handle_messages env c ms cm = (Inr (), cm') \<and> same_transports cm cm'"
  using assms(4,5)
proof (induction ms arbitrary: cm)
  case (Cons m ms)
  obtain cm1 where step: "handle_message env c m cm = (Inr (), cm1)" "same_transports cm cm1"
    using handle_message_total [OF assms(1,2), of cm c m] assms(3) Cons.prems by auto
  moreover have "cm_limits cm1 = limits"
    using handle_message_ui [OF step(1)] Cons.prems by simp
  ultimately obtain cm' where "handle_messages env c ms cm1 = (Inr (), cm')" "same_transports cm1 cm'"
    using Cons.IH [of cm1] has_transport_same [OF step(2)] Cons.prems by auto
  with step show ?case
    by (auto simp: same_transports_def)
qed (simp add: ok_def same_transports_def)

lemma hid_input_report_total:
  assumes "receivers_alive env" "ce_profile env = Release" "limits_ok limits" "healthy limits cm"
    and ui: "cm_hid_ui cm = Some ui"
  shows "\<exists>cm'. hid_input_report env report cm = (Inr (), cm') \<and> healthy limits cm' \<and>
    same_transports cm cm'"
proof -
  have limits: "cm_limits cm = limits" "clean_state (cm_core_state cm)" "ui_ok limits ui"
    using assms(4) ui by (simp_all add: healthy_def clean_core_def ui_commands_def ui_ok_def)
  then obtain ms out ui' where report:
    "process_input_report (ce_profile env) True report limits (cm_core_state cm) ui =
      Some (Inr (ms, out, ui'))" "ui_ok limits ui'"
    using process_input_report_total [OF assms(3)] by blast
  let ?cm = "cm\<lparr>cm_hid_ui := Some ui', cm_sent := cm_sent cm @ map ToHid out\<rparr>"
  obtain cm' where run: "handle_messages env Hid ms ?cm = (Inr (), cm')" "same_transports ?cm cm'"
    using handle_messages_total [OF assms(1-3), of ?cm Hid ms] limits(1)
    by (auto simp: has_transport_def)
  have "clean_core limits ?cm"
    using limits by (simp add: clean_core_def)
  then have "clean_core limits cm'"
    using clean.inv_messages [OF run(1)] by simp
  moreover have "ui_commands cm' = Some (ui_motion_commands ui')"
    using handle_messages_ui [OF run(1)] by (simp add: ui_commands_def)
  moreover have "ce_hid_alive env (length (cm_sent cm)) = True"
    using assms(1) by (simp add: receivers_alive_def)
  moreover from this have "hid_input_report env report cm = (Inr (), cm')"
    using ui report limits run by (simp add: hid_input_report_def)
  moreover have "same_transports cm cm'"
    using run(2) ui by (simp add: same_transports_def)
  ultimately show ?thesis
    using report(2) by (auto simp: healthy_def ui_ok_def)
qed

lemma has_source_same: "same_transports cm cm' \<Longrightarrow> has_source cm' ev = has_source cm ev"
  by (simp add: has_source_def has_transport_same split: option.splits)

lemma healthy_sends: "only_sends cm cm' \<Longrightarrow> healthy limits cm' = healthy limits cm"
  by (simp add: healthy_def clean.inv_sends ui_commands_def only_sends_simps)

lemma handle_event_total:
  assumes "receivers_alive env" "ce_profile env = Release" "limits_ok limits" "healthy limits cm"
    and "has_source cm ev"
  shows "\<exists>cm'. handle_event env ev cm = (Inr (), cm') \<and> healthy limits cm' \<and> same_transports cm cm'"
proof -
  have sending: "\<exists>cm'. send env d m cm0 = (Inr (), cm') \<and> healthy limits cm' \<and> same_transports cm cm'"
    if transports: "\<And>c. d = Some c \<Longrightarrow> has_transport cm c" and healthy0: "healthy limits cm0"
      and same: "same_transports cm cm0" and plain: "reply_seq m = None" for d m cm0
  proof -
    obtain cm' where "send env d m cm0 = (Inr (), cm')"
      using send_total [OF assms(1), of d cm0 m] transports has_transport_same [OF same] by blast
    moreover from this have "only_sends cm0 cm'"
      using send_effect plain by blast
    ultimately show ?thesis
      using healthy0 same healthy_sends same_transports_sends [of cm0 cm']
      by (auto simp: same_transports_def)
  qed
  show ?thesis
  proof (cases ev)
    case (ControllerConnected c)
    with assms sending [of "Some c" cm] show ?thesis
      by (simp add: handle_event_def has_source_def same_transports_def)
  next
    case (ControllerDisconnected c)
    have "healthy limits (cut_power cm)" "same_transports cm (cut_power cm)"
      using assms(4) clean.inv_cut_power
      by (simp_all add: healthy_def ui_commands_def cut_power_def lock_commands_def set_holder_def
          same_transports_def)
    with ControllerDisconnected assms(4) sending [of None "cut_power cm"] show ?thesis
      by (auto simp: handle_event_def controller_disconnected_def cut_power_def ok_def
          same_transports_def)
  next
    case (Message c m)
    then have "has_transport cm c" "limits_ok (cm_limits cm)"
      using assms by (simp_all add: has_source_def healthy_def clean_core_def)
    then obtain cm' where step: "handle_message env c m cm = (Inr (), cm')" "same_transports cm cm'"
      using handle_message_total [OF assms(1,2)] by blast
    then have "healthy limits cm'"
      using assms(4) clean.inv_message [OF step(1)] handle_message_ui [OF step(1)]
      by (simp add: healthy_def)
    with step Message show ?thesis by (simp add: handle_event_def)
  next
    case (DriveStateUpdated fb)
    have "healthy limits (feed_back fb cm)" "same_transports cm (feed_back fb cm)"
      using assms(4) clean.inv_feed_back
      by (simp_all add: healthy_def ui_commands_def feed_back_def same_transports_def)
    with DriveStateUpdated sending [of None "feed_back fb cm"] show ?thesis
      by (simp add: handle_event_def feed_back_def Let_def)
  next
    case (HidInputReport report)
    then obtain ui where "cm_hid_ui cm = Some ui"
      using assms(5) by (auto simp: has_source_def has_transport_def)
    from hid_input_report_total [OF assms(1-4) this] HidInputReport show ?thesis
      by (simp add: handle_event_def)
  qed
qed

lemma healthy_new: "limits_ok limits \<Longrightarrow> healthy limits (CoreManager_new limits hid_io ws)"
  by (auto simp: healthy_def clean_core_def CoreManager_new_def CoreState_default_def clean_state_def
      ui_commands_def UiManager_new_def stroke_ok_def DEFAULT_COMMANDS_def DEFAULT_COMMAND_def
      ops_ZERO_def limits_ok_def position.le_iff)

text \<open>
  C15: the core never stops by itself: started with limits that are not negative, it processes
  any sequence of events from the controllers that are enabled and the drive without an error or
  a panic, as long as the I/O threads receive what it sends (in a release build, where a version
  wraps around after \<open>2 ^ 64\<close> changes).
\<close>

theorem core_keeps_running:
  assumes "limits_ok limits"
    and "list_all (\<lambda>(env, ev). receivers_alive env \<and> ce_profile env = Release \<and>
      has_source (CoreManager_new limits hid_io ws) ev) evs"
  shows "\<exists>cm. run_core evs (CoreManager_new limits hid_io ws) = (Inr (), cm)"
proof -
  let ?new = "CoreManager_new limits hid_io ws"
  have "\<exists>cm. run_core evs cm0 = (Inr (), cm)" if "healthy limits cm0" "same_transports ?new cm0" for cm0
    using assms(2) that
  proof (induction evs arbitrary: cm0)
    case (Cons x evs)
    obtain env ev where x: "x = (env, ev)" by fastforce
    with Cons.prems have "receivers_alive env" "ce_profile env = Release" "has_source cm0 ev"
      using has_source_same [OF Cons.prems(3)] by auto
    then obtain cm1 where "handle_event env ev cm0 = (Inr (), cm1)" "healthy limits cm1"
      "same_transports cm0 cm1"
      using handle_event_total [OF _ _ assms(1) Cons.prems(2)] by blast
    with Cons.IH [of cm1] Cons.prems x show ?case
      by (simp add: same_transports_def)
  qed (simp add: ok_def)
  moreover have "healthy limits ?new"
    by (rule healthy_new [OF assms(1)])
  moreover have "same_transports ?new ?new"
    by (simp add: same_transports_def)
  ultimately show ?thesis by blast
qed

subsection \<open>Versions\<close>

text \<open>
  Optimistic concurrency: a counter that every change advances.  Who sees the same value twice
  sees the same content.
\<close>

locale versioned =
  fixes version :: "'s \<Rightarrow> nat" and content :: "'s \<Rightarrow> 'c" and step :: "'s \<Rightarrow> 's \<Rightarrow> bool"
  assumes advances: "step s s' \<Longrightarrow> version s < version s' \<or> version s' = version s \<and> content s' = content s"
begin

lemma advances_steps:
  "step\<^sup>*\<^sup>* s s' \<Longrightarrow> version s < version s' \<or> version s' = version s \<and> content s' = content s"
proof (induction rule: rtranclp_induct)
  case (step s' s'')
  with advances [of s' s''] show ?case by auto
qed simp

lemma same_version: "step\<^sup>*\<^sup>* s s' \<Longrightarrow> version s' = version s \<Longrightarrow> content s' = content s"
  using advances_steps by fastforce

end

lemma next_version_debug:
  assumes "ce_profile env = Debug" "next_version env v = Some v'"
  shows "unat v' = unat v + 1"
proof -
  have small: "uint v + 1 \<le> 18446744073709551615" and v': "v' = word_of_int (uint v + 1)"
    using assms by (simp_all add: next_version_def arith_u64_def overflow_def split: if_splits)
  have "uint v' = uint v + 1"
    unfolding v' uint_word_of_int_eq using small by (intro take_bit_int_eq_self) simp_all
  then show ?thesis
    by (simp flip: of_nat_eq_iff [where 'a = int])
qed

definition advances_set :: "CoreManager \<Rightarrow> CoreManager \<Rightarrow> bool" where
  "advances_set cm cm' \<longleftrightarrow>
     unat (fst (cm_active_command_set cm)) < unat (fst (cm_active_command_set cm')) \<or>
     cm_active_command_set cm' = cm_active_command_set cm"

lemma plan_advances:
  assumes "ce_profile env = Debug" "plan env c m cm = Some (cm', post)"
  shows "advances_set cm cm'"
proof -
  consider (active) seq base new where "plan_replace env c seq base new cm = Some (cm', post)"
    | (upd) seq u where "plan_update env c seq u cm = Some (cm', post)"
    | (same) "cm_active_command_set cm' = cm_active_command_set cm"
    using assms(2)
    by (cases m; cases "controls m \<and> holder cm \<noteq> Some c")
      (auto simp: plan_def answer_def set_holder_def lock_commands_def send_actions_def
        plan_saved_def Let_def split: if_splits option.splits)
  then show ?thesis
  proof cases
    case active
    then show ?thesis
      using next_version_debug [OF assms(1)]
      by (cases rule: plan_replace_cases) (auto simp: advances_set_def send_actions_def synced_frame)
  next
    case upd
    then show ?thesis
      using next_version_debug [OF assms(1)]
      by (cases rule: plan_update_cases) (auto simp: advances_set_def synced_frame)
  qed (simp add: advances_set_def)
qed

interpretation advancing: core_invariant "\<lambda>env. ce_profile env = Debug" "advances_set cm0" for cm0
proof
  show "advances_set cm0 (cm\<lparr>cm_hid_ui := ui, cm_sent := out\<rparr>) \<longleftrightarrow> advances_set cm0 cm" for cm ui out
    by (simp add: advances_set_def)
  show "advances_set cm0 cm'" if "ce_profile env = Debug" "plan env c m cm = Some (cm', post)"
    "advances_set cm0 cm" for env c m cm cm' post
    using plan_advances [OF that(1,2)] that(3) by (auto simp: advances_set_def)
  show "advances_set cm0 (cut_power cm)" if "advances_set cm0 cm" for cm
    using that by (simp add: advances_set_def cut_power_def lock_commands_def set_holder_def)
  show "advances_set cm0 (feed_back fb cm)" if "advances_set cm0 cm" for cm fb
    using that by (simp add: advances_set_def feed_back_def)
qed

inductive core_step :: "profile \<Rightarrow> CoreManager \<Rightarrow> CoreManager \<Rightarrow> bool" for p where
  "ce_profile env = p \<Longrightarrow> handle_event env ev cm = (Inr (), cm') \<Longrightarrow> core_step p cm cm'"

inductive_simps core_step_iff: "core_step p cm cm'"

interpretation active_set: versioned "\<lambda>cm. unat (fst (cm_active_command_set cm))"
  "\<lambda>cm. snd (cm_active_command_set cm)" "core_step Debug"
proof
  fix cm cm'
  assume "core_step Debug cm cm'"
  then have "advances_set cm cm'"
    using advancing.inv_event [of _ _ cm _ cm' cm] by (auto simp: core_step_iff advances_set_def)
  then show "unat (fst (cm_active_command_set cm)) < unat (fst (cm_active_command_set cm')) \<or>
    unat (fst (cm_active_command_set cm')) = unat (fst (cm_active_command_set cm)) \<and>
    snd (cm_active_command_set cm') = snd (cm_active_command_set cm)"
    by (auto simp: advances_set_def)
qed

lemma replace_based:
  assumes "handle_message env c (UpsertCommandSet seq None (Some v) new) cm = (Inr (), cm')"
    and "cm_active_command_set cm' \<noteq> cm_active_command_set cm"
  shows "fst (cm_active_command_set cm) = v \<and> snd (cm_active_command_set cm') = new"
  using assms(1)
proof (cases rule: handle_message_cases)
  case (plan cm1 post sent)
  from plan(1) assms(2) only_sends_simps(5) [OF plan(3)]
  have "plan_replace env c seq (Some v) new cm = Some (cm1, post)"
    by (auto simp: plan_def answer_def split: if_splits)
  then show ?thesis
    using assms(2) only_sends_simps(5) [OF plan(3)]
    by (cases rule: plan_replace_cases) (auto simp: send_actions_def synced_frame)
qed simp

text \<open>
  C14: no update of the active command set is lost: when a client replaces the set on the basis of
  the version it saw, and the core accepts, then the set is still the one it saw, whatever
  happened in between (in a build with overflow checks; without them the version wraps around
  after \<open>2 ^ 64\<close> changes).
\<close>

theorem no_lost_update:
  assumes "(core_step Debug)\<^sup>*\<^sup>* seen cm"
    and "handle_message env c (UpsertCommandSet seq None (Some (fst (cm_active_command_set seen))) new) cm
      = (Inr (), cm')"
    and "cm_active_command_set cm' \<noteq> cm_active_command_set cm"
  shows "cm_active_command_set cm = cm_active_command_set seen \<and>
    snd (cm_active_command_set cm') = new"
  using replace_based [OF assms(2,3)] active_set.same_version [OF assms(1)]
  by (simp add: prod_eq_iff)

subsection \<open>What clients are told\<close>

fun delivery_to :: "ControllerId \<Rightarrow> CoreMessage \<Rightarrow> delivery" where
  "delivery_to Hid m = ToUi m"
| "delivery_to (WebSocket token) m = ToWebSocket (Some token) m"

definition delivers :: "CoreManager \<Rightarrow> ControllerId option \<times> CoreMessage \<Rightarrow> delivery list \<Rightarrow> bool" where
  "delivers cm dm new \<longleftrightarrow>
     (case dm of (Some c, m) \<Rightarrow> delivery_to c m \<in> set new
      | (None, m) \<Rightarrow> (cm_hid_ui cm \<noteq> None \<longrightarrow> ToUi m \<in> set new) \<and>
          (cm_websocket_server cm \<longrightarrow> ToWebSocket None m \<in> set new))"

lemma delivers_simps [simp]:
  "delivers cm (Some c, m) new \<longleftrightarrow> delivery_to c m \<in> set new"
  "delivers cm (None, m) new \<longleftrightarrow> (cm_hid_ui cm \<noteq> None \<longrightarrow> ToUi m \<in> set new) \<and>
     (cm_websocket_server cm \<longrightarrow> ToWebSocket None m \<in> set new)"
  by (simp_all add: delivers_def)

lemma send_hid_delivers:
  "send_hid env m ui cm = (Inr (), cm') \<Longrightarrow> \<exists>rs. cm_sent cm' = cm_sent cm @ ToUi m # map ToHid rs"
  by (auto simp: send_hid_def split: sum.splits prod.splits)

lemma send_delivers:
  assumes "send env d m cm = (Inr (), cm')"
  shows "\<exists>new. cm_sent cm' = cm_sent cm @ new \<and> delivers cm (d, m) new"
proof (cases d)
  case None
  with assms have "and_then
      (\<lambda>cm. case cm_hid_ui cm of Some ui \<Rightarrow> send_hid env m ui cm | None \<Rightarrow> ok cm)
      (\<lambda>cm. if cm_websocket_server cm then send_websocket env None m cm else ok cm) cm = (Inr (), cm')"
    by (simp add: send_def)
  then show ?thesis
  proof (cases rule: and_then_cases)
    case (go cm1)
    have "cm_websocket_server cm1 = cm_websocket_server cm"
      using go(1) send_hid_effect [of env m _ cm "Inr ()" cm1] only_sends_simps(3)
      by (auto simp: ok_def split: option.splits)
    moreover obtain new1 where "cm_sent cm1 = cm_sent cm @ new1"
      "cm_hid_ui cm \<noteq> None \<longrightarrow> ToUi m \<in> set new1"
      using go(1) send_hid_delivers [of env m _ cm cm1] by (fastforce simp: ok_def split: option.splits)
    moreover obtain new2 where "cm_sent cm' = cm_sent cm1 @ new2"
      "cm_websocket_server cm1 \<longrightarrow> ToWebSocket None m \<in> set new2"
      using go(2) by (auto simp: ok_def send_websocket_def split: if_splits)
    ultimately show ?thesis
      using None by (auto simp: delivers_def)
  qed simp
next
  case (Some c)
  with assms show ?thesis
    by (cases c) (auto simp: send_def delivers_def send_websocket_def dest!: send_hid_delivers
        split: option.splits if_splits)
qed

lemma delivers_mono: "delivers cm dm new \<Longrightarrow> set new \<subseteq> set new' \<Longrightarrow> delivers cm dm new'"
  by (auto simp: delivers_def split: prod.splits option.splits)

lemma delivers_same: "same_transports cm cm' \<Longrightarrow> delivers cm' dm new = delivers cm dm new"
  by (auto simp: delivers_def same_transports_def split: prod.splits option.splits)

lemma send_all_delivers:
  assumes "send_all env post cm = (Inr (), cm')" "broadcasts_plain post"
  shows "\<exists>new. cm_sent cm' = cm_sent cm @ new \<and> (\<forall>dm \<in> set post. delivers cm dm new)"
  using assms
proof (induction post arbitrary: cm)
  case (Cons x post)
  obtain d m where x: "x = (d, m)" by fastforce
  with Cons.prems have "and_then (send env d m) (send_all env post) cm = (Inr (), cm')"
    and plain: "d = None \<Longrightarrow> reply_seq m = None" "broadcasts_plain post"
    by (auto simp: broadcasts_plain_def)
  from this(1) show ?case
  proof (cases rule: and_then_cases)
    case (go cm1)
    obtain new1 where "cm_sent cm1 = cm_sent cm @ new1" "delivers cm (d, m) new1"
      using send_delivers [OF go(1)] by blast
    moreover obtain new2 where "cm_sent cm' = cm_sent cm1 @ new2" "\<forall>dm \<in> set post. delivers cm1 dm new2"
      using Cons.IH [OF go(2) plain(2)] by blast
    moreover have "same_transports cm cm1"
      using send_effect [OF go(1) plain(1)] same_transports_sends by blast
    ultimately show ?thesis
      using delivers_same [of cm cm1] delivers_mono [of cm _ _ "new1 @ new2"]
      by (intro exI [of _ "new1 @ new2"]) (auto simp: x)
  qed simp
qed (simp add: ok_def)

lemma handle_message_delivers:
  assumes "handle_message env c m cm = (Inr (), cm')" and "plan env c m cm = Some (cm1, post)"
  shows "\<exists>new. cm_sent cm' = cm_sent cm @ new \<and> (\<forall>dm \<in> set post. delivers cm dm new)"
proof -
  have "send_all env post cm1 = (Inr (), cm')"
    using handle_message_follows [of env c m cm] assms by (simp add: follows_def)
  then obtain new where "cm_sent cm' = cm_sent cm1 @ new" "\<forall>dm \<in> set post. delivers cm1 dm new"
    using send_all_delivers plan_frame [OF assms(2)] by blast
  moreover have "same_transports cm cm1" "cm_sent cm1 = cm_sent cm"
    using plan_frame [OF assms(2)] by (simp_all add: same_transports_def)
  ultimately show ?thesis
    using delivers_same by auto
qed

text \<open>
  C31: every change of the active command set is announced to all connections with the version it
  got, and the client that made it is told that version.
\<close>

theorem active_changes_announced:
  assumes "handle_message env c m cm = (Inr (), cm')"
    and "cm_active_command_set cm' \<noteq> cm_active_command_set cm" and "cm_websocket_server cm"
  shows "\<exists>new upd. cm_sent cm' = cm_sent cm @ new \<and>
    ToWebSocket None (CommandSetChanged (fst (cm_active_command_set cm')) upd) \<in> set new \<and>
    delivery_to c (CommandResult (msg_seq m) True (fst (cm_active_command_set cm'))) \<in> set new"
  using assms(1)
proof (cases rule: handle_message_cases)
  case (plan cm1 post new)
  let ?v = "fst (cm_active_command_set cm')"
  have same: "cm_active_command_set cm1 = cm_active_command_set cm'"
    using only_sends_simps(5) [OF plan(3)] by simp
  consider (active) seq base new where "plan_replace env c seq base new cm = Some (cm1, post)"
      "msg_seq m = seq"
    | (upd) seq u where "plan_update env c seq u cm = Some (cm1, post)" "msg_seq m = seq"
    using plan(1) assms(2) unfolding same [symmetric]
    by (cases m; cases "controls m \<and> holder cm \<noteq> Some c")
      (auto simp: plan_def answer_def set_holder_def lock_commands_def send_actions_def
        plan_saved_def Let_def split: if_splits option.splits)
  then have "\<exists>upd. {(None, CommandSetChanged ?v upd), (Some c, CommandResult (msg_seq m) True ?v)}
    \<subseteq> set post"
  proof cases
    case active
    from active(1) show ?thesis
      using active(2) assms(2) unfolding same [symmetric]
      by (cases rule: plan_replace_cases) (auto simp: send_actions_def synced_frame)
  next
    case upd
    from upd(1) show ?thesis
      using upd(2) assms(2) unfolding same [symmetric]
      by (cases rule: plan_update_cases) (auto simp: synced_frame)
  qed
  then obtain upd where
    "(None, CommandSetChanged ?v upd) \<in> set post" "(Some c, CommandResult (msg_seq m) True ?v) \<in> set post"
    by auto
  moreover obtain new where new: "cm_sent cm' = cm_sent cm @ new"
    "\<And>dm. dm \<in> set post \<Longrightarrow> delivers cm dm new"
    using handle_message_delivers [OF assms(1) plan(1)] by blast
  ultimately have "delivers cm (None, CommandSetChanged ?v upd) new"
    "delivers cm (Some c, CommandResult (msg_seq m) True ?v) new"
    by blast+
  with new(1) assms(3) show ?thesis
    by auto
qed simp

text \<open>
  C22: handling a message refines the specification \<open>plan\<close>: it panics exactly where the
  specification is undefined, and otherwise commits the new state first and then posts the
  messages in order, so that what it decided does not depend on whether anyone can be told.
\<close>

theorem messages_commit_first:
  "case plan env c m cm of
     None \<Rightarrow> fst (handle_message env c m cm) = Inl Panic
   | Some (cm', post) \<Rightarrow> handle_message env c m cm = send_all env post cm' \<and>
       fst (handle_message env c m cm) \<noteq> Inl Panic"
proof (cases "plan env c m cm")
  case None
  with handle_message_follows [of env c m cm] show ?thesis
    by (simp add: follows_def)
next
  case (Some x)
  obtain cm' post where x: "x = (cm', post)" by fastforce
  with Some handle_message_follows [of env c m cm]
  have run: "handle_message env c m cm = send_all env post cm'"
    by (simp add: follows_def)
  obtain r cm'' where "send_all env post cm' = (r, cm'')" by fastforce
  with send_all_effect [OF this] plan_frame Some x run show ?thesis by auto
qed

subsection \<open>Saved command sets\<close>

lemma plan_saved_accepts:
  assumes "plan env c (UpsertCommandSet seq (Some name) base new) cm = Some (cm', post)"
    and "case cm_saved_command_sets cm name of None \<Rightarrow> True | Some (v, _) \<Rightarrow> base \<in> {None, Some v}"
  obtains v where
    "cm_saved_command_sets cm' = (cm_saved_command_sets cm)(name \<mapsto> (v, new))"
    "post = [(Some c, CommandResult seq True v)]"
proof -
  from assms(1) have "plan_saved env c seq name base new cm = Some (cm', post)"
    by (simp add: plan_def)
  then show thesis
    using assms(2) by (cases rule: plan_saved_cases) (auto intro: that)
qed

text \<open>
  C33: a saved command set that is accepted is stored: asking for it afterwards returns exactly
  the commands that were sent, under the version the client was told, and no other set changed.
\<close>

theorem saved_set_roundtrip:
  assumes "handle_message env c (UpsertCommandSet seq (Some name) base new) cm = (Inr (), cm1)"
    and "case cm_saved_command_sets cm name of None \<Rightarrow> True | Some (v, _) \<Rightarrow> base \<in> {None, Some v}"
    and "handle_message env2 c2 (GetCommandSet seq2 (Some name)) cm1 = (Inr (), cm2)"
  shows "\<exists>v sent1 sent2. cm_sent cm1 = cm_sent cm @ sent1 \<and> cm_sent cm2 = cm_sent cm1 @ sent2 \<and>
    delivery_to c (CommandResult seq True v) \<in> set sent1 \<and>
    delivery_to c2 (CommandSet seq2 (Some name) v new) \<in> set sent2 \<and>
    cm_saved_command_sets cm2 = (cm_saved_command_sets cm)(name \<mapsto> (v, new))"
  using assms(1)
proof (cases rule: handle_message_cases)
  case (plan cma post1 sent1)
  obtain v where v: "cm_saved_command_sets cma = (cm_saved_command_sets cm)(name \<mapsto> (v, new))"
    "post1 = [(Some c, CommandResult seq True v)]"
    using plan_saved_accepts [OF plan(1) assms(2)] .
  then have saved: "cm_saved_command_sets cm1 = (cm_saved_command_sets cm)(name \<mapsto> (v, new))"
    using only_sends_simps(6) [OF plan(3)] by simp
  then have get: "CoreSpec.plan env2 c2 (GetCommandSet seq2 (Some name)) cm1 =
      Some (cm1, [(Some c2, CommandSet seq2 (Some name) v new)])"
    by (simp add: plan_def answer_def)
  from assms(3) have "only_sends cm1 cm2"
    by (cases rule: handle_message_cases) (use get in auto)
  then have "cm_saved_command_sets cm2 = cm_saved_command_sets cm1"
    by (rule only_sends_simps)
  with saved v handle_message_delivers [OF assms(1) plan(1)] handle_message_delivers [OF assms(3) get]
  show ?thesis
    by (auto simp: delivers_def)
qed simp

text \<open>What the iteration over a \<open>HashMap\<close> documents: every key once.\<close>

definition iterates_all :: "core_env \<Rightarrow> (string \<rightharpoonup> u64 \<times> MotionCommand list) \<Rightarrow> bool" where
  "iterates_all env saved \<longleftrightarrow> distinct (ce_iter env saved) \<and> set (ce_iter env saved) = dom saved"

text \<open>
  The list of saved sets a client gets names every saved set once, with its version.
\<close>

theorem saved_sets_listed:
  assumes "handle_message env c (ListSavedSets seq) cm = (Inr (), cm')"
    and "iterates_all env (cm_saved_command_sets cm)"
  shows "\<exists>new sets. cm_sent cm' = cm_sent cm @ new \<and> delivery_to c (SavedSetList seq sets) \<in> set new \<and>
    distinct (map sm_name sets) \<and>
    (\<forall>name version. (\<exists>s \<in> set sets. sm_name s = name \<and> sm_version s = version) \<longleftrightarrow>
       (\<exists>commands. cm_saved_command_sets cm name = Some (version, commands)))"
proof -
  let ?saved = "cm_saved_command_sets cm"
  let ?sets = "saved_set_metadata env ?saved"
  have "plan env c (ListSavedSets seq) cm = Some (cm, [(Some c, SavedSetList seq ?sets)])"
    by (simp add: plan_def answer_def)
  from handle_message_delivers [OF assms(1) this] obtain new where
    "cm_sent cm' = cm_sent cm @ new" "delivery_to c (SavedSetList seq ?sets) \<in> set new"
    by (auto simp: delivers_def)
  moreover have iter: "distinct (ce_iter env ?saved)" "set (ce_iter env ?saved) = dom ?saved"
    using assms(2) by (simp_all add: iterates_all_def)
  moreover from iter(1) have "distinct (map sm_name ?sets)"
    by (simp add: saved_set_metadata_def comp_def)
  moreover have "(\<exists>s \<in> set ?sets. sm_name s = name \<and> sm_version s = version) \<longleftrightarrow>
      (\<exists>commands. ?saved name = Some (version, commands))" for name version
    using iter(2) by (force simp: saved_set_metadata_def)
  ultimately show ?thesis by blast
qed

subsection \<open>Examples and a surprising history\<close>

text \<open>
  The version of a saved command set starts again when the set is deleted and created anew,
  so an update based on a version can overwrite a set its client has never seen.
\<close>

theorem saved_version_reused:
  "\<exists>cm cm'. run_core (map (Pair example_env)
      [Message (WebSocket 2) (UpsertCommandSet 1 (Some name) None seen)])
      (CoreManager_new limits False True) = (Inr (), cm) \<and>
    cm_saved_command_sets cm name = Some (1, seen) \<and>
    run_core (map (Pair example_env)
      [Message (WebSocket 3) (DeleteCommandSet 1 (Some name) None),
       Message (WebSocket 3) (UpsertCommandSet 2 (Some name) None unseen),
       Message (WebSocket 2) (UpsertCommandSet 2 (Some name) (Some 1) new)]) cm = (Inr (), cm') \<and>
    cm_saved_command_sets cm' name = Some (2, new)"
  by (simp add: run_defs)

lemma example_message_runs:
  "\<exists>cm'. handle_message example_env (WebSocket 3) m example_core = (Inr (), cm')"
proof -
  have "receivers_alive example_env" "ce_profile example_env = Release"
    by (simp_all add: receivers_alive_def example_env_def)
  moreover have "limits_ok (cm_limits example_core)" "has_transport example_core (WebSocket 3)"
    using example_hid_ok(1) by (simp_all add: example_core_def CoreManager_new_def has_transport_def)
  ultimately show ?thesis
    using handle_message_total by blast
qed

theorem one_reply_witness:
  "\<exists>cm' new. handle_message example_env (WebSocket 3) (AcknowledgeError 9) example_core = (Inr (), cm') \<and>
    cm_sent cm' = cm_sent example_core @ new \<and> replies new = [(WebSocket 3, 9)]"
  using example_message_runs [of "AcknowledgeError 9"]
    one_reply [of example_env "WebSocket 3" "AcknowledgeError 9" example_core] by auto

theorem core_keeps_running_witness:
  "\<exists>cm. run_core [(example_env, HidInputReport example_report),
     (example_env, Message (WebSocket 2) (SetMotionState 7 Stop)),
     (example_env, DriveStateUpdated DriveFeedback_default)] (CoreManager_new example_limits True True) =
     (Inr (), cm)"
  by (rule core_keeps_running) (simp_all add: example_hid_ok example_env_def receivers_alive_def
      has_source_def has_transport_def CoreManager_new_def)

definition example_writer :: CoreManager where
  "example_writer = set_holder (Some (WebSocket 3)) example_core"

lemma example_replace:
  "\<exists>cm'. handle_message example_env (WebSocket 3) (UpsertCommandSet 5 None (Some 0) []) example_writer =
     (Inr (), cm') \<and> cm_active_command_set cm' = (1, [])"
  by (simp add: run_defs example_writer_def example_core_def)

lemma example_writer_version: "cm_active_command_set example_writer = (0, [])"
  by (simp add: example_writer_def example_core_def set_holder_def CoreManager_new_def)

theorem no_lost_update_witness:
  "\<exists>cm'. handle_message example_env (WebSocket 3) (UpsertCommandSet 5 None (Some 0) []) example_writer =
     (Inr (), cm') \<and> snd (cm_active_command_set cm') = []"
proof -
  obtain cm' where run: "handle_message example_env (WebSocket 3) (UpsertCommandSet 5 None
      (Some (fst (cm_active_command_set example_writer))) []) example_writer = (Inr (), cm')"
    and "cm_active_command_set cm' = (1, [])"
    using example_replace by (auto simp: example_writer_version)
  moreover from this have "cm_active_command_set cm' \<noteq> cm_active_command_set example_writer"
    by (simp add: example_writer_version)
  ultimately show ?thesis
    using no_lost_update [OF rtranclp.rtrancl_refl run] by (auto simp: example_writer_version)
qed

theorem active_changes_announced_witness:
  "\<exists>cm' new upd. handle_message example_env (WebSocket 3) (UpsertCommandSet 5 None (Some 0) [])
     example_writer = (Inr (), cm') \<and> cm_sent cm' = cm_sent example_writer @ new \<and>
    ToWebSocket None (CommandSetChanged 1 upd) \<in> set new"
proof -
  obtain cm' where run: "handle_message example_env (WebSocket 3) (UpsertCommandSet 5 None (Some 0) [])
      example_writer = (Inr (), cm')" "cm_active_command_set cm' = (1, [])"
    using example_replace by blast
  moreover have "cm_websocket_server example_writer"
    by (simp add: example_writer_def example_core_def set_holder_def CoreManager_new_def)
  moreover from run have "cm_active_command_set cm' \<noteq> cm_active_command_set example_writer"
    by (simp add: example_writer_version)
  ultimately show ?thesis
    using active_changes_announced [OF run(1)] by auto
qed

theorem saved_set_roundtrip_witness:
  "\<exists>cm1 cm2 v sent2. handle_message example_env (WebSocket 3)
      (UpsertCommandSet 5 (Some ''warm up'') None [DEFAULT_COMMAND]) example_core = (Inr (), cm1) \<and>
    handle_message example_env (WebSocket 4) (GetCommandSet 6 (Some ''warm up'')) cm1 = (Inr (), cm2) \<and>
    cm_sent cm2 = cm_sent cm1 @ sent2 \<and>
    ToWebSocket (Some 4) (CommandSet 6 (Some ''warm up'') v [DEFAULT_COMMAND]) \<in> set sent2"
proof -
  obtain cm1 cm2 where run: "handle_message example_env (WebSocket 3)
      (UpsertCommandSet 5 (Some ''warm up'') None [DEFAULT_COMMAND]) example_core = (Inr (), cm1)"
    "handle_message example_env (WebSocket 4) (GetCommandSet 6 (Some ''warm up'')) cm1 = (Inr (), cm2)"
    by (simp add: run_defs example_core_def)
  have "case cm_saved_command_sets example_core ''warm up'' of None \<Rightarrow> True
      | Some (v, _) \<Rightarrow> None \<in> {None, Some v}"
    by (simp split: option.splits)
  from saved_set_roundtrip [OF run(1) this run(2)] run show ?thesis by auto
qed

theorem saved_sets_listed_witness:
  "\<exists>cm1 cm2 new sets. handle_message example_env (WebSocket 3)
      (UpsertCommandSet 5 (Some ''warm up'') None [DEFAULT_COMMAND]) example_core = (Inr (), cm1) \<and>
    handle_message example_env (WebSocket 4) (ListSavedSets 6) cm1 = (Inr (), cm2) \<and>
    cm_sent cm2 = cm_sent cm1 @ new \<and> ToWebSocket (Some 4) (SavedSetList 6 sets) \<in> set new \<and>
    (\<exists>s \<in> set sets. sm_name s = ''warm up'' \<and> sm_version s = 1)"
proof -
  obtain cm1 cm2 where run: "handle_message example_env (WebSocket 3)
      (UpsertCommandSet 5 (Some ''warm up'') None [DEFAULT_COMMAND]) example_core = (Inr (), cm1)"
    "handle_message example_env (WebSocket 4) (ListSavedSets 6) cm1 = (Inr (), cm2)"
    "cm_saved_command_sets cm1 = [''warm up'' \<mapsto> (1, [DEFAULT_COMMAND])]"
    by (simp add: run_defs example_core_def)
  then have "iterates_all example_env (cm_saved_command_sets cm1)"
    by (simp add: iterates_all_def example_env_def)
  from saved_sets_listed [OF run(2) this] run(3) obtain new sets where
    "cm_sent cm2 = cm_sent cm1 @ new" "delivery_to (WebSocket 4) (SavedSetList 6 sets) \<in> set new"
    "\<exists>s \<in> set sets. sm_name s = ''warm up'' \<and> sm_version s = 1"
    by fastforce
  with run show ?thesis by auto
qed

end
