(* ===== verification/WebSocketServer.thy ===== *)
theory WebSocketServer
  imports CoreService
begin

text \<open>
  The WebSocket server (\<open>src/websocket.rs\<close>): one thread that waits for readiness events, accepts
  connections, reads the messages of the clients for the core and writes those of the core.

  Sockets and their handshakes (\<open>mio\<close>, \<open>tungstenite\<close>) and the JSON text of a message
  (\<open>serde_json\<close>) are not part of the program: what their calls return is an argument.  The state
  is the table of clients and the next token; what the core and the sockets received is recorded.
\<close>

subsection \<open>State\<close>

definition SERVER :: nat where "SERVER = 0"

definition WAKER :: nat where "WAKER = 1"

datatype client = ClientHandshaking | ClientConnected

datatype handshake = HandshakeDone | HandshakeInterrupted | HandshakeFailed

record server =
  ws_clients :: "nat \<rightharpoonup> client"
  ws_next_token :: nat
  ws_inbound :: "CoreEvent list" \<comment> \<open>sent to the core so far\<close>
  ws_sent :: "(nat \<times> string) list" \<comment> \<open>texts the sockets took so far\<close>

definition server_start :: server where
  "server_start = \<lparr>ws_clients = Map.empty, ws_next_token = 2, ws_inbound = [], ws_sent = []\<rparr>"

datatype ws_error = PollError | AcceptError | RegisterError | JsonError | InboundClosed

text \<open>
  Whether the core still receives, by the number of events sent before; whether the socket of a
  client takes a text, by the number of texts sent before; the order in which the \<open>HashMap\<close> of
  clients is iterated; and the JSON form of the messages.
\<close>

record ws_env =
  we_core_alive :: "nat \<Rightarrow> bool"
  we_send_ok :: "nat \<Rightarrow> nat \<Rightarrow> bool"
  we_iter :: "(nat \<rightharpoonup> client) \<Rightarrow> nat list"
  we_to_json :: "CoreMessage \<Rightarrow> string option"
  we_from_json :: "string \<Rightarrow> ClientMessage option"

type_synonym ws_result = "(ws_error + unit) \<times> server"

definition put_client :: "nat \<Rightarrow> client option \<Rightarrow> server \<Rightarrow> server" where
  "put_client token client s = s\<lparr>ws_clients := (ws_clients s)(token := client)\<rparr>"

definition notify :: "ws_env \<Rightarrow> CoreEvent \<Rightarrow> server \<Rightarrow> ws_result" where
  "notify env event s =
     (if we_core_alive env (length (ws_inbound s))
      then (Inr (), s\<lparr>ws_inbound := ws_inbound s @ [event]\<rparr>)
      else (Inl InboundClosed, s))"

subsection \<open>Accepting connections\<close>

text \<open>The streams the listener yields, each with the success of its registration and the outcome
  of its handshake, until it would block or fails.\<close>

fun accept_connections :: "ws_env \<Rightarrow> (bool \<times> handshake) list \<Rightarrow> bool \<Rightarrow> server \<Rightarrow> ws_result" where
  "accept_connections env [] would_block s = (if would_block then Inr () else Inl AcceptError, s)"
| "accept_connections env ((register_ok, hs) # streams) would_block s =
     (let token = ws_next_token s;
          s = s\<lparr>ws_next_token := token + 1\<rparr> in
      if \<not> register_ok then (Inl RegisterError, s)
      else
        case hs of
          HandshakeDone \<Rightarrow>
            (case notify env (ControllerConnected (WebSocket token))
                    (put_client token (Some ClientConnected) s) of
               (Inl e, s) \<Rightarrow> (Inl e, s)
             | (Inr _, s) \<Rightarrow> accept_connections env streams would_block s)
        | HandshakeInterrupted \<Rightarrow>
            accept_connections env streams would_block
              (put_client token (Some ClientHandshaking) s)
        | HandshakeFailed \<Rightarrow> accept_connections env streams would_block s)"

subsection \<open>Messages of the core\<close>

text \<open>Sending to a client, collecting the clients to remove.\<close>

definition send_text :: "ws_env \<Rightarrow> string \<Rightarrow> nat \<Rightarrow> server \<times> nat list \<Rightarrow> server \<times> nat list" where
  "send_text env body token =
     (\<lambda>(s, to_remove).
        if ws_clients s token = Some ClientConnected then
          if we_send_ok env token (length (ws_sent s))
          then (s\<lparr>ws_sent := ws_sent s @ [(token, body)]\<rparr>, to_remove)
          else (s, to_remove @ [token])
        else (s, to_remove))"

definition post_text :: "ws_env \<Rightarrow> string \<Rightarrow> nat option \<Rightarrow> server \<Rightarrow> server \<times> nat list" where
  "post_text env body destination s =
     (case destination of
        Some token \<Rightarrow> send_text env body token (s, [])
      | None \<Rightarrow> fold (send_text env body) (we_iter env (ws_clients s)) (s, []))"

fun remove_clients :: "ws_env \<Rightarrow> nat list \<Rightarrow> server \<Rightarrow> ws_result" where
  "remove_clients env [] s = (Inr (), s)"
| "remove_clients env (token # tokens) s =
     (case notify env (ControllerDisconnected (WebSocket token)) (put_client token None s) of
        (Inl e, s) \<Rightarrow> (Inl e, s)
      | (Inr _, s) \<Rightarrow> remove_clients env tokens s)"

fun handle_outbound :: "ws_env \<Rightarrow> (nat option \<times> CoreMessage) list \<Rightarrow> server \<Rightarrow> ws_result" where
  "handle_outbound env [] s = (Inr (), s)"
| "handle_outbound env ((destination, message) # messages) s =
     (case we_to_json env message of
        None \<Rightarrow> (Inl JsonError, s)
      | Some body \<Rightarrow>
          let (s, to_remove) = post_text env body destination s in
          case remove_clients env to_remove s of
            (Inl e, s) \<Rightarrow> (Inl e, s)
          | (Inr _, s) \<Rightarrow> handle_outbound env messages s)"

subsection \<open>Messages of a client\<close>

datatype read_result = TextMessage string | BinaryMessage | OtherMessage

datatype read_end = ReadWouldBlock | ReadConnectionClosed | ReadError

text \<open>What a connected client delivers until it would block, is closed or fails; the result is
  the client that stays, if it does.\<close>

fun read_messages ::
    "ws_env \<Rightarrow> nat \<Rightarrow> read_result list \<Rightarrow> read_end \<Rightarrow> server
     \<Rightarrow> (ws_error + client option) \<times> server" where
  "read_messages env token [] read_end s =
     (case read_end of
        ReadWouldBlock \<Rightarrow> (Inr (Some ClientConnected), s)
      | _ \<Rightarrow>
          (case notify env (ControllerDisconnected (WebSocket token)) s of
             (Inl e, s) \<Rightarrow> (Inl e, s)
           | (Inr _, s) \<Rightarrow> (Inr None, s)))"
| "read_messages env token (TextMessage text # results) read_end s =
     (case we_from_json env text of
        Some message \<Rightarrow>
          (case notify env (Message (WebSocket token) message) s of
             (Inl e, s) \<Rightarrow> (Inl e, s)
           | (Inr _, s) \<Rightarrow> read_messages env token results read_end s)
      | None \<Rightarrow> read_messages env token results read_end s)"
| "read_messages env token (BinaryMessage # results) read_end s =
     read_messages env token results read_end s"
| "read_messages env token (OtherMessage # results) read_end s =
     read_messages env token results read_end s"

definition process_client ::
    "ws_env \<Rightarrow> nat \<Rightarrow> handshake \<Rightarrow> read_result list \<Rightarrow> read_end \<Rightarrow> client \<Rightarrow> server
     \<Rightarrow> (ws_error + client option) \<times> server" where
  "process_client env token hs results read_end client s =
     (case client of
        ClientHandshaking \<Rightarrow>
          (case hs of
             HandshakeDone \<Rightarrow>
               (case notify env (ControllerConnected (WebSocket token)) s of
                  (Inl e, s) \<Rightarrow> (Inl e, s)
                | (Inr _, s) \<Rightarrow> read_messages env token results read_end s)
           | HandshakeInterrupted \<Rightarrow> (Inr (Some ClientHandshaking), s)
           | HandshakeFailed \<Rightarrow> (Inr None, s))
      | ClientConnected \<Rightarrow> read_messages env token results read_end s)"

text \<open>An error is logged, and the client is gone.\<close>

definition handle_client_event ::
    "ws_env \<Rightarrow> nat \<Rightarrow> handshake \<Rightarrow> read_result list \<Rightarrow> read_end \<Rightarrow> server \<Rightarrow> server" where
  "handle_client_event env token hs results read_end s =
     (case ws_clients s token of
        None \<Rightarrow> s
      | Some client \<Rightarrow>
          (case process_client env token hs results read_end client (put_client token None s) of
             (Inr (Some new_client), s) \<Rightarrow> put_client token (Some new_client) s
           | (_, s) \<Rightarrow> s))"

subsection \<open>The event loop\<close>

text \<open>An event of the poll with what the calls that follow it return; \<open>None\<close> in the list of events
  is a poll that fails.\<close>

record poll_event =
  pe_token :: nat
  pe_streams :: "(bool \<times> handshake) list"
  pe_accept_would_block :: bool
  pe_queue :: "(nat option \<times> CoreMessage) list"
  pe_handshake :: handshake
  pe_results :: "read_result list"
  pe_read_end :: read_end

definition handle_poll_event :: "ws_env \<Rightarrow> poll_event \<Rightarrow> server \<Rightarrow> ws_result" where
  "handle_poll_event env event s =
     (if pe_token event = SERVER then
        accept_connections env (pe_streams event) (pe_accept_would_block event) s
      else if pe_token event = WAKER then handle_outbound env (pe_queue event) s
      else
        (Inr (), handle_client_event env (pe_token event) (pe_handshake event) (pe_results event)
           (pe_read_end event) s))"

fun run_event_loop :: "ws_env \<Rightarrow> poll_event option list \<Rightarrow> server \<Rightarrow> ws_result" where
  "run_event_loop env [] s = (Inr (), s)"
| "run_event_loop env (None # events) s = (Inl PollError, s)"
| "run_event_loop env (Some event # events) s =
     (case handle_poll_event env event s of
        (Inl e, s) \<Rightarrow> (Inl e, s)
      | (Inr _, s) \<Rightarrow> run_event_loop env events s)"

subsection \<open>Sessions\<close>

text \<open>What the core is told of one connection: that it is there, its messages, that it is gone.\<close>

datatype session = Unseen | Open | Closed

definition session_step :: "nat \<Rightarrow> CoreEvent \<Rightarrow> session \<Rightarrow> session option" where
  "session_step t event ss =
     (if source event \<noteq> Some (WebSocket t) then Some ss
      else
        case (event, ss) of
          (ControllerConnected _, Unseen) \<Rightarrow> Some Open
        | (Message _ _, Open) \<Rightarrow> Some Open
        | (ControllerDisconnected _, Open) \<Rightarrow> Some Closed
        | _ \<Rightarrow> None)"

definition session :: "nat \<Rightarrow> CoreEvent list \<Rightarrow> session option" where
  "session t events = fold (\<lambda>event ss. Option.bind ss (session_step t event)) events (Some Unseen)"

lemma session_simps [simp]:
  "session t [] = Some Unseen"
  "session t (events @ [event]) = Option.bind (session t events) (session_step t event)"
  by (simp_all add: session_def)

text \<open>What the table says of a connection agrees with what the core was told.\<close>

fun agrees :: "client option \<Rightarrow> session option \<Rightarrow> bool" where
  "agrees None ss = (ss = Some Unseen \<or> ss = Some Closed)"
| "agrees (Some ClientHandshaking) ss = (ss = Some Unseen)"
| "agrees (Some ClientConnected) ss = (ss = Some Open)"

definition tracked :: "server \<Rightarrow> bool" where
  "tracked s \<longleftrightarrow> 2 \<le> ws_next_token s \<and>
     (\<forall>t. agrees (ws_clients s t) (session t (ws_inbound s)) \<and>
        (t < 2 \<or> ws_next_token s \<le> t \<longrightarrow>
           ws_clients s t = None \<and> session t (ws_inbound s) = Some Unseen))"

definition receiving :: "ws_env \<Rightarrow> bool" where
  "receiving env \<longleftrightarrow> (\<forall>n. we_core_alive env n)"

lemma notify_receiving [simp]:
  "receiving env \<Longrightarrow> notify env event s = (Inr (), s\<lparr>ws_inbound := ws_inbound s @ [event]\<rparr>)"
  by (simp add: notify_def receiving_def)

lemma put_client_simps [simp]:
  "ws_clients (put_client t c s) = (ws_clients s)(t := c)"
  "ws_next_token (put_client t c s) = ws_next_token s"
  "ws_inbound (put_client t c s) = ws_inbound s"
  "ws_sent (put_client t c s) = ws_sent s"
  "put_client t c (put_client t c' s) = put_client t c s"
  by (simp_all add: put_client_def)

lemma put_client_records [simp]:
  "(put_client t c s)\<lparr>ws_inbound := x\<rparr> = put_client t c (s\<lparr>ws_inbound := x\<rparr>)"
  "(put_client t c s)\<lparr>ws_sent := y\<rparr> = put_client t c (s\<lparr>ws_sent := y\<rparr>)"
  by (simp_all add: put_client_def)

lemma put_client_same: "ws_clients s t = c \<Longrightarrow> put_client t c s = s"
  by (auto simp: put_client_def)

text \<open>Telling the core of one connection.\<close>

lemma tracked_notify:
  assumes "tracked (put_client t c s)" "source event = Some (WebSocket t)" "2 \<le> t" "t < ws_next_token s"
    and "agrees c' (Option.bind (session t (ws_inbound s)) (session_step t event))"
  shows "tracked (put_client t c' (s\<lparr>ws_inbound := ws_inbound s @ [event]\<rparr>))"
proof -
  have others: "session u (ws_inbound s @ [event]) = session u (ws_inbound s)" if "u \<noteq> t" for u
    using that assms(2) by (cases "session u (ws_inbound s)") (simp_all add: session_step_def)
  have prev: "agrees (if u = t then c else ws_clients s u) (session u (ws_inbound s)) \<and>
      (u < 2 \<or> ws_next_token s \<le> u \<longrightarrow>
         (if u = t then c else ws_clients s u) = None \<and> session u (ws_inbound s) = Some Unseen)"
    for u
    using assms(1) by (simp add: tracked_def)
  have "agrees (if u = t then c' else ws_clients s u) (session u (ws_inbound s @ [event])) \<and>
      (u < 2 \<or> ws_next_token s \<le> u \<longrightarrow>
         (if u = t then c' else ws_clients s u) = None \<and>
         session u (ws_inbound s @ [event]) = Some Unseen)" for u
    using prev [of u] others [of u] assms(3,4,5) by (cases "u = t") simp_all
  then show ?thesis
    using assms(1) by (simp add: tracked_def)
qed

lemma tracked_session: "tracked s \<Longrightarrow> agrees (ws_clients s t) (session t (ws_inbound s))"
  by (simp add: tracked_def)

lemma tracked_range: "tracked s \<Longrightarrow> ws_clients s t \<noteq> None \<Longrightarrow> 2 \<le> t \<and> t < ws_next_token s"
  by (auto simp: tracked_def not_le [symmetric])

lemma tracked_put:
  assumes "tracked s" "2 \<le> t" "t < ws_next_token s" "agrees c (session t (ws_inbound s))"
  shows "tracked (put_client t c s)"
  using assms by (auto simp: tracked_def)

lemma tracked_sent [simp]: "tracked (s\<lparr>ws_sent := x\<rparr>) = tracked s"
  by (simp add: tracked_def)

lemma accept_connections_tracked:
  "accept_connections env streams would_block s = (r, s') \<Longrightarrow> receiving env \<Longrightarrow> tracked s \<Longrightarrow> tracked s'"
proof (induction env streams would_block s rule: accept_connections.induct)
  case (2 env register_ok hs streams would_block s)
  let ?t = "ws_next_token s" and ?s = "s\<lparr>ws_next_token := ws_next_token s + 1\<rparr>"
  have fresh: "ws_clients s ?t = None" "session ?t (ws_inbound s) = Some Unseen" "2 \<le> ?t"
    using "2.prems"(3) by (auto simp: tracked_def)
  have next_ok: "tracked ?s"
    using "2.prems"(3) by (auto simp: tracked_def)
  have open_ok: "tracked (put_client ?t (Some ClientConnected)
      (?s\<lparr>ws_inbound := ws_inbound ?s @ [ControllerConnected (WebSocket ?t)]\<rparr>))"
    by (rule tracked_notify [where c = None])
      (use next_ok fresh in \<open>simp_all add: put_client_same session_step_def\<close>)
  have hs_ok: "tracked (put_client ?t (Some ClientHandshaking) ?s)"
    by (rule tracked_put) (use next_ok fresh in simp_all)
  show ?case
    using 2 next_ok open_ok hs_ok
    by (cases hs) (auto simp: Let_def split: if_splits)
qed (auto split: if_splits)

lemma remove_clients_tracked:
  assumes "remove_clients env ts s = (r, s')" "receiving env" "tracked s" "distinct ts"
    and "\<forall>t \<in> set ts. ws_clients s t = Some ClientConnected"
  shows "tracked s' \<and> r = Inr ()"
  using assms
proof (induction ts arbitrary: s)
  case (Cons t ts)
  let ?s = "put_client t None (s\<lparr>ws_inbound := ws_inbound s @ [ControllerDisconnected (WebSocket t)]\<rparr>)"
  have "ws_clients s t = Some ClientConnected"
    using Cons.prems(5) by simp
  with tracked_range [of s t] tracked_session [of s t] Cons.prems(3)
  have t: "2 \<le> t" "t < ws_next_token s" "session t (ws_inbound s) = Some Open"
    by auto
  have "tracked ?s"
    by (rule tracked_notify [where c = "ws_clients s t"])
      (use Cons.prems(3) t in \<open>simp_all add: put_client_same session_step_def\<close>)
  moreover have "remove_clients env ts ?s = (r, s')"
    using Cons.prems(1,2) by simp
  moreover have "\<forall>u \<in> set ts. ws_clients ?s u = Some ClientConnected" "distinct ts"
    using Cons.prems(4,5) by auto
  ultimately show ?case
    using Cons.IH Cons.prems(2) by blast
qed simp

text \<open>What the iteration over a \<open>HashMap\<close> documents: every key once.\<close>

definition iterates_clients :: "ws_env \<Rightarrow> bool" where
  "iterates_clients env \<longleftrightarrow>
     (\<forall>m. finite (dom m) \<longrightarrow> distinct (we_iter env m) \<and> set (we_iter env m) = dom m)"

lemma tracked_finite: "tracked s \<Longrightarrow> finite (dom (ws_clients s))"
  by (rule finite_subset [of _ "{..< ws_next_token s}"]) (use tracked_range in auto)

lemma send_text_effect:
  "send_text env body t (s, rm) = (s', rm') \<Longrightarrow>
     (\<exists>new. s' = s\<lparr>ws_sent := ws_sent s @ new\<rparr>) \<and>
     (rm' = rm \<or> rm' = rm @ [t] \<and> ws_clients s t = Some ClientConnected)"
  by (auto simp: send_text_def split: if_splits intro: exI [of _ "[]"])

lemma fold_send_text_effect:
  "fold (send_text env body) ts (s, rm) = (s', rm') \<Longrightarrow>
     (\<exists>new. s' = s\<lparr>ws_sent := ws_sent s @ new\<rparr>) \<and>
     (\<exists>fails. rm' = rm @ fails \<and> set fails \<subseteq> set ts \<and> (distinct ts \<longrightarrow> distinct fails) \<and>
        (\<forall>t \<in> set fails. ws_clients s t = Some ClientConnected))"
proof (induction ts arbitrary: s rm)
  case (Cons t ts)
  obtain s1 rm1 where one: "send_text env body t (s, rm) = (s1, rm1)" by fastforce
  with Cons.prems have "fold (send_text env body) ts (s1, rm1) = (s', rm')" by simp
  from Cons.IH [OF this] obtain new fails where
    "s' = s1\<lparr>ws_sent := ws_sent s1 @ new\<rparr>" "rm' = rm1 @ fails" "set fails \<subseteq> set ts"
    "distinct ts \<longrightarrow> distinct fails" "\<forall>t \<in> set fails. ws_clients s1 t = Some ClientConnected"
    by auto
  moreover from send_text_effect [OF one] obtain new1 where "s1 = s\<lparr>ws_sent := ws_sent s @ new1\<rparr>"
    "rm1 = rm \<or> rm1 = rm @ [t] \<and> ws_clients s t = Some ClientConnected"
    by blast
  ultimately show ?case
    by (cases "rm1 = rm") (auto intro!: exI [of _ "t # fails"])
qed (auto intro: exI [of _ "[]"])

lemma post_text_effect:
  assumes "post_text env body destination s = (s', to_remove)" "iterates_clients env" "tracked s"
  shows "\<exists>new. s' = s\<lparr>ws_sent := ws_sent s @ new\<rparr> \<and> distinct to_remove \<and>
    (\<forall>t \<in> set to_remove. ws_clients s t = Some ClientConnected)"
proof (cases destination)
  case None
  have "distinct (we_iter env (ws_clients s))"
    using assms(2) tracked_finite [OF assms(3)] by (simp add: iterates_clients_def)
  with None assms(1) show ?thesis
    using fold_send_text_effect [of env body "we_iter env (ws_clients s)" s "[]" s' to_remove]
    by (auto simp: post_text_def)
next
  case (Some t)
  with assms(1) show ?thesis
    using send_text_effect [of env body t s "[]" s' to_remove] by (auto simp: post_text_def)
qed

lemma handle_outbound_tracked:
  assumes "handle_outbound env queue s = (r, s')" "receiving env" "iterates_clients env" "tracked s"
  shows "tracked s' \<and> r \<noteq> Inl InboundClosed"
  using assms(1,4)
proof (induction queue arbitrary: s)
  case (Cons x queue)
  obtain destination message where x: "x = (destination, message)" by fastforce
  show ?case
  proof (cases "we_to_json env message")
    case (Some body)
    obtain s1 rm where post: "post_text env body destination s = (s1, rm)" by fastforce
    obtain r2 s2 where rem: "remove_clients env rm s1 = (r2, s2)" by fastforce
    from post_text_effect [OF post assms(3) Cons.prems(2)] Cons.prems(2)
    have "tracked s2 \<and> r2 = Inr ()"
      using remove_clients_tracked [OF rem assms(2)] by auto
    moreover from this have "handle_outbound env queue s2 = (r, s')"
      using Cons.prems(1) Some post rem by (simp add: x)
    ultimately show ?thesis
      using Cons.IH by blast
  qed (use Cons.prems in \<open>auto simp: x\<close>)
qed auto

lemma read_messages_tracked:
  assumes "read_messages env t results read_end s = (r, s')" "receiving env"
    and "tracked (put_client t (Some ClientConnected) s)" "2 \<le> t" "t < ws_next_token s"
  shows "\<exists>c. r = Inr c \<and> tracked (put_client t c s')"
  using assms(1,3,5)
proof (induction results arbitrary: s)
  case Nil
  have "session t (ws_inbound s) = Some Open"
    using tracked_session [OF Nil.prems(2), of t] by simp
  then have "tracked (put_client t None (s\<lparr>ws_inbound := ws_inbound s @ [ControllerDisconnected (WebSocket t)]\<rparr>))"
    by (intro tracked_notify [OF Nil.prems(2)]) (use assms(4) Nil.prems(3) in \<open>simp_all add: session_step_def\<close>)
  with Nil.prems assms(2) show ?case
    by (cases read_end) auto
next
  case (Cons x results)
  have "session t (ws_inbound s) = Some Open"
    using tracked_session [OF Cons.prems(2), of t] by simp
  then have "tracked (put_client t (Some ClientConnected) (s\<lparr>ws_inbound := ws_inbound s @ [Message (WebSocket t) m]\<rparr>))"
    for m
    by (intro tracked_notify [OF Cons.prems(2)]) (use assms(4) Cons.prems(3) in \<open>simp_all add: session_step_def\<close>)
  with Cons assms(2) show ?case
    by (cases x) (auto split: option.splits)
qed

lemma read_messages_frame:
  "read_messages env t results read_end s = (r, s') \<Longrightarrow>
     ws_clients s' = ws_clients s \<and> ws_sent s' = ws_sent s"
proof (induction results arbitrary: s)
  case Nil
  then show ?case
    by (cases read_end) (auto simp: notify_def split: if_splits)
next
  case (Cons x results)
  show ?case
  proof (cases x)
    case (TextMessage body)
    with Cons show ?thesis
      by (cases "we_from_json env body") (auto simp: notify_def split: if_splits)
  qed (use Cons in simp_all)
qed

lemma process_client_frame:
  assumes "process_client env t hs results read_end client s = (r, s')"
  shows "ws_clients s' = ws_clients s \<and> ws_sent s' = ws_sent s"
  using assms read_messages_frame [of env t results read_end _ r s']
  by (cases client; cases hs) (auto simp: process_client_def notify_def split: if_splits)

lemma handle_client_event_tracked:
  assumes "receiving env" "tracked s"
  shows "tracked (handle_client_event env t hs results read_end s)"
proof (cases "ws_clients s t")
  case (Some client)
  with assms(2) have t: "2 \<le> t" "t < ws_next_token s"
    using tracked_range [of s t] by simp_all
  have put: "tracked (put_client t client' s)" if "agrees client' (session t (ws_inbound s))" for client'
    using tracked_put [OF assms(2) t that] .
  have done_ok: "session t (ws_inbound s) = Some Unseen \<Longrightarrow> tracked (put_client t (Some ClientConnected)
      (s\<lparr>ws_inbound := ws_inbound s @ [ControllerConnected (WebSocket t)]\<rparr>))"
    using tracked_notify [of t "ws_clients s t" s "ControllerConnected (WebSocket t)" "Some ClientConnected"]
      assms(2) t by (simp add: put_client_same session_step_def)
  obtain r s' where run: "process_client env t hs results read_end client (put_client t None s) = (r, s')"
    by fastforce
  have "\<exists>c. r = Inr c \<and> tracked (put_client t c s')"
  proof (cases "client = ClientConnected")
    case True
    with run put Some show ?thesis
      using read_messages_tracked [OF _ assms(1), of t results read_end "put_client t None s" r s'] t
        tracked_session [OF assms(2), of t] by (simp add: process_client_def)
  next
    case False
    then have waiting: "client = ClientHandshaking" by (cases client) simp_all
    with Some have unseen: "session t (ws_inbound s) = Some Unseen"
      using tracked_session [OF assms(2), of t] by simp
    with run waiting put done_ok t assms(1) show ?thesis
      using read_messages_tracked [OF _ assms(1), of t results read_end
          "put_client t None (s\<lparr>ws_inbound := ws_inbound s @ [ControllerConnected (WebSocket t)]\<rparr>)" r s']
      by (cases hs) (auto simp: process_client_def)
  qed
  then obtain c where "r = Inr c" "tracked (put_client t c s')" by blast
  moreover from this process_client_frame [OF run] have "tracked s'" if "c = None"
    using that put_client_same [of s' t None] by simp
  ultimately show ?thesis
    using Some run by (cases c) (auto simp: handle_client_event_def)
qed (use assms(2) in \<open>simp add: handle_client_event_def\<close>)

lemma handle_poll_event_tracked:
  assumes "handle_poll_event env event s = (r, s')" "receiving env" "iterates_clients env" "tracked s"
  shows "tracked s'"
  using assms accept_connections_tracked handle_outbound_tracked handle_client_event_tracked
  by (fastforce simp: handle_poll_event_def split: if_splits)

lemma run_event_loop_tracked:
  assumes "run_event_loop env events s = (r, s')" "receiving env" "iterates_clients env" "tracked s"
  shows "tracked s'"
  using assms(1,4)
proof (induction events arbitrary: s)
  case (Cons x events)
  show ?case
  proof (cases x)
    case (Some event)
    obtain r1 s1 where "handle_poll_event env event s = (r1, s1)" by fastforce
    moreover from this have "tracked s1"
      using handle_poll_event_tracked assms(2,3) Cons.prems(2) by blast
    ultimately show ?thesis
      using Cons Some by (cases r1) auto
  qed (use Cons.prems in simp)
qed simp

lemma tracked_start [simp]: "tracked server_start"
  by (simp add: tracked_def server_start_def)

text \<open>
  C17: in every run of the server, whatever the sockets do, the core is told of each connection in
  the order in which it lives: first that it is there, then its messages, and at most once that it
  is gone; and the clients that are in the table as connected are exactly those of which the core
  has been told that they are there and not that they are gone.
\<close>

theorem connections_tracked:
  assumes "run_event_loop env events server_start = (r, s)" "receiving env" "iterates_clients env"
  shows "session t (ws_inbound s) \<noteq> None \<and>
    (session t (ws_inbound s) = Some Open \<longleftrightarrow> ws_clients s t = Some ClientConnected) \<and>
    (ws_clients s t = Some ClientHandshaking \<longrightarrow> session t (ws_inbound s) = Some Unseen)"
proof -
  have "tracked s"
    using run_event_loop_tracked [OF assms] by simp
  from tracked_session [OF this, of t] show ?thesis
    by (cases "ws_clients s t" rule: option.exhaust; cases "the (ws_clients s t)") auto
qed

subsection \<open>The order of texts and requests\<close>

definition texts :: "nat \<Rightarrow> (nat \<times> string) list \<Rightarrow> string list" where
  "texts t sent = map snd (filter (\<lambda>x. fst x = t) sent)"

lemma texts_simps [simp]:
  "texts t [] = []" "texts t (xs @ ys) = texts t xs @ texts t ys"
  "texts t ((u, body) # xs) = (if u = t then body # texts t xs else texts t xs)"
  by (simp_all add: texts_def)

text \<open>A connected client whose socket takes what it is given.\<close>

definition takes_texts :: "ws_env \<Rightarrow> nat \<Rightarrow> server \<Rightarrow> bool" where
  "takes_texts env t s \<longleftrightarrow> ws_clients s t = Some ClientConnected \<and> (\<forall>n. we_send_ok env t n)"

lemma takes_texts_sent [simp]: "takes_texts env t (s\<lparr>ws_sent := x\<rparr>) = takes_texts env t s"
  by (simp add: takes_texts_def)

lemma send_text_taken:
  assumes "send_text env body u (s, rm) = (s', rm')" "takes_texts env t s" "t \<notin> set rm"
  shows "\<exists>new. s' = s\<lparr>ws_sent := ws_sent s @ new\<rparr> \<and> texts t new = (if u = t then [body] else []) \<and>
    t \<notin> set rm'"
  using assms by (auto simp: send_text_def takes_texts_def split: if_splits
      intro: exI [of _ "[]"] exI [of _ "[(u, body)]"])

lemma fold_send_text_taken:
  assumes "fold (send_text env body) us (s, rm) = (s', rm')" "takes_texts env t s" "t \<notin> set rm"
  shows "\<exists>new. s' = s\<lparr>ws_sent := ws_sent s @ new\<rparr> \<and>
    texts t new = replicate (length (filter (\<lambda>u. u = t) us)) body \<and> t \<notin> set rm'"
  using assms
proof (induction us arbitrary: s rm)
  case (Cons u us)
  obtain s1 rm1 where one: "send_text env body u (s, rm) = (s1, rm1)" by fastforce
  from send_text_taken [OF this Cons.prems(2,3)] obtain new1 where
    "s1 = s\<lparr>ws_sent := ws_sent s @ new1\<rparr>" "texts t new1 = (if u = t then [body] else [])"
    "t \<notin> set rm1"
    by blast
  moreover from this Cons.IH [of s1 rm1] Cons.prems one obtain new where
    "s' = s1\<lparr>ws_sent := ws_sent s1 @ new\<rparr>"
    "texts t new = replicate (length (filter (\<lambda>u. u = t) us)) body" "t \<notin> set rm'"
    by auto
  ultimately show ?case
    by (intro exI [of _ "new1 @ new"]) auto
qed (auto intro: exI [of _ "[]"])

definition meant_for :: "nat \<Rightarrow> (nat option \<times> CoreMessage) list \<Rightarrow> CoreMessage list" where
  "meant_for t queue = map snd (filter (\<lambda>x. fst x \<in> {None, Some t}) queue)"

lemma post_text_taken:
  assumes "post_text env body destination s = (s', rm)" "iterates_clients env" "tracked s"
    "takes_texts env t s"
  shows "\<exists>new. s' = s\<lparr>ws_sent := ws_sent s @ new\<rparr> \<and>
    texts t new = (if destination \<in> {None, Some t} then [body] else []) \<and> t \<notin> set rm"
proof (cases destination)
  case None
  have "distinct (we_iter env (ws_clients s))" "t \<in> set (we_iter env (ws_clients s))"
    using assms(2,4) tracked_finite [OF assms(3)] by (auto simp: iterates_clients_def takes_texts_def)
  then have "length (filter (\<lambda>u. u = t) (we_iter env (ws_clients s))) = 1"
    by (simp add: distinct_length_filter Int_absorb2)
  with None assms(1,4) show ?thesis
    using fold_send_text_taken [of env body "we_iter env (ws_clients s)" s "[]" s' rm t]
    by (simp add: post_text_def)
next
  case (Some u)
  with assms(1,4) show ?thesis
    using send_text_taken [of env body u s "[]" s' rm t] by (auto simp: post_text_def)
qed

lemma remove_clients_others:
  "remove_clients env ts s = (r, s') \<Longrightarrow> t \<notin> set ts \<Longrightarrow>
     ws_clients s' t = ws_clients s t \<and> ws_sent s' = ws_sent s"
  by (induction ts arbitrary: s) (auto simp: notify_def split: if_splits)

lemma handle_outbound_texts:
  assumes "handle_outbound env queue s = (r, s')" "receiving env" "iterates_clients env" "tracked s"
    and "takes_texts env t s" "list_all (\<lambda>(_, m). we_to_json env m \<noteq> None) queue"
  shows "r = Inr () \<and> takes_texts env t s' \<and>
    (\<exists>new. ws_sent s' = ws_sent s @ new \<and>
      texts t new = map (\<lambda>m. the (we_to_json env m)) (meant_for t queue))"
  using assms(1,4,5,6)
proof (induction queue arbitrary: s)
  case (Cons x queue)
  obtain destination message where x: "x = (destination, message)" by fastforce
  with Cons.prems(4) obtain body where body: "we_to_json env message = Some body" by auto
  obtain s1 rm where post: "post_text env body destination s = (s1, rm)" by fastforce
  obtain r2 s2 where rem: "remove_clients env rm s1 = (r2, s2)" by fastforce
  from post_text_taken [OF post assms(3) Cons.prems(2,3)] obtain new1 where
    new1: "s1 = s\<lparr>ws_sent := ws_sent s @ new1\<rparr>" "t \<notin> set rm"
      "texts t new1 = (if destination \<in> {None, Some t} then [body] else [])"
    by blast
  have s2: "tracked s2 \<and> r2 = Inr ()"
    using post_text_effect [OF post assms(3) Cons.prems(2)] Cons.prems(2)
      remove_clients_tracked [OF rem assms(2)] by auto
  have t2: "takes_texts env t s2" "ws_sent s2 = ws_sent s @ new1"
    using remove_clients_others [OF rem new1(2)] new1(1) Cons.prems(3)
    by (simp_all add: takes_texts_def)
  have "handle_outbound env queue s2 = (r, s')"
    using Cons.prems(1) body post rem s2 by (simp add: x)
  from Cons.IH [OF this] s2 t2 Cons.prems(4) new1(3) body show ?case
    by (auto simp: x meant_for_def)
qed (auto simp: meant_for_def)

lemma server_reachable:
  assumes "run_event_loop env events server_start = (r, s)" "receiving env" "iterates_clients env"
  shows "tracked s"
  using run_event_loop_tracked [OF assms] by simp

text \<open>The messages of the core for the WebSocket connections, as they are queued.\<close>

fun queued :: "delivery list \<Rightarrow> (nat option \<times> CoreMessage) list" where
  "queued [] = []"
| "queued (ToWebSocket token m # ds) = (token, m) # queued ds"
| "queued (_ # ds) = queued ds"

lemma queued_append [simp]: "queued (xs @ ys) = queued xs @ queued ys"
  by (induction xs rule: queued.induct) simp_all

definition plain_broadcasts :: "delivery list \<Rightarrow> bool" where
  "plain_broadcasts ds \<longleftrightarrow> (\<forall>m. (None, m) \<in> set (queued ds) \<longrightarrow> reply_seq m = None)"

lemma send_plain_broadcasts:
  assumes "send env d m cm = (r, cm')" "d = None \<Longrightarrow> reply_seq m = None"
  shows "\<exists>new. cm_sent cm' = cm_sent cm @ new \<and> plain_broadcasts new"
proof -
  have outs: "queued (map ToHid out) = []" for out
    by (induction out) simp_all
  from assms show ?thesis
    by (auto simp: send_def send_hid_def send_websocket_def process_core_message_def and_then_def ok_def
        plain_broadcasts_def outs split: option.splits ControllerId.splits if_splits CoreMessage.splits)
qed

lemma plain_broadcasts_append [simp]:
  "plain_broadcasts (xs @ ys) \<longleftrightarrow> plain_broadcasts xs \<and> plain_broadcasts ys"
  by (auto simp: plain_broadcasts_def)

lemma send_all_plain_broadcasts:
  assumes "send_all env post cm = (r, cm')" "broadcasts_plain post"
  shows "\<exists>new. cm_sent cm' = cm_sent cm @ new \<and> plain_broadcasts new"
  using assms
proof (induction post arbitrary: cm)
  case Nil
  then show ?case by (auto simp: ok_def plain_broadcasts_def)
next
  case (Cons dm post)
  obtain d m where dm: "dm = (d, m)" by fastforce
  with Cons.prems have "and_then (send env d m) (send_all env post) cm = (r, cm')"
    and plain: "d = None \<Longrightarrow> reply_seq m = None" "broadcasts_plain post"
    by (auto simp: broadcasts_plain_def)
  then show ?case
  proof (cases rule: and_then_cases)
    case (fail e)
    with send_plain_broadcasts [OF fail(1) plain(1)] show ?thesis by auto
  next
    case (go cm1)
    with send_plain_broadcasts [OF go(1) plain(1)] Cons.IH [OF go(2) plain(2)] show ?thesis
      by auto
  qed
qed

lemma handle_message_plain_broadcasts:
  assumes "handle_message env c m cm = (Inr (), cm')" "cm_sent cm' = cm_sent cm @ new"
  shows "replies new = [(c, msg_seq m)] \<and> plain_broadcasts new"
  using assms(1)
proof (cases rule: handle_message_cases)
  case (plan cm1 post new')
  with plan_frame [OF plan(1)] send_all_plain_broadcasts [OF plan(2)] assms(2) show ?thesis
    by auto
qed simp

lemma queued_replies:
  "plain_broadcasts ds \<Longrightarrow>
     List.map_filter reply_seq (meant_for t (queued ds)) =
       map snd (filter (\<lambda>x. fst x = WebSocket t) (replies ds))"
proof (induction ds rule: queued.induct)
  case (2 token m ds)
  then have "plain_broadcasts ds" "token = None \<Longrightarrow> reply_seq m = None"
    by (auto simp: plain_broadcasts_def)
  with "2.IH" show ?case
    by (cases token) (auto simp: meant_for_def map_filter_simps split: option.splits)
qed (auto simp: meant_for_def plain_broadcasts_def map_filter_simps split: option.splits)

text \<open>
  C18: a request of a browser is answered on the same connection: among the texts that the server
  writes to its socket for what the core sent, exactly one is a reply, and it carries the
  sequence number of the request, while the connection stays.
\<close>

theorem request_answered_on_socket:
  assumes "handle_message core_env (WebSocket t) m cm = (Inr (), cm')"
    and "cm_sent cm' = cm_sent cm @ new"
    and "run_event_loop env events server_start = (r, s)" "receiving env" "iterates_clients env"
    and "takes_texts env t s" "\<And>message. we_to_json env message \<noteq> None"
    and "handle_outbound env (queued new) s = (r', s')"
  shows "r' = Inr () \<and> takes_texts env t s' \<and>
    (\<exists>written answers. ws_sent s' = ws_sent s @ written \<and>
      texts t written = map (\<lambda>message. the (we_to_json env message)) answers \<and>
      List.map_filter reply_seq answers = [msg_seq m])"
proof -
  have "list_all (\<lambda>(_, message). we_to_json env message \<noteq> None) (queued new)"
    using assms(7) by (auto simp: list_all_iff)
  from handle_outbound_texts [OF assms(8,4,5) server_reachable [OF assms(3-5)] assms(6) this]
  show ?thesis
    using handle_message_plain_broadcasts [OF assms(1,2)] queued_replies [of new t] by auto
qed

text \<open>
  C38: an accept that fails ends the server, although the connections it has are in order: the core
  is not told that they are gone, and its next message to them ends the core.
\<close>

theorem accept_error_ends_server:
  assumes "run_event_loop env events server_start = (Inr (), s)" "receiving env" "iterates_clients env"
    and "ws_clients s t = Some ClientConnected"
    and "pe_token event = SERVER" "pe_streams event = []" "\<not> pe_accept_would_block event"
    and "cm_websocket_server cm" "\<And>n. \<not> ce_websocket_alive core_env n"
  shows "run_event_loop env (events @ [Some event]) server_start = (Inl AcceptError, s) \<and>
    session t (ws_inbound s) = Some Open \<and>
    (\<exists>e cm'. handle_event core_env (DriveStateUpdated feedback) cm = (Inl e, cm'))"
proof (intro conjI)
  have "run_event_loop env (events @ [Some event]) s0 = (Inl AcceptError, s)"
    if "run_event_loop env events s0 = (Inr (), s)" for s0
    using that assms(5-7)
    by (induction env events s0 rule: run_event_loop.induct)
      (auto simp: handle_poll_event_def split: prod.splits sum.splits)
  with assms(1) show "run_event_loop env (events @ [Some event]) server_start = (Inl AcceptError, s)"
    by blast
  show "session t (ws_inbound s) = Some Open"
    using tracked_session [OF server_reachable [OF assms(1-3)], of t] assms(4) by simp
  show "\<exists>e cm'. handle_event core_env (DriveStateUpdated feedback) cm = (Inl e, cm')"
    using assms(8,9)
    by (auto simp: handle_event_def send_def send_hid_def send_websocket_def and_then_def ok_def
        process_core_message_def Let_def split: option.splits)
qed

subsection \<open>A concrete run\<close>

definition example_ws_env :: ws_env where
  "example_ws_env = \<lparr>we_core_alive = \<lambda>_. True, we_send_ok = \<lambda>_ _. True,
     we_iter = \<lambda>m. sorted_list_of_set (dom m), we_to_json = \<lambda>_. Some ''{}'',
     we_from_json = \<lambda>_. Some (RequestWriteAccess 1)\<rparr>"

definition example_poll :: "nat \<Rightarrow> poll_event" where
  "example_poll token = \<lparr>pe_token = token, pe_streams = [], pe_accept_would_block = True,
     pe_queue = [], pe_handshake = HandshakeDone, pe_results = [], pe_read_end = ReadWouldBlock\<rparr>"

text \<open>A browser connects in two steps and sends a request.\<close>

definition example_polls :: "poll_event option list" where
  "example_polls =
     [Some ((example_poll SERVER)\<lparr>pe_streams := [(True, HandshakeInterrupted)]\<rparr>),
      Some ((example_poll 2)\<lparr>pe_results := [TextMessage ''{}'']\<rparr>)]"

definition example_server :: server where
  "example_server = \<lparr>ws_clients = [2 \<mapsto> ClientConnected], ws_next_token = 3,
     ws_inbound = [ControllerConnected (WebSocket 2), Message (WebSocket 2) (RequestWriteAccess 1)],
     ws_sent = []\<rparr>"

lemma example_ws_env:
  "receiving example_ws_env" "iterates_clients example_ws_env" "we_to_json example_ws_env m \<noteq> None"
  "takes_texts example_ws_env 2 example_server"
  by (simp_all add: example_ws_env_def receiving_def iterates_clients_def takes_texts_def
      example_server_def)

lemma example_polls: "run_event_loop example_ws_env example_polls server_start = (Inr (), example_server)"
  by (simp add: example_polls_def example_poll_def example_ws_env_def example_server_def
      handle_poll_event_def handle_client_event_def process_client_def server_start_def notify_def
      put_client_def SERVER_def WAKER_def)

theorem connections_tracked_witness:
  "run_event_loop example_ws_env example_polls server_start = (Inr (), example_server) \<and>
   session 2 (ws_inbound example_server) = Some Open \<and>
   session 3 (ws_inbound example_server) \<noteq> Some Open"
  using connections_tracked [OF example_polls example_ws_env(1,2), of 2]
    connections_tracked [OF example_polls example_ws_env(1,2), of 3] example_polls
  by (simp add: example_server_def)

theorem request_answered_on_socket_witness:
  "\<exists>cm new s' written answers.
     handle_message example_env (WebSocket 2) (SetDrivePower 7 True) example_core = (Inr (), cm) \<and>
     cm_sent cm = cm_sent example_core @ new \<and>
     handle_outbound example_ws_env (queued new) example_server = (Inr (), s') \<and>
     ws_sent s' = ws_sent example_server @ written \<and>
     texts 2 written = map (\<lambda>message. the (we_to_json example_ws_env message)) answers \<and>
     List.map_filter reply_seq answers = [7]"
proof -
  obtain cm where cm: "handle_message example_env (WebSocket 2) (SetDrivePower 7 True) example_core = (Inr (), cm)"
    and sent: "cm_sent cm = cm_sent example_core @ [ToWebSocket (Some 2) (Ack 7 False (Some NotWriter))]"
    by (simp add: run_defs example_core_def)
  obtain r s' where outbound: "handle_outbound example_ws_env
      (queued [ToWebSocket (Some 2) (Ack 7 False (Some NotWriter))]) example_server = (r, s')"
    by fastforce
  from request_answered_on_socket [OF cm sent example_polls example_ws_env(1,2,4,3) outbound]
  show ?thesis
    using cm sent outbound by auto
qed

theorem accept_error_ends_server_witness:
  "\<exists>e cm. run_event_loop example_ws_env
     (example_polls @ [Some ((example_poll SERVER)\<lparr>pe_accept_would_block := False\<rparr>)]) server_start =
       (Inl AcceptError, example_server) \<and>
   session 2 (ws_inbound example_server) = Some Open \<and>
   handle_event (example_env\<lparr>ce_websocket_alive := \<lambda>_. False\<rparr>)
     (DriveStateUpdated DriveFeedback_default) example_core = (Inl e, cm)"
  using accept_error_ends_server [OF example_polls example_ws_env(1,2), of 2
      "(example_poll SERVER)\<lparr>pe_accept_would_block := False\<rparr>" example_core
      "example_env\<lparr>ce_websocket_alive := \<lambda>_. False\<rparr>" DriveFeedback_default]
  by (simp add: example_server_def example_poll_def example_core_def CoreManager_new_def)

end
