(* ===== verification/System.thy ===== *)
theory System
  imports DriveLoop HidReports WebSocketServer
begin

text \<open>
  The composition of the core (\<open>main.rs\<close>) and the drive thread (\<open>drive.rs\<close>) over the drive
  interface they share, as a step relation with whole events and cycles as steps, and what the drive
  thread promises of its cycles: what it may send, what it sends while the power is off, and that it
  goes on.  Then what the core's write access says about the connections of the WebSocket server.
\<close>

subsection \<open>The whole system\<close>

text \<open>
  The core and the drive thread share the drive interface and interleave in any order: the core
  handles an event, or the drive thread makes a connection attempt or a cycle.
\<close>

record system =
  sys_core :: CoreManager
  sys_manager :: manager
  sys_datagrams :: "u8 list list" \<comment> \<open>everything sent to the drive so far\<close>

definition system_start :: "SystemLimits \<Rightarrow> bool \<Rightarrow> bool \<Rightarrow> system" where
  "system_start limits hid_io ws = \<lparr>sys_core = CoreManager_new limits hid_io ws,
     sys_manager = manager_initial, sys_datagrams = []\<rparr>"

inductive system_step :: "drive_config \<Rightarrow> system \<Rightarrow> system \<Rightarrow> bool" for cfg where
  core_event: "handle_event env ev (sys_core s) = (Inr (), cm) \<Longrightarrow>
    system_step cfg s (s\<lparr>sys_core := cm\<rparr>)"
| drive_cycle: "manager_step p cfg env (cm_drive (sys_core s)) (sys_manager s) = Some (ef, iface, m) \<Longrightarrow>
    system_step cfg s (s\<lparr>sys_core := (sys_core s)\<lparr>cm_drive := iface\<rparr>, sys_manager := m,
      sys_datagrams := sys_datagrams s @ (case ef_sent ef of None \<Rightarrow> [] | Some dg \<Rightarrow> [dg])\<rparr>)"

inductive_cases system_step_cases [consumes 1, case_names core_event drive_cycle]: "system_step cfg s s'"

lemma manager_step_interface:
  assumes "manager_step p cfg env iface m = Some (ef, iface', m')"
  shows "di_commands iface' = di_commands iface"
proof (cases "mgr_connection m")
  case (Some c)
  with assms show ?thesis
    by (auto simp: manager_step_def loop_tick_def loop_begin_def loop_end_def Let_def DriveActions_take_def
        split: prod.splits sum.splits if_splits Option.bind_splits)
qed (use assms in \<open>auto simp: manager_step_def Let_def split: prod.splits sum.splits Option.bind_splits\<close>)

text \<open>
  What the drive thread promises of the datagrams it sends, as long as the core publishes what
  is \<open>iface_ok\<close>: a connection attempt and a cycle only send datagrams that are \<open>dg_ok\<close> and leave
  a connection that is \<open>conn_ok\<close>.
\<close>

locale drive_contract =
  fixes cfg :: drive_config and iface_ok :: "DriveCommands \<Rightarrow> bool" and conn_ok :: "connection \<Rightarrow> bool"
    and dg_ok :: "u8 list \<Rightarrow> bool"
  assumes connects: "Connection_new cfg socket_ok ex addresses_ok = (sent, r) \<Longrightarrow>
      pred_option dg_ok sent \<and> (\<forall>c. r = Inr c \<longrightarrow> conn_ok c)"
    and ticks: "loop_tick p env iface c = Some (ef, iface', r) \<Longrightarrow> conn_ok c \<Longrightarrow>
      iface_ok (di_commands iface) \<Longrightarrow>
      pred_option dg_ok (ef_sent ef) \<and> (\<forall>c'. r = Inr c' \<longrightarrow> conn_ok c')"
begin

lemma manager_step_keeps:
  assumes "manager_step p cfg env iface m = Some (ef, iface', m')"
    and "pred_option conn_ok (mgr_connection m)" and "iface_ok (di_commands iface)"
  shows "pred_option dg_ok (ef_sent ef) \<and> pred_option conn_ok (mgr_connection m')"
proof (cases "mgr_connection m")
  case None
  obtain sent r where "Connection_new cfg (me_socket_ok env) (me_probe env) (me_addresses_ok env) = (sent, r)"
    by fastforce
  with assms(1) None connects [OF this] show ?thesis
    by (auto simp: manager_step_def Let_def split: sum.splits Option.bind_splits)
next
  case (Some c)
  with assms(1) obtain r where "loop_tick p (me_cycle env) iface c = Some (ef, iface', r)"
    and "m' = (case r of Inr c \<Rightarrow> m\<lparr>mgr_connection := Some c\<rparr> | Inl _ \<Rightarrow> m\<lparr>mgr_connection := None\<rparr>)"
    by (auto simp: manager_step_def split: Option.bind_splits)
  with ticks [OF this(1) _ assms(3)] Some assms(2) show ?thesis
    by (auto split: sum.splits)
qed

lemma system_step_keeps:
  assumes "system_step cfg s s'" and "iface_ok (di_commands (cm_drive (sys_core s)))"
    and "pred_option conn_ok (mgr_connection (sys_manager s))" and "list_all dg_ok (sys_datagrams s)"
  shows "pred_option conn_ok (mgr_connection (sys_manager s')) \<and> list_all dg_ok (sys_datagrams s')"
  using assms(1)
proof (cases rule: system_step_cases)
  case (drive_cycle p env ef iface m)
  with manager_step_keeps [OF drive_cycle(2) assms(3,2)] assms(4) show ?thesis
    by (auto split: option.splits)
qed (use assms(3,4) in simp)

end

text \<open>The commands the system sends: a stop, or a move within the limits.\<close>

fun command_allowed :: "SystemLimits \<Rightarrow> Command \<Rightarrow> bool" where
  "command_allowed limits (VaiStop _) = True"
| "command_allowed limits (VaiGoToPos pos vel acc _) \<longleftrightarrow>
     Position 0 \<le> pos \<and> pos \<le> limit_position limits \<and>
     Velocity 0 \<le> vel \<and> vel \<le> limit_velocity limits \<and>
     Acceleration 0 \<le> acc \<and> acc \<le> limit_acceleration limits"
| "command_allowed limits _ = False"

definition datagram_allowed :: "SystemLimits \<Rightarrow> u8 list \<Rightarrow> bool" where
  "datagram_allowed limits dg \<longleftrightarrow>
     (case drive_request dg of
        None \<Rightarrow> False
      | Some req \<Rightarrow> pred_option (\<lambda>m. command_allowed limits (mci_command m)) (req_motion_command req))"

definition connection_allowed :: "SystemLimits \<Rightarrow> connection \<Rightarrow> bool" where
  "connection_allowed limits c \<longleftrightarrow> length (c_buffer c) = BUFFER_SIZE \<and>
     list_all (within_limits limits) (c_input_commands c) \<and>
     pred_option (\<lambda>m. command_allowed limits (mci_command m)) (c_next_motion_command c)"

lemma loop_tick_allowed:
  assumes "loop_tick p env iface c = Some (ef, iface', r)" and "connection_allowed limits c"
    and "list_all (within_limits limits) (dc_commands (di_commands iface))"
  shows "pred_option (datagram_allowed limits) (ef_sent ef) \<and>
    (\<forall>c'. r = Inr c' \<longrightarrow> connection_allowed limits c')"
proof (intro conjI allI impI)
  have buf: "length (c_buffer c) = BUFFER_SIZE"
    using assms(2) by (simp add: connection_allowed_def)
  have "datagram_allowed limits dg" if "ef_sent ef = Some dg" for dg
    using loop_tick_sent [OF assms(1) buf that] assms(2)
    by (auto simp: datagram_allowed_def on_the_wire_request_of connection_allowed_def
        option.pred_set split: option.splits)
  then show "pred_option (datagram_allowed limits) (ef_sent ef)"
    by (auto simp: option.pred_set)
  fix c'
  assume "r = Inr c'"
  with assms(1) have tick: "loop_tick p env iface c = Some (ef, iface', Inr c')"
    by simp
  obtain c1 where c1: "compute_next_request p c1 = Some c'" "c_next_motion_command c1 = None"
    "length (c_buffer c1) = BUFFER_SIZE" "list_all (within_limits limits) (c_input_commands c1)"
    using loop_tick_computes [OF tick buf] assms(2,3)
    by (auto simp: connection_allowed_def split: if_splits)
  have cmds: "list_all (within_limits limits) (c_input_commands c')" "length (c_buffer c') = BUFFER_SIZE"
    using compute_next_request_frame [OF c1(1)] c1(3,4) by simp_all
  have "command_allowed limits (mci_command m)" if "c_next_motion_command c' = Some m" for m
    using compute_next_request_staged [OF c1(1,2)] that cmds(1)
    by (auto simp: staged_ok_def motor_command_def list_all_length within_limits_def Let_def
        split: if_splits)
  with cmds show "connection_allowed limits c'"
    by (auto simp: connection_allowed_def option.pred_set)
qed

lemma Connection_new_effect:
  assumes "Connection_new cfg socket_ok ex addresses_ok = (sent, r)"
  shows "(\<forall>dg. sent = Some dg \<longrightarrow> drive_request dg = Some (on_the_wire Request_default)) \<and>
    (\<forall>c. r = Inr c \<longrightarrow> length (c_buffer c) = BUFFER_SIZE \<and>
      c = (Connection_initial cfg)\<lparr>c_buffer := c_buffer c, c_last_rtt := c_last_rtt c\<rparr>)"
proof (cases socket_ok)
  case True
  have "length (c_buffer (Connection_initial cfg)) = BUFFER_SIZE"
    by (simp add: Connection_initial_def)
  from send_request_buffer [OF this, of Request_default ex] show ?thesis
    using assms True
    by (cases "snd (send_request ex Request_default (Connection_initial cfg))")
      (auto simp: Connection_new_def split: if_splits prod.splits)
qed (use assms in \<open>auto simp: Connection_new_def\<close>)

lemma Connection_new_initial:
  assumes "Connection_new cfg socket_ok ex addresses_ok = (sent, Inr c)"
  shows "length (c_buffer c) = BUFFER_SIZE" "c_input_commands c = []" "c_next_motion_command c = None"
    "\<not> c_power_enabled c" "c_control_flags c = flags_empty"
proof -
  have eff: "length (c_buffer c) = BUFFER_SIZE"
    "c = (Connection_initial cfg)\<lparr>c_buffer := c_buffer c, c_last_rtt := c_last_rtt c\<rparr>"
    using Connection_new_effect [OF assms] by auto
  then show "length (c_buffer c) = BUFFER_SIZE" by blast
  show "c_input_commands c = []" "c_next_motion_command c = None" "\<not> c_power_enabled c"
    "c_control_flags c = flags_empty"
    by (subst eff(2), simp add: Connection_initial_def)+
qed

lemma Connection_new_allowed:
  assumes "Connection_new cfg socket_ok ex addresses_ok = (sent, r)"
  shows "pred_option (datagram_allowed limits) sent \<and> (\<forall>c. r = Inr c \<longrightarrow> connection_allowed limits c)"
  using Connection_new_effect [OF assms] Connection_new_initial assms
  by (auto simp: option.pred_set datagram_allowed_def connection_allowed_def on_the_wire_def
      Request_default_def)

interpretation allowed: drive_contract cfg "\<lambda>dc. list_all (within_limits limits) (dc_commands dc)"
    "connection_allowed limits" "datagram_allowed limits" for cfg limits
  by unfold_locales (use Connection_new_allowed loop_tick_allowed in blast)+

definition system_allowed :: "SystemLimits \<Rightarrow> system \<Rightarrow> bool" where
  "system_allowed limits s \<longleftrightarrow> published_ok limits (sys_core s) \<and>
     pred_option (connection_allowed limits) (mgr_connection (sys_manager s)) \<and>
     list_all (datagram_allowed limits) (sys_datagrams s)"

lemma published_within:
  "published_ok limits cm \<Longrightarrow> list_all (within_limits limits) (dc_commands (di_commands (cm_drive cm)))"
  using clamp_commands_within [of limits "snd (cm_active_command_set cm)" "published cm"]
  by (simp add: published_ok_def published_def)

lemma system_step_published:
  assumes "system_step cfg s s'" and "published_ok limits (sys_core s)"
  shows "published_ok limits (sys_core s')"
  using assms(1)
proof (cases rule: system_step_cases)
  case (core_event env ev cm)
  with assms(2) show ?thesis
    using published.inv_event [OF core_event(2)] by simp
next
  case (drive_cycle p env ef iface m)
  with assms(2) manager_step_interface [OF drive_cycle(2)] show ?thesis
    by (simp add: published_ok_def published_def)
qed

lemma system_step_allowed:
  assumes "system_step cfg s s'" and "system_allowed limits s"
  shows "system_allowed limits s'"
proof -
  have "list_all (within_limits limits) (dc_commands (di_commands (cm_drive (sys_core s))))"
    using assms(2) published_within by (simp add: system_allowed_def)
  with assms show ?thesis
    using allowed.system_step_keeps [OF assms(1)] system_step_published [OF assms(1)]
    by (simp add: system_allowed_def)
qed

lemma system_reachable_allowed:
  assumes "(system_step cfg)\<^sup>*\<^sup>* (system_start limits hid_io ws) s"
  shows "system_allowed limits s"
  using assms
proof induction
  case base
  show ?case
    by (simp add: system_allowed_def system_start_def published_ok_start manager_initial_def)
qed (rule system_step_allowed)

subsection \<open>While the power is off\<close>

definition datagram_unpowered :: "u8 list \<Rightarrow> bool" where
  "datagram_unpowered dg \<longleftrightarrow>
     (case drive_request dg of
        None \<Rightarrow> False
      | Some req \<Rightarrow> req_motion_command req = None \<and>
          pred_option (\<lambda>flags. \<not> flags_contains flags (ControlFlags_const ControlFlags_SWITCH_ON))
            (req_control_flags req))"

definition connection_unpowered :: "connection \<Rightarrow> bool" where
  "connection_unpowered c \<longleftrightarrow>
     length (c_buffer c) = BUFFER_SIZE \<and> \<not> c_power_enabled c \<and> staged_ok c"

lemma loop_tick_switches_off:
  assumes "loop_tick p env iface c = Some (ef, iface', Inr c')"
    and "length (c_buffer c) = BUFFER_SIZE" and "\<not> dc_power_enabled (di_commands iface)"
    and "env_lock_free env \<or> \<not> c_power_enabled c"
  shows "connection_unpowered c'"
proof -
  obtain c1 where c1: "compute_next_request p c1 = Some c'" "c_next_motion_command c1 = None"
    "length (c_buffer c1) = BUFFER_SIZE" "\<not> c_power_enabled c1"
    using loop_tick_computes [OF assms(1,2)] assms(3,4) by (auto split: if_splits)
  then show ?thesis
    using compute_next_request_staged compute_next_request_frame
    by (auto simp: connection_unpowered_def)
qed

lemma loop_tick_sends_unpowered:
  assumes "loop_tick p env iface c = Some (ef, iface', r)" and "connection_unpowered c"
    and "ef_sent ef = Some dg"
  shows "datagram_unpowered dg"
  using loop_tick_sent [OF assms(1) _ assms(3)] assms(2)
  by (auto simp: datagram_unpowered_def connection_unpowered_def on_the_wire_request_of
      staged_ok_def)

lemma Connection_new_unpowered:
  assumes "Connection_new cfg socket_ok ex addresses_ok = (sent, r)"
  shows "pred_option datagram_unpowered sent \<and> (\<forall>c. r = Inr c \<longrightarrow> connection_unpowered c)"
  using Connection_new_effect [OF assms] Connection_new_initial assms
  by (auto simp: option.pred_set datagram_unpowered_def connection_unpowered_def on_the_wire_def
      Request_default_def staged_ok_def not_contains_empty)

interpretation unpowered: drive_contract cfg "\<lambda>dc. \<not> dc_power_enabled dc"
    connection_unpowered datagram_unpowered for cfg
proof
  show "pred_option datagram_unpowered (ef_sent ef) \<and> (\<forall>c'. r = Inr c' \<longrightarrow> connection_unpowered c')"
    if "loop_tick p env iface c = Some (ef, iface', r)" "connection_unpowered c"
      "\<not> dc_power_enabled (di_commands iface)" for p env iface c ef iface' r
    using that loop_tick_switches_off [of p env iface c ef iface'] loop_tick_sends_unpowered [OF that(1)]
    by (auto simp: option.pred_set connection_unpowered_def)
qed (rule Connection_new_unpowered)

subsection \<open>The drive thread goes on\<close>

text \<open>A connection on which nothing overflows, for a configuration on which nothing does.\<close>

definition connection_live :: "drive_config \<Rightarrow> connection \<Rightarrow> bool" where
  "connection_live cfg c \<longleftrightarrow> length (c_buffer c) = BUFFER_SIZE \<and> sane_connection c \<and>
     c_overshoot_margin c = cfg_overshoot_margin cfg \<and>
     c_hard_deceleration_min c = cfg_hard_deceleration_min cfg \<and>
     c_hard_deceleration_max c = cfg_hard_deceleration_max cfg"

text \<open>The drive interval, margin and hard decelerations that are sane, and the commands published
  for limits below 107 m.\<close>

definition config_ok :: "drive_config \<Rightarrow> bool" where
  "config_ok cfg \<longleftrightarrow> sane_connection (Connection_initial cfg)"

lemma Connection_new_live:
  assumes "config_ok cfg" "Connection_new cfg socket_ok ex addresses_ok = (sent, Inr c)"
  shows "connection_live cfg c"
proof -
  have eff: "c = (Connection_initial cfg)\<lparr>c_buffer := c_buffer c, c_last_rtt := c_last_rtt c\<rparr>"
    using Connection_new_effect [OF assms(2)] by blast
  have "sane_connection c" "c_overshoot_margin c = cfg_overshoot_margin cfg"
    "c_hard_deceleration_min c = cfg_hard_deceleration_min cfg"
    "c_hard_deceleration_max c = cfg_hard_deceleration_max cfg"
    by (subst eff, use assms(1) in \<open>simp add: config_ok_def sane_connection_def Connection_initial_def\<close>)+
  then show ?thesis
    using Connection_new_initial(1) [OF assms(2)] by (simp add: connection_live_def)
qed

lemma loop_tick_live:
  assumes "loop_tick p env iface c = Some (ef, iface', Inr c')" "connection_live cfg c"
    and "sane_commands (dc_commands (di_commands iface))"
  shows "connection_live cfg c'"
proof -
  have "length (c_buffer c) = BUFFER_SIZE"
    using assms(2) by (simp add: connection_live_def)
  from loop_tick_computes [OF assms(1) this] show ?thesis
    using compute_next_request_frame assms(2,3)
    by (fastforce simp: connection_live_def sane_connection_def split: if_splits)
qed

interpretation live: drive_contract cfg "\<lambda>dc. sane_commands (dc_commands dc)"
    "\<lambda>c. config_ok cfg \<longrightarrow> connection_live cfg c" "\<lambda>_. True" for cfg
proof
  show "pred_option (\<lambda>_. True) (ef_sent ef) \<and>
      (\<forall>c'. r = Inr c' \<longrightarrow> config_ok cfg \<longrightarrow> connection_live cfg c')"
    if "loop_tick p env iface c = Some (ef, iface', r)" "config_ok cfg \<longrightarrow> connection_live cfg c"
      "sane_commands (dc_commands (di_commands iface))" for p env iface c ef iface' r cfg
    using that loop_tick_live by (auto simp: option.pred_set)
qed (use Connection_new_live in \<open>auto simp: option.pred_set\<close>)

lemma within_limits_sane:
  assumes "list_all (within_limits limits) cs" "raw_p (limit_position limits) \<le> 1073741823"
  shows "sane_commands cs"
  using assms by (fastforce simp: sane_commands_def list_all_iff within_limits_def
      less_eq_Position_def less_eq_Acceleration_def)

lemma published_sane:
  assumes "published_ok limits cm" "raw_p (limit_position limits) \<le> 1073741823"
  shows "sane_commands (dc_commands (di_commands (cm_drive cm)))"
  using within_limits_sane [OF published_within [OF assms(1)] assms(2)] .

text \<open>A drive in operation that answers, with its demand position in range.\<close>

definition drive_answers :: "manager_env \<Rightarrow> Response \<Rightarrow> bool" where
  "drive_answers env rsp \<longleftrightarrow> answered (env_exchange (me_cycle env)) rsp \<and>
     pred_option (\<lambda>pos. \<bar>raw_p pos\<bar> \<le> 1073741824) (rsp_demand_position rsp)"

subsection \<open>The writer and its connection\<close>

lemma message_holder:
  assumes "handle_message env c' m cm = (Inr (), cm')" "holder cm' = Some c"
  shows "holder cm = Some c \<or> c' = c"
  using assms(1)
proof (cases rule: handle_message_cases)
  case (plan cm1 post new)
  with plan_holder [OF plan(1)] only_sends_simps [OF plan(3)] assms(2) show ?thesis
    by (auto simp: holder_def split: ClientMessage.splits if_splits)
qed simp

lemma messages_holder:
  assumes "handle_messages env c' ms cm = (Inr (), cm')" "holder cm' = Some c"
  shows "holder cm = Some c \<or> c' = c"
  using assms
proof (induction ms arbitrary: cm)
  case (Cons m ms)
  from Cons.prems(1) have "and_then (handle_message env c' m) (handle_messages env c' ms) cm = (Inr (), cm')"
    by simp
  then show ?case
    by (cases rule: and_then_cases) (use Cons message_holder in blast)+
qed (simp add: ok_def)

text \<open>A browser holds the write access only by a message of its own, until it is gone.\<close>

lemma event_holder:
  assumes "handle_event env ev cm = (Inr (), cm')" "holder cm' = Some (WebSocket t)"
  shows "(holder cm = Some (WebSocket t) \<and> ev \<noteq> ControllerDisconnected (WebSocket t)) \<or>
    (\<exists>m. ev = Message (WebSocket t) m)"
proof (cases ev)
  case (ControllerConnected c)
  with assms(1) have "only_sends cm cm'"
    using simple_events(1) by blast
  from only_sends_simps [OF this] ControllerConnected assms(2) show ?thesis
    by (simp add: holder_def)
next
  case (ControllerDisconnected c)
  with assms(1) have "only_sends (if holder cm = Some c then cut_power cm else cm) cm'"
    using simple_events(2) by blast
  from only_sends_simps [OF this] ControllerDisconnected assms(2) show ?thesis
    by (auto simp: holder_def cut_power_def lock_commands_def set_holder_def split: if_splits)
next
  case (Message c m)
  with assms message_holder [of env c m cm cm' "WebSocket t"] show ?thesis
    by (auto simp: handle_event_def)
next
  case (DriveStateUpdated fb)
  with assms(1) have "only_sends (feed_back fb cm) cm'"
    using simple_events(3) by blast
  from only_sends_simps [OF this] DriveStateUpdated assms(2) show ?thesis
    by (auto simp: holder_def feed_back_def state_after_feedback_def)
next
  case (HidInputReport report)
  have "holder cm = Some (WebSocket t)"
    if "handle_messages env Hid ms (cm\<lparr>cm_hid_ui := ui, cm_sent := out\<rparr>) = (Inr (), cm')" for ms ui out
    using messages_holder [OF that assms(2)] by (simp add: holder_def)
  then show ?thesis
    using HidInputReport assms
    by (auto simp: handle_event_def hid_input_report_def ok_def panic_def
        split: option.splits sum.splits prod.splits)
qed

lemma run_holder:
  assumes "run_core evs cm0 = (Inr (), cm)" "holder cm = Some (WebSocket t)"
  shows "(holder cm0 = Some (WebSocket t) \<and> ControllerDisconnected (WebSocket t) \<notin> set (map snd evs)) \<or>
    (\<exists>pre m post. map snd evs = pre @ Message (WebSocket t) m # post \<and>
       ControllerDisconnected (WebSocket t) \<notin> set post)"
  using assms(1)
proof (induction evs arbitrary: cm0)
  case Nil
  with assms(2) show ?case by (simp add: ok_def)
next
  case (Cons x evs)
  obtain env ev where x: "x = (env, ev)" by fastforce
  from Cons.prems obtain cm1 where run: "handle_event env ev cm0 = (Inr (), cm1)"
    "run_core evs cm1 = (Inr (), cm)"
    unfolding x by (rule run_core_Cons)
  from Cons.IH [OF run(2)] show ?case
  proof
    assume kept: "holder cm1 = Some (WebSocket t) \<and> ControllerDisconnected (WebSocket t) \<notin> set (map snd evs)"
    with event_holder [OF run(1)] show ?thesis
      by (fastforce simp: x intro: exI [of _ "[]"])
  next
    assume "\<exists>pre m post. map snd evs = pre @ Message (WebSocket t) m # post \<and>
      ControllerDisconnected (WebSocket t) \<notin> set post"
    then obtain pre m post where "map snd evs = pre @ Message (WebSocket t) m # post"
      "ControllerDisconnected (WebSocket t) \<notin> set post" by blast
    then show ?thesis
      by (intro disjI2 exI [of _ "ev # pre"]) (auto simp: x)
  qed
qed

lemma session_append:
  "session t (xs @ ys) = fold (\<lambda>event ss. Option.bind ss (session_step t event)) ys (session t xs)"
  by (simp add: session_def)

lemma session_open_stays:
  assumes "ControllerDisconnected (WebSocket t) \<notin> set evs"
    and "session t (pre @ evs) \<noteq> None" "session t pre = Some Open"
  shows "session t (pre @ evs) = Some Open"
  using assms
proof (induction evs rule: rev_induct)
  case (snoc ev evs)
  then have "session t (pre @ evs) = Some Open"
    by (cases "session t (pre @ evs)") (auto simp flip: append_assoc)
  with snoc.prems show ?case
    by (cases ev) (auto simp: session_step_def simp flip: append_assoc split: if_splits)
qed simp

definition from_websocket :: "CoreEvent \<Rightarrow> bool" where
  "from_websocket ev \<longleftrightarrow> (\<exists>t. source ev = Some (WebSocket t))"

lemma session_from_websocket: "session t (filter from_websocket evs) = session t evs"
proof -
  have other: "Option.bind ss (session_step t ev) = ss" if "\<not> from_websocket ev" for ev ss
    using that by (cases ss) (auto simp: session_step_def from_websocket_def)
  show ?thesis
    by (induction evs rule: rev_induct) (simp_all add: other)
qed

lemma session_open_after_message:
  assumes "session t (pre @ Message (WebSocket t) m # post) \<noteq> None"
    and "ControllerDisconnected (WebSocket t) \<notin> set post"
  shows "session t (pre @ Message (WebSocket t) m # post) = Some Open"
proof -
  let ?pre = "pre @ [Message (WebSocket t) m]"
  have "session t (?pre @ post) \<noteq> None"
    using assms(1) by simp
  moreover have "fold (\<lambda>event ss. Option.bind ss (session_step t event)) evs None = None" for evs
    by (induction evs) simp_all
  ultimately have "session t ?pre \<noteq> None"
    by (metis session_append)
  then have "session t ?pre = Some Open"
    by (cases "session t pre"; cases "the (session t pre)") (auto simp: session_step_def)
  with session_open_stays [OF assms(2), of ?pre] assms(1) show ?thesis
    by simp
qed

subsection \<open>A concrete run\<close>

text \<open>The drive answers both the probe and the cycles.\<close>

definition example_manager_env :: manager_env where
  "example_manager_env = \<lparr>me_socket_ok = True, me_probe = env_exchange example_cycle,
     me_addresses_ok = True, me_core_alive = True, me_cycle = example_cycle\<rparr>"

lemma example_connects:
  "\<exists>ef m c. manager_step Debug example_config example_manager_env iface manager_initial =
      Some (ef, iface, m) \<and> ef_sent ef = Some (request_bytes Request_default) \<and>
    mgr_connection m = Some c \<and> length (c_buffer c) = BUFFER_SIZE \<and> sane_connection c"
proof -
  obtain buffer where "length buffer = BUFFER_SIZE"
    "send_request (env_exchange example_cycle) Request_default (Connection_initial example_config) =
      (Some (request_bytes Request_default), Inr (example_answer, (Connection_initial example_config)
        \<lparr>c_last_rtt := Some (ex_elapsed (env_exchange example_cycle)), c_buffer := buffer\<rparr>))"
    using send_request_answered [OF example_sane(3) example_answered] by blast
  then show ?thesis
    using example_sane(1) by (simp add: manager_step_def manager_initial_def Connection_new_def
        example_manager_env_def sane_connection_def)
qed

text \<open>A browser that has taken the write access.\<close>

definition example_held :: CoreManager where
  "example_held = snd (handle_event example_env (Message (WebSocket 3) (RequestWriteAccess 1)) example_core)"

lemma example_held:
  "handle_event example_env (Message (WebSocket 3) (RequestWriteAccess 1)) example_core = (Inr (), example_held)"
  "holder example_held = Some (WebSocket 3)"
  "\<exists>cm. handle_event example_env (ControllerDisconnected (WebSocket 3)) example_held = (Inr (), cm) \<and>
    dc_commands (di_commands (cm_drive cm)) = [] \<and> \<not> dc_power_enabled (di_commands (cm_drive cm))"
  by (simp_all add: example_held_def example_core_def run_defs)

text \<open>A browser that has sent two commands and started the motion.\<close>

lemma system_run_core:
  "run_core evs (sys_core s) = (Inr (), cm) \<Longrightarrow> (system_step cfg)\<^sup>*\<^sup>* s (s\<lparr>sys_core := cm\<rparr>)"
proof (induction evs arbitrary: s)
  case (Nil s)
  then show ?case
    by (cases s) (simp add: ok_def)
next
  case (Cons x evs)
  obtain env ev where x: "x = (env, ev)" by fastforce
  from Cons.prems obtain cm1 where run: "handle_event env ev (sys_core s) = (Inr (), cm1)"
    "run_core evs cm1 = (Inr (), cm)"
    unfolding x by (rule run_core_Cons)
  from core_event [OF run(1)] Cons.IH [of "s\<lparr>sys_core := cm1\<rparr>"] run(2) show ?case
    by (auto intro: converse_rtranclp_into_rtranclp)
qed

definition example_events :: "(core_env \<times> CoreEvent) list" where
  "example_events = map (Pair example_env)
     [Message (WebSocket 3) (RequestWriteAccess 1),
      Message (WebSocket 3) (UpsertCommandSet 2 None None example_commands),
      Message (WebSocket 3) (SetDrivePower 3 True),
      DriveStateUpdated (DriveFeedback_default\<lparr>fb_drive_state := Paused\<rparr>),
      Message (WebSocket 3) (SetMotionState 4 Start)]"

lemma example_started:
  "\<exists>cm. run_core example_events example_core = (Inr (), cm) \<and>
    dc_power_enabled (di_commands (cm_drive cm)) \<and> dc_motion_enabled (di_commands (cm_drive cm)) \<and>
    published cm \<noteq> []"
proof -
  have "clamp_commands example_limits example_commands = Some example_commands"
    by (simp add: example_limits_def example_commands_def clamp_command_def ord_clamp_def
        less_eq_Position_def less_eq_Velocity_def less_eq_Acceleration_def
        less_Position_def less_Velocity_def less_Acceleration_def)
  moreover have "example_commands \<noteq> []"
    by (simp add: example_commands_def)
  ultimately show ?thesis
    by (simp add: example_events_def example_core_def run_defs published_def)
qed

lemma example_config_ok: "config_ok example_config"
  using example_sane(1) by (simp add: config_ok_def)

lemma example_limits_small: "raw_p (limit_position example_limits) \<le> 1073741823"
  by (simp add: example_limits_def)

lemma example_drive_answers:
  "drive_answers example_manager_env example_answer" "env_core_alive (me_cycle example_manager_env)"
  "env_lock_free (me_cycle example_manager_env)"
  using example_answered
  by (simp_all add: drive_answers_def example_manager_env_def example_answer_def example_cycle_def)

lemma example_drive_state:
  "Response_state example_answer = Some (OperationEnabled 5 False False False True)"
  "rsp_demand_position example_answer = Some (Position 70000)"
  "rsp_monitoring_channel example_answer = Some (0, 0, 300, 300)"
  by (simp_all add: Response_state_def example_answer_def State_from_def)

text \<open>The core processes some events, and then the drive thread connects.\<close>

lemma example_ready:
  assumes "run_core evs example_core = (Inr (), cm)"
  shows "\<exists>s c. (system_step example_config)\<^sup>*\<^sup>* (system_start example_limits True True) s \<and>
    mgr_connection (sys_manager s) = Some c \<and> di_commands (cm_drive (sys_core s)) = di_commands (cm_drive cm)"
proof -
  let ?start = "system_start example_limits True True"
  let ?ready = "?start\<lparr>sys_core := cm\<rparr>"
  have to_ready: "(system_step example_config)\<^sup>*\<^sup>* ?start ?ready"
    by (rule system_run_core) (use assms in \<open>simp add: system_start_def example_core_def\<close>)
  obtain ef m c where connect: "manager_step Debug example_config example_manager_env (cm_drive (sys_core ?ready))
      (sys_manager ?ready) = Some (ef, cm_drive (sys_core ?ready), m)" and c: "mgr_connection m = Some c"
    using example_connects [of "cm_drive (sys_core ?ready)"] by (auto simp: system_start_def)
  from rtranclp.rtrancl_into_rtrancl [OF to_ready drive_cycle [OF connect]] c show ?thesis
    by (intro exI conjI) (assumption, simp_all)
qed

end
