(* ===== verification/Conversions.thy ===== *)
theory Conversions
  imports Units Float64
begin

text \<open>
  The conversions of \<open>linmot/src/mci/units.rs\<close> from a value in a larger unit, as an \<open>f64\<close>: a
  multiplication and a cast to \<open>i32\<close>, which truncates and saturates.
\<close>

definition Position_from_millimeters_f64 :: "f64 \<Rightarrow> Position" where
  "Position_from_millimeters_f64 mm = Position (f64_as_i32 (f64_mul mm (f64_from 10000)))"

definition Velocity_from_millimeters_per_second_f64 :: "f64 \<Rightarrow> Velocity" where
  "Velocity_from_millimeters_per_second_f64 v = Velocity (f64_as_i32 (f64_mul v (f64_from 1000)))"

definition Velocity_from_meters_per_second_f64 :: "f64 \<Rightarrow> Velocity" where
  "Velocity_from_meters_per_second_f64 v = Velocity (f64_as_i32 (f64_mul v (f64_from 1000000)))"

definition Acceleration_from_meters_per_second_squared_f64 :: "f64 \<Rightarrow> Acceleration" where
  "Acceleration_from_meters_per_second_squared_f64 a =
     Acceleration (f64_as_i32 (f64_mul a (f64_from 100000)))"

definition Acceleration_from_millimeters_per_second_squared_f64 :: "f64 \<Rightarrow> Acceleration" where
  "Acceleration_from_millimeters_per_second_squared_f64 a =
     Acceleration (f64_as_i32 (f64_mul a (f64_from 100)))"

definition Jerk_from_meters_per_second_cubed_f64 :: "f64 \<Rightarrow> Jerk" where
  "Jerk_from_meters_per_second_cubed_f64 j = Jerk (f64_as_i32 (f64_mul j (f64_from 10000)))"

definition Jerk_from_millimeters_per_second_cubed_f64 :: "f64 \<Rightarrow> Jerk" where
  "Jerk_from_millimeters_per_second_cubed_f64 j = Jerk (f64_as_i32 (f64_mul j (f64_from 10)))"

lemmas f64_conversions =
  Position_from_millimeters_f64_def
  Velocity_from_millimeters_per_second_f64_def Velocity_from_meters_per_second_f64_def
  Acceleration_from_meters_per_second_squared_f64_def
  Acceleration_from_millimeters_per_second_squared_f64_def
  Jerk_from_meters_per_second_cubed_f64_def Jerk_from_millimeters_per_second_cubed_f64_def

text \<open>What evaluates a conversion of a literal.\<close>

lemmas f64_computes = f64_decimal_def f64_from_def f64_rounded_def f64_round_def f64_scale_def
  round_half_even_def bit_length.simps f64_as_i32_def magnitude_floor_def signed_magnitude_def Let_def

text \<open>
  The cast does not round to the nearest unit: 0.57 mm is 5700 units of 0.1 \<open>\<mu>m\<close>, a limit of
  4.1 m/s is 4100000 units, and 2.3 \<open>m/s\<^sup>2\<close> are 230000, but the products of the \<open>f64\<close> values are
  just below that.
\<close>

theorem conversion_truncates:
  "Position_from_millimeters_f64 (f64_decimal 57 100) = Position 5699"
  "Velocity_from_meters_per_second_f64 (f64_decimal 41 10) = Velocity 4099999"
  "Acceleration_from_meters_per_second_squared_f64 (f64_decimal 23 10) = Acceleration 229999"
  by (simp_all add: f64_conversions f64_computes as_i32_def)

end
