(* ===== verification/Startup.thy ===== *)
theory Startup
  imports System Conversions
begin

text \<open>
  How the program starts (\<open>main\<close> in \<open>src/main.rs\<close>): from the options of the command line to the
  limits of the core and the settings of the drive loop.  Whether the HID library and the listening
  socket are available is an argument; the texts of the options are parsed by \<open>clap\<close>, except for
  \<open>from_hex\<close>.
\<close>

subsection \<open>Options\<close>

record Options =
  opt_drive_address :: string
  opt_enable_usb :: bool
  opt_usb_vid :: u16
  opt_usb_pid :: u16
  opt_enable_websocket :: bool
  opt_websocket_port :: u16
  opt_stroke_limit :: f64 \<comment> \<open>mm\<close>
  opt_velocity_limit :: f64 \<comment> \<open>m/s\<close>
  opt_acceleration_limit :: f64 \<comment> \<open>\<open>m/s\<^sup>2\<close>\<close>
  opt_position_overshoot_limit :: f64 \<comment> \<open>mm\<close>
  opt_loop_interval :: nat \<comment> \<open>ms\<close>
  opt_stats_table :: string
  opt_stats_limit :: nat
  opt_stats_interval :: nat

text \<open>\<open>u16::from_str_radix(s, 16)\<close>: digits of either case, after an optional plus sign.\<close>

definition hex_digit :: "char \<Rightarrow> nat option" where
  "hex_digit c =
     (let k = of_char c :: nat in
      if 48 \<le> k \<and> k \<le> 57 then Some (k - 48)
      else if 65 \<le> k \<and> k \<le> 70 then Some (k - 55)
      else if 97 \<le> k \<and> k \<le> 102 then Some (k - 87)
      else None)"

fun hex_digits :: "nat \<Rightarrow> string \<Rightarrow> nat option" where
  "hex_digits n [] = Some n"
| "hex_digits n (c # cs) =
     (case hex_digit c of
        None \<Rightarrow> None
      | Some d \<Rightarrow> if 65535 < 16 * n + d then None else hex_digits (16 * n + d) cs)"

definition from_hex :: "string \<Rightarrow> u16 option" where
  "from_hex s =
     (let digits = (case s of [] \<Rightarrow> [] | c # cs \<Rightarrow> if c = CHR ''+'' then cs else s) in
      if digits = [] then None else map_option of_nat (hex_digits 0 digits))"

text \<open>The defaults, for a drive address and the interfaces that are asked for.\<close>

definition Options_default :: "string \<Rightarrow> bool \<Rightarrow> bool \<Rightarrow> Options" where
  "Options_default address usb ws =
     \<lparr>opt_drive_address = address, opt_enable_usb = usb,
      opt_usb_vid = the (from_hex ''303A''), opt_usb_pid = the (from_hex ''8354''),
      opt_enable_websocket = ws, opt_websocket_port = 8080,
      opt_stroke_limit = f64_decimal 3600 10, opt_velocity_limit = f64_decimal 25 10,
      opt_acceleration_limit = f64_decimal 150 10, opt_position_overshoot_limit = f64_decimal 50 10,
      opt_loop_interval = 2, opt_stats_table = ''puddle_stats'', opt_stats_limit = 75000,
      opt_stats_interval = 5\<rparr>"

subsection \<open>Start\<close>

datatype startup_error = HidUnavailable | WebSocketUnavailable | NoControllerInterfaces

definition main_limits :: "Options \<Rightarrow> SystemLimits" where
  "main_limits options =
     \<lparr>limit_position = Position_from_millimeters_f64 (opt_stroke_limit options),
      limit_velocity = Velocity_from_meters_per_second_f64 (opt_velocity_limit options),
      limit_acceleration =
        Acceleration_from_meters_per_second_squared_f64 (opt_acceleration_limit options),
      limit_deceleration =
        Acceleration_from_meters_per_second_squared_f64 (opt_acceleration_limit options)\<rparr>"

definition main_drive_config :: "Options \<Rightarrow> drive_config" where
  "main_drive_config options =
     \<lparr>cfg_interval = opt_loop_interval options * 1000000,
      cfg_overshoot_margin = Position_from_millimeters_f64 (opt_position_overshoot_limit options),
      cfg_hard_deceleration_min =
        Acceleration_from_meters_per_second_squared_f64
          (f64_div (opt_acceleration_limit options) (f64_from 2)),
      cfg_hard_deceleration_max =
        Acceleration_from_meters_per_second_squared_f64
          (f64_mul (opt_acceleration_limit options) (f64_from 2))\<rparr>"

text \<open>The initial state of core and drive thread.  The metrics are started or, with a warning, not.\<close>

definition main_start :: "bool \<Rightarrow> bool \<Rightarrow> Options \<Rightarrow> startup_error + drive_config \<times> system" where
  "main_start hid_ok ws_ok options =
     (if opt_enable_usb options \<and> \<not> hid_ok then Inl HidUnavailable
      else if opt_enable_websocket options \<and> \<not> ws_ok then Inl WebSocketUnavailable
      else if \<not> opt_enable_usb options \<and> \<not> opt_enable_websocket options then
        Inl NoControllerInterfaces
      else
        Inr (main_drive_config options,
          system_start (main_limits options) (opt_enable_usb options) (opt_enable_websocket options)))"


subsection \<open>Options that make sense\<close>

fun f64_ordinary :: "f64 \<Rightarrow> bool" where
  "f64_ordinary (Finite False m e) = True"
| "f64_ordinary _ = False"

lemma f64_ordinaryE:
  assumes "f64_ordinary x"
  obtains m e where "x = Finite False m e"
  using assms by (cases x rule: f64_ordinary.cases) auto

text \<open>A raw value that is the exact number of units, to about one unit, or the largest \<open>i32\<close>.\<close>

definition raw_of :: "int \<Rightarrow> real \<Rightarrow> bool" where
  "raw_of raw exact \<longleftrightarrow> 0 \<le> raw \<and> raw \<le> exact + 1 / 1000 \<and> min exact 2147483648 - 1001 / 1000 \<le> raw"

lemma raw_of_units:
  assumes "f64_ordinary x" "0 < c"
  shows "raw_of (sint (f64_as_i32 (f64_mul x (f64_from c)))) (f64_real x * c)"
  using f64_units_bounds [OF assms(2)] f64_ordinaryE [OF assms(1)] by (metis raw_of_def)

lemma raw_of_small:
  assumes "raw_of raw x" "x \<le> 1073740000"
  shows "0 \<le> raw" "raw \<le> 1073741823"
  using assms unfolding raw_of_def by linarith+

text \<open>
  Numbers that are not negative, at most 107 m and 10000 \<open>m/s\<^sup>2\<close>, and a loop interval of at most
  3 ms.  The defaults are among them.
\<close>

definition options_ok :: "Options \<Rightarrow> bool" where
  "options_ok options \<longleftrightarrow> f64_ordinary (opt_stroke_limit options) \<and> f64_real (opt_stroke_limit options) \<le> 107374 \<and>
     f64_ordinary (opt_velocity_limit options) \<and>
     f64_ordinary (opt_acceleration_limit options) \<and> f64_real (opt_acceleration_limit options) \<le> 10000 \<and>
     f64_ordinary (opt_position_overshoot_limit options) \<and>
     f64_real (opt_position_overshoot_limit options) \<le> 107374 \<and>
     opt_loop_interval options \<le> 3"

lemma main_limits_units:
  assumes "options_ok options"
  shows "raw_of (raw_p (limit_position (main_limits options))) (f64_real (opt_stroke_limit options) * 10000)"
    "raw_of (raw_v (limit_velocity (main_limits options))) (f64_real (opt_velocity_limit options) * 1000000)"
    "raw_of (raw_a (limit_acceleration (main_limits options)))
      (f64_real (opt_acceleration_limit options) * 100000)"
    "limit_deceleration (main_limits options) = limit_acceleration (main_limits options)"
  using assms raw_of_units [of _ 10000] raw_of_units [of _ 1000000] raw_of_units [of _ 100000]
  by (simp_all add: options_ok_def main_limits_def f64_conversions)

lemma main_limits_ok:
  assumes "options_ok options"
  shows "limits_ok (main_limits options)" "raw_p (limit_position (main_limits options)) \<le> 1073741823"
proof -
  show "limits_ok (main_limits options)"
    using main_limits_units [OF assms] by (simp add: limits_ok_def raw_of_def)
  have "f64_real (opt_stroke_limit options) \<le> 107374"
    using assms by (simp add: options_ok_def)
  then show "raw_p (limit_position (main_limits options)) \<le> 1073741823"
    using raw_of_small [OF main_limits_units(1) [OF assms]] by simp
qed

text \<open>Half the acceleration limit is at most twice the limit, also after rounding and truncation.\<close>

lemma hard_decelerations_ordered:
  assumes "f64_ordinary x" "f64_real x \<le> 10000"
  shows "0 \<le> raw_a (Acceleration_from_meters_per_second_squared_f64 (f64_div x (f64_from 2)))"
    "raw_a (Acceleration_from_meters_per_second_squared_f64 (f64_div x (f64_from 2))) \<le>
      raw_a (Acceleration_from_meters_per_second_squared_f64 (f64_mul x (f64_from 2)))"
proof -
  obtain m e where x: "x = Finite False m e" using f64_ordinaryE [OF assms(1)] .
  define a where "a = f64_real x"
  have a: "0 \<le> a" "a \<le> 10000" using assms(2) by (simp_all add: a_def x)
  define y z where "y = f64_div x (f64_from 2)" and "z = f64_mul x (f64_from 2)"
  have "f64_close y (a / 2)" "f64_close z (a * 2)"
    using f64_div_close [OF x, of 2] f64_mul_close [OF x, of 2] a by (simp_all add: y_def z_def a_def)
  then have y: "f64_ordinary y" "\<bar>f64_real y - a / 2\<bar> \<le> 1 / 100000000"
    and z: "f64_ordinary z" "\<bar>f64_real z - a * 2\<bar> \<le> 1 / 100000000"
    using a f64_least_error(2) by (auto simp: f64_close_def le_max_iff_disj)
  let ?lo = "raw_a (Acceleration_from_meters_per_second_squared_f64 y)"
  let ?hi = "raw_a (Acceleration_from_meters_per_second_squared_f64 z)"
  have lo: "raw_of ?lo (f64_real y * 100000)" and hi: "raw_of ?hi (f64_real z * 100000)"
    using raw_of_units [OF y(1), of 100000] raw_of_units [OF z(1), of 100000]
    by (simp_all add: f64_conversions)
  then show "0 \<le> raw_a (Acceleration_from_meters_per_second_squared_f64 (f64_div x (f64_from 2)))"
    by (simp add: raw_of_def y_def)
  have "?lo \<le> ?hi"
  proof (cases "a * 100000 < 1")
    case True
    then have "?lo < 1" using lo y(2) unfolding raw_of_def by linarith
    then show ?thesis using hi by (simp add: raw_of_def)
  next
    case False
    have "f64_real z * 100000 < 2147483648" using z(2) a by linarith
    then show ?thesis using lo hi y(2) z(2) False unfolding raw_of_def by linarith
  qed
  then show "raw_a (Acceleration_from_meters_per_second_squared_f64 (f64_div x (f64_from 2))) \<le>
      raw_a (Acceleration_from_meters_per_second_squared_f64 (f64_mul x (f64_from 2)))"
    by (simp only: y_def z_def)
qed

lemma main_config_ok:
  assumes "options_ok options"
  shows "config_ok (main_drive_config options)"
proof -
  have "f64_real (opt_position_overshoot_limit options) \<le> 107374"
    "f64_ordinary (opt_position_overshoot_limit options)"
    using assms by (simp_all add: options_ok_def)
  from raw_of_small [OF raw_of_units [OF this(2), of 10000]] this(1)
  have "\<bar>raw_p (cfg_overshoot_margin (main_drive_config options))\<bar> \<le> 1073741824"
    by (simp add: main_drive_config_def f64_conversions)
  then show ?thesis
    using assms hard_decelerations_ordered [of "opt_acceleration_limit options"]
    by (simp add: config_ok_def sane_connection_def Connection_initial_def options_ok_def
        main_drive_config_def sane_commands_def)
qed


lemma main_start_system:
  assumes "main_start hid_ok ws_ok options = Inr (cfg, s)"
  shows "cfg = main_drive_config options"
    "s = system_start (main_limits options) (opt_enable_usb options) (opt_enable_websocket options)"
  using assms by (simp_all add: main_start_def split: if_splits)

text \<open>A start fails exactly if an interface that is asked for is not available, or none is.\<close>

lemma main_start_fails_iff:
  "(\<exists>e. main_start hid_ok ws_ok options = Inl e) \<longleftrightarrow>
     opt_enable_usb options \<and> \<not> hid_ok \<or> opt_enable_websocket options \<and> \<not> ws_ok \<or>
     \<not> opt_enable_usb options \<and> \<not> opt_enable_websocket options"
  by (simp add: main_start_def)

subsection \<open>What the options allow\<close>

definition at_most :: "int \<Rightarrow> real \<Rightarrow> bool" where
  "at_most raw limit \<longleftrightarrow> 0 \<le> raw \<and> raw \<le> limit + 1 / 1000"

fun command_respects :: "Options \<Rightarrow> Command \<Rightarrow> bool" where
  "command_respects options (VaiStop _) = True"
| "command_respects options (VaiGoToPos pos vel acc _) \<longleftrightarrow>
     at_most (raw_p pos) (f64_real (opt_stroke_limit options) * 10000) \<and>
     at_most (raw_v vel) (f64_real (opt_velocity_limit options) * 1000000) \<and>
     at_most (raw_a acc) (f64_real (opt_acceleration_limit options) * 100000)"
| "command_respects options _ = False"

definition datagram_respects :: "Options \<Rightarrow> u8 list \<Rightarrow> bool" where
  "datagram_respects options dg \<longleftrightarrow>
     (case drive_request dg of
        None \<Rightarrow> False
      | Some req \<Rightarrow> pred_option (\<lambda>m. command_respects options (mci_command m)) (req_motion_command req))"

lemma raw_of_at_most: "raw_of limit x \<Longrightarrow> 0 \<le> raw \<Longrightarrow> raw \<le> limit \<Longrightarrow> at_most raw x"
  unfolding raw_of_def at_most_def by linarith

lemma command_allowed_respects:
  assumes "options_ok options" "command_allowed (main_limits options) cmd"
  shows "command_respects options cmd"
  using assms(2) main_limits_units [OF assms(1)]
  by (cases "(options, cmd)" rule: command_respects.cases)
    (auto simp: less_eq_Position_def less_eq_Velocity_def less_eq_Acceleration_def intro: raw_of_at_most)

lemma datagram_allowed_respects:
  assumes "options_ok options" "datagram_allowed (main_limits options) dg"
  shows "datagram_respects options dg"
  using assms(2) command_allowed_respects [OF assms(1)]
  by (auto simp: datagram_allowed_def datagram_respects_def pred_option_def split: option.splits)

subsection \<open>Options that do not\<close>

lemma negative_units:
  assumes "2 \<le> m * 2 powi e * 10000"
  shows "sint (f64_as_i32 (f64_mul (Finite True m e) (f64_from 10000))) < 0"
proof -
  define x where "x = m * 2 powi e * 10000"
  obtain v where v: "\<bar>v - x\<bar> \<le> max (x * 2 powi - 53) f64_least_error"
    and raw: "sint (f64_as_i32 (f64_mul (Finite True m e) (f64_from 10000))) =
      max (- 2147483648) (- \<lfloor>v\<rfloor>)"
    using f64_units_cast [of 10000 m e True] unfolding x_def by auto
  have "2 powi - 53 = (1 / 9007199254740992 :: real)"
    by (simp add: power_int_minus)
  then have "\<bar>v - x\<bar> \<le> x / 9007199254740992 \<or> \<bar>v - x\<bar> \<le> f64_least_error"
    using v by (simp add: le_max_iff_disj)
  then have "1 \<le> v"
    using assms [folded x_def] f64_least_error(2) by linarith
  then have "1 \<le> \<lfloor>v\<rfloor>" by simp
  then show ?thesis by (simp add: raw)
qed

lemma and_then_error: "fst (a cm) = Inl e \<Longrightarrow> fst (and_then a b cm) = Inl e"
  by (cases "a cm") (auto simp: and_then_def)

lemma negative_limit_panics:
  assumes "raw_p (limit_position (cm_limits cm)) < 0" "cmds \<noteq> []"
  shows "fst (sync_commands_to_drive (cm\<lparr>cm_active_command_set := (version, cmds)\<rparr>)) = Inl Panic"
proof -
  have "\<not> Position 0 \<le> limit_position (cm_limits cm)"
    using assms(1) by (simp add: less_eq_Position_def)
  then have "clamp_commands (cm_limits cm) cmds = None"
    using assms(2) by (cases cmds) (simp_all add: clamp_command_def ord_clamp_def)
  then show ?thesis
    by (simp add: sync_commands_to_drive_def panic_def)
qed

subsection \<open>The defaults\<close>

lemma tests_of_from_hex:
  "from_hex ''303A'' = Some 0x303A" "from_hex ''8354'' = Some 0x8354" "from_hex ''+ff'' = Some 255"
  "from_hex ''10000'' = None" "from_hex '''' = None" "from_hex ''+'' = None" "from_hex ''0x1'' = None"
  by (simp_all add: from_hex_def hex_digit_def Let_def)

lemma default_start:
  "main_start True True (Options_default address True True) =
     Inr (example_config, system_start example_limits True True)"
  by (simp add: main_start_def Options_default_def main_drive_config_def main_limits_def f64_conversions
      f64_computes as_i32_def example_config_def example_limits_def)

lemma default_options_ok: "options_ok (Options_default address usb ws)"
  by (simp add: options_ok_def Options_default_def f64_computes power_int_minus)


definition negative_options :: Options where
  "negative_options = (Options_default ''drive'' False True)\<lparr>opt_stroke_limit := Finite True 1 0\<rparr>"

end
