(* ===== verification/Metrics.thy ===== *)
theory Metrics
  imports DriveLoop
begin

text \<open>
  The metrics of the drive loop (\<open>src/metrics.rs\<close>): the record of a cycle and its row in the
  database, and the thread that sends the rows.  The clock and the client library (\<open>questdb\<close>) are
  outside: the time and the outcomes of connecting and flushing are arguments, and the row buffer is
  a record of the operations that are called on it.
\<close>

subsection \<open>Records\<close>

record RecordCommand =
  rc_position :: Position
  rc_velocity :: Velocity
  rc_acceleration :: Acceleration
  rc_deceleration :: Acceleration

record MetricsRecord =
  mr_timestamp :: int
  mr_processing_time :: duration
  mr_response_time :: duration
  mr_active_command_index :: nat
  mr_command :: "RecordCommand option"
  mr_control_flags :: ControlFlags
  mr_status_flags :: StatusFlags
  mr_raw_state :: u16
  mr_actual_position :: Position
  mr_demand_position :: Position
  mr_demand_velocity :: Velocity
  mr_demand_acceleration :: Acceleration
  mr_motor_current :: Current
  mr_warning_flags :: WarningFlags
  mr_raw_error_code :: u16
  mr_drive_temperature :: DriveTemperature
  mr_motor_temperature :: MotorTemperature

datatype metrics_error = Missing string | ConversionError | BufferError

definition ok_or :: "string \<Rightarrow> 'a option \<Rightarrow> metrics_error + 'a" where
  "ok_or what x = (case x of None \<Rightarrow> Inl (Missing what) | Some v \<Rightarrow> Inr v)"

definition RecordCommand_of :: "Request \<Rightarrow> RecordCommand option" where
  "RecordCommand_of request =
     (case req_motion_command request of
        Some mc \<Rightarrow>
          (case mci_command mc of
             VaiGoToPos target maximal acc dec \<Rightarrow>
               Some \<lparr>rc_position = target, rc_velocity = maximal, rc_acceleration = acc,
                     rc_deceleration = dec\<rparr>
           | _ \<Rightarrow> None)
      | None \<Rightarrow> None)"

definition MetricsRecord_new ::
    "int \<Rightarrow> duration \<Rightarrow> duration \<Rightarrow> nat \<Rightarrow> Request \<Rightarrow> Response \<Rightarrow> metrics_error + MetricsRecord" where
  "MetricsRecord_new now loop_duration last_rtt active_command_index request response =
     andthen (ok_or ''monitoring channel'' (rsp_monitoring_channel response))
       (\<lambda>(demand_velocity, demand_acceleration, drive_temperature, motor_temperature).
     andthen (ok_or ''control flags'' (req_control_flags request)) (\<lambda>control_flags.
     andthen (ok_or ''status flags'' (rsp_status_flags response)) (\<lambda>status_flags.
     andthen (ok_or ''state'' (rsp_raw_state response)) (\<lambda>raw_state.
     andthen (ok_or ''actual position'' (rsp_actual_position response)) (\<lambda>actual_position.
     andthen (ok_or ''demand position'' (rsp_demand_position response)) (\<lambda>demand_position.
     andthen (ok_or ''motor current'' (rsp_current response)) (\<lambda>motor_current.
     andthen (ok_or ''warning flags'' (rsp_warning_flags response)) (\<lambda>warning_flags.
     andthen (ok_or ''error code'' (rsp_raw_error_code response)) (\<lambda>raw_error_code.
     Inr \<lparr>mr_timestamp = now, mr_processing_time = loop_duration, mr_response_time = last_rtt,
          mr_active_command_index = active_command_index, mr_command = RecordCommand_of request,
          mr_control_flags = control_flags, mr_status_flags = status_flags,
          mr_raw_state = raw_state, mr_actual_position = actual_position,
          mr_demand_position = demand_position, mr_demand_velocity = Velocity demand_velocity,
          mr_demand_acceleration = Acceleration demand_acceleration,
          mr_motor_current = motor_current, mr_warning_flags = warning_flags,
          mr_raw_error_code = raw_error_code,
          mr_drive_temperature = DriveTemperature (ucast drive_temperature),
          mr_motor_temperature = MotorTemperature (ucast motor_temperature)\<rparr>)))))))))"

text \<open>The record the drive loop queues after a cycle.\<close>

definition record_metrics :: "int \<Rightarrow> duration \<Rightarrow> connection \<Rightarrow> metrics_error + MetricsRecord" where
  "record_metrics now loop_duration c =
     MetricsRecord_new now loop_duration (case c_last_rtt c of None \<Rightarrow> 0 | Some d \<Rightarrow> d)
       (c_last_command_index c) (c_last_request c) (c_last_response c)"

subsection \<open>Rows\<close>

definition RecordCommand_columns :: "RecordCommand \<Rightarrow> (string \<times> int) list" where
  "RecordCommand_columns command =
     [(''command_position'', sint (position_0 (rc_position command))),
      (''command_velocity'', sint (velocity_0 (rc_velocity command))),
      (''command_acceleration'', sint (acceleration_0 (rc_acceleration command))),
      (''command_deceleration'', sint (acceleration_0 (rc_deceleration command)))]"

definition MetricsRecord_columns :: "MetricsRecord \<Rightarrow> (string \<times> int) list" where
  "MetricsRecord_columns r =
     [(''processing_time'', as_micros (mr_processing_time r)),
      (''response_time'', as_micros (mr_response_time r)),
      (''active_command'', int (mr_active_command_index r))] @
     (case mr_command r of None \<Rightarrow> [] | Some command \<Rightarrow> RecordCommand_columns command) @
     [(''control_flags'', uint (mr_control_flags r)),
      (''status_flags'', uint (mr_status_flags r)),
      (''state'', uint (mr_raw_state r)),
      (''actual_position'', sint (position_0 (mr_actual_position r))),
      (''demand_position'', sint (position_0 (mr_demand_position r))),
      (''demand_velocity'', sint (velocity_0 (mr_demand_velocity r))),
      (''demand_acceleration'', sint (acceleration_0 (mr_demand_acceleration r))),
      (''motor_current'', sint (current_0 (mr_motor_current r))),
      (''warning_flags'', uint (mr_warning_flags r)),
      (''error_code'', uint (mr_raw_error_code r)),
      (''drive_temperature'', sint (drive_temperature_0 (mr_drive_temperature r))),
      (''motor_temperature'', sint (motor_temperature_0 (mr_motor_temperature r)))]"

definition i64_ok :: "int \<Rightarrow> bool" where
  "i64_ok x \<longleftrightarrow> - (2 ^ 63) \<le> x \<and> x < 2 ^ 63"

text \<open>The operations of the row buffer that are called; the first component says whether they succeed.\<close>

record 'b buffer_api =
  api_new :: 'b
  api_table :: "string \<Rightarrow> 'b \<Rightarrow> bool \<times> 'b"
  api_column_i64 :: "string \<Rightarrow> int \<Rightarrow> 'b \<Rightarrow> bool \<times> 'b"
  api_at :: "int \<Rightarrow> 'b \<Rightarrow> bool \<times> 'b"
  api_row_count :: "'b \<Rightarrow> nat"
  api_flushed :: "'b \<Rightarrow> 'b" \<comment> \<open>the buffer after a flush that succeeds\<close>

text \<open>A value that does not fit an \<open>i64\<close> or that the buffer refuses ends the call and leaves the row
  unfinished; the timestamp ends the row.\<close>

fun add_columns ::
    "'b buffer_api \<Rightarrow> (string \<times> int) list \<Rightarrow> 'b \<Rightarrow> (metrics_error + unit) \<times> 'b" where
  "add_columns api [] b = (Inr (), b)"
| "add_columns api ((name, v) # columns) b =
     (if \<not> i64_ok v then (Inl ConversionError, b)
      else case api_column_i64 api name v b of
        (True, b) \<Rightarrow> add_columns api columns b
      | (False, b) \<Rightarrow> (Inl BufferError, b))"

definition add_to_buffer :: "'b buffer_api \<Rightarrow> MetricsRecord \<Rightarrow> 'b \<Rightarrow> (metrics_error + unit) \<times> 'b" where
  "add_to_buffer api r b =
     (case add_columns api (MetricsRecord_columns r) b of
        (Inl e, b) \<Rightarrow> (Inl e, b)
      | (Inr _, b) \<Rightarrow>
          (case api_at api (mr_timestamp r) b of
             (True, b) \<Rightarrow> (Inr (), b)
           | (False, b) \<Rightarrow> (Inl BufferError, b)))"

subsection \<open>The thread that sends the rows\<close>

record metrics_config =
  mc_table_name :: string
  mc_flush_limit :: nat
  mc_flush_interval :: duration

text \<open>\<open>ms_flushed\<close> is the list of the buffers that were flushed, as they were before.\<close>

record 'b metrics_state =
  ms_connected :: bool \<comment> \<open>\<open>sender.is_some()\<close>\<close>
  ms_buffer :: "'b option"
  ms_last_flush :: nat
  ms_retry_time :: duration
  ms_flushed :: "'b list"

text \<open>What one round of the inner loop finds: the sender is broken, a new one connects, the time, the
  outcome of a flush and the time after it.\<close>

record attempt =
  at_must_close :: bool
  at_connects :: bool
  at_now :: nat
  at_flushes :: bool
  at_flushed_at :: nat

text \<open>\<open>MetricSender::new\<close>: a wrong configuration disables the metrics, another error does not.\<close>

datatype from_env = EnvSender | EnvConfigError | EnvError

definition MetricSender_new :: "'b buffer_api \<Rightarrow> from_env \<Rightarrow> nat \<Rightarrow> 'b metrics_state option" where
  "MetricSender_new api outcome now =
     (if outcome = EnvConfigError then None
      else
        let connected = (outcome = EnvSender) in
        Some \<lparr>ms_connected = connected,
              ms_buffer = (if connected then Some (api_new api) else None),
              ms_last_flush = now, ms_retry_time = 1000000000, ms_flushed = []\<rparr>)"

definition add_record ::
    "'b buffer_api \<Rightarrow> metrics_config \<Rightarrow> MetricsRecord \<Rightarrow> 'b \<Rightarrow> (metrics_error + unit) \<times> 'b" where
  "add_record api mc r b =
     (case api_table api (mc_table_name mc) b of
        (True, b) \<Rightarrow> add_to_buffer api r b
      | (False, b) \<Rightarrow> (Inl BufferError, b))"

text \<open>The connection part of a round: \<open>None\<close> is the \<open>continue\<close> after a failed attempt, with the
  longer retry time in the state.\<close>

definition ensure_sender ::
    "'b buffer_api \<Rightarrow> attempt \<Rightarrow> 'b metrics_state \<Rightarrow> bool \<times> 'b metrics_state" where
  "ensure_sender api a st =
     (if \<not> ms_connected st \<or> at_must_close a then
        let st = st\<lparr>ms_connected := False\<rparr> in
        if at_connects a then
          (True, st\<lparr>ms_buffer := Some (case ms_buffer st of None \<Rightarrow> api_new api | Some b \<Rightarrow> b),
                    ms_connected := True, ms_retry_time := 1000000000\<rparr>)
        else (False, st\<lparr>ms_retry_time := min (ms_retry_time st * 10) 30000000000\<rparr>)
      else (True, st))"

text \<open>The inner loop for one record.  The attempts are what happens; when they are used up the loop is
  still running, which is the result \<open>Inl\<close> with the flag \<open>added_to_buffer\<close>.\<close>

fun send_record ::
    "'b buffer_api \<Rightarrow> metrics_config \<Rightarrow> MetricsRecord \<Rightarrow> attempt list \<Rightarrow> bool \<Rightarrow> 'b metrics_state
     \<Rightarrow> (bool + unit) \<times> 'b metrics_state" where
  "send_record api mc r [] added st = (Inl added, st)"
| "send_record api mc r (a # attempts) added st =
     (case ensure_sender api a st of
        (False, st) \<Rightarrow> send_record api mc r attempts added st
      | (True, st) \<Rightarrow>
          let b = (case ms_buffer st of None \<Rightarrow> api_new api | Some b \<Rightarrow> b);
              (res, b) = (if added then (Inr (), b) else add_record api mc r b);
              st = st\<lparr>ms_buffer := Some b\<rparr> in
          case res of
            Inl e \<Rightarrow> (Inr (), st)
          | Inr _ \<Rightarrow>
              if mc_flush_limit mc < api_row_count api b
                \<or> mc_flush_interval mc < at_now a - ms_last_flush st then
                if at_flushes a then
                  (Inr (), st\<lparr>ms_buffer := Some (api_flushed api b),
                              ms_last_flush := at_flushed_at a, ms_flushed := ms_flushed st @ [b]\<rparr>)
                else send_record api mc r attempts True (st\<lparr>ms_connected := False\<rparr>)
              else (Inr (), st))"

text \<open>The outer loop, over the records of the queue.\<close>

fun run_sender ::
    "'b buffer_api \<Rightarrow> metrics_config \<Rightarrow> (MetricsRecord \<times> attempt list) list \<Rightarrow> 'b metrics_state
     \<Rightarrow> (bool + unit) \<times> 'b metrics_state" where
  "run_sender api mc [] st = (Inr (), st)"
| "run_sender api mc ((r, attempts) # queue) st =
     (case send_record api mc r attempts False st of
        (Inl added, st) \<Rightarrow> (Inl added, st)
      | (Inr _, st) \<Rightarrow> run_sender api mc queue st)"

subsection \<open>The record of a cycle\<close>

text \<open>After a cycle that gave the core a feedback, and whose response had the status word, there is
  a record, and it says what the feedback says.\<close>

lemma record_matches_feedback:
  assumes "feedback_of c = Some (state, fb)"
    and "req_control_flags (c_last_request c) = Some flags" "rsp_status_flags (c_last_response c) = Some status"
  shows "\<exists>r. record_metrics now elapsed c = Inr r \<and>
    mr_actual_position r = fb_actual_position fb \<and> mr_demand_position r = fb_demand_position fb \<and>
    mr_demand_velocity r = fb_demand_velocity fb \<and> mr_demand_acceleration r = fb_demand_acceleration fb \<and>
    mr_motor_current r = fb_current_draw fb \<and> mr_warning_flags r = fb_warning_flags fb \<and>
    mr_drive_temperature r = fb_drive_temperature fb \<and> mr_motor_temperature r = fb_motor_temperature fb \<and>
    State_from (mr_raw_state r) = state \<and> ErrorCode_from (mr_raw_error_code r) = fb_error_code fb"
  using assms
  by (auto simp: feedback_of_def record_metrics_def MetricsRecord_new_def ok_or_def Let_def
      Response_state_def Response_error_code_def split: option.splits)

lemma i64_ok_word [simp]:
  "i64_ok (uint (w16 :: 16 word))" "i64_ok (sint (w16 :: 16 word))" "i64_ok (sint (w32 :: 32 word))"
proof -
  have "uint w16 < 65536"
    using uint_bounded [of w16] by simp
  moreover have "- (2 ^ 63) \<le> uint w16"
    by (rule order_trans [OF _ uint_ge_0]) simp
  ultimately show "i64_ok (uint w16)"
    by (simp add: i64_ok_def)
  show "i64_ok (sint w16)" "i64_ok (sint w32)"
    using sint_greater_eq [of w16] sint_less [of w16] sint_greater_eq [of w32] sint_less [of w32]
    by (simp_all add: i64_ok_def)
qed

text \<open>
  Only the durations and the index can fail to fit, after more than 290 thousand years; and the clock
  has to be past the year 1970.
\<close>

definition record_fits :: "MetricsRecord \<Rightarrow> bool" where
  "record_fits r \<longleftrightarrow> 0 \<le> mr_timestamp r \<and> i64_ok (as_micros (mr_processing_time r)) \<and> i64_ok (as_micros (mr_response_time r)) \<and>
     i64_ok (int (mr_active_command_index r))"

lemma record_columns_fit: "record_fits r \<Longrightarrow> list_all (\<lambda>(_, v). i64_ok v) (MetricsRecord_columns r)"
  by (simp add: record_fits_def MetricsRecord_columns_def RecordCommand_columns_def split: option.split)

subsection \<open>No row is lost or sent twice\<close>

text \<open>
  The documented behaviour of the buffer: it holds complete rows and at most one unfinished one; the
  calls in the order table, columns, timestamp succeed for names and times the library accepts, and a flush
  that succeeds empties it.  Names are validated by the library; the ones made of lower-case letters and
  underscores, within the length limit, are among those it accepts.  Times before 1970 are refused.
\<close>

type_synonym row = "int \<times> (string \<times> int) list"

definition plain_name :: "string \<Rightarrow> bool" where
  "plain_name name \<longleftrightarrow> name \<noteq> '''' \<and> length name \<le> 127 \<and>
     list_all (\<lambda>c. c \<in> set ''abcdefghijklmnopqrstuvwxyz_'') name"

definition buffer_laws :: "'b buffer_api \<Rightarrow> ('b \<Rightarrow> row list \<times> (string \<times> int) list option) \<Rightarrow> bool" where
  "buffer_laws api view \<longleftrightarrow> view (api_new api) = ([], None) \<and>
     (\<forall>b rows name. view b = (rows, None) \<longrightarrow> plain_name name \<longrightarrow>
        (\<exists>b'. api_table api name b = (True, b') \<and> view b' = (rows, Some []))) \<and>
     (\<forall>b rows cols name v. view b = (rows, Some cols) \<longrightarrow> plain_name name \<longrightarrow>
        (\<exists>b'. api_column_i64 api name v b = (True, b') \<and> view b' = (rows, Some (cols @ [(name, v)])))) \<and>
     (\<forall>b rows cols t. view b = (rows, Some cols) \<longrightarrow> cols \<noteq> [] \<longrightarrow> 0 \<le> t \<longrightarrow>
        (\<exists>b'. api_at api t b = (True, b') \<and> view b' = (rows @ [(t, cols)], None))) \<and>
     (\<forall>b rows. view b = (rows, None) \<longrightarrow>
        api_row_count api b = length rows \<and> view (api_flushed api b) = ([], None))"

lemma column_names_plain: "list_all (\<lambda>(name, _). plain_name name) (MetricsRecord_columns r)"
  by (simp add: MetricsRecord_columns_def RecordCommand_columns_def plain_name_def split: option.split)

definition row_of :: "MetricsRecord \<Rightarrow> row" where
  "row_of r = (mr_timestamp r, MetricsRecord_columns r)"

lemma add_columns_view:
  assumes "buffer_laws api view" "list_all (\<lambda>(_, v). i64_ok v) columns"
    and "list_all (\<lambda>(name, _). plain_name name) columns" "view b = (rows, Some cols)"
  shows "\<exists>b'. add_columns api columns b = (Inr (), b') \<and> view b' = (rows, Some (cols @ columns))"
  using assms(2-)
proof (induction columns arbitrary: b cols)
  case (Cons nv columns)
  obtain name v where nv: "nv = (name, v)" by fastforce
  with Cons.prems(2) have "plain_name name" by simp
  then obtain b' where "api_column_i64 api name v b = (True, b')" "view b' = (rows, Some (cols @ [(name, v)]))"
    using assms(1) Cons.prems(3) unfolding buffer_laws_def by blast
  with Cons.IH [of b' "cols @ [(name, v)]"] Cons.prems(1,2) show ?case by (simp add: nv)
qed simp

lemma add_record_view:
  assumes "buffer_laws api view" "record_fits r" "view b = (rows, None)" "plain_name (mc_table_name mc)"
  shows "\<exists>b'. add_record api mc r b = (Inr (), b') \<and> view b' = (rows @ [row_of r], None)"
proof -
  obtain b1 where b1: "api_table api (mc_table_name mc) b = (True, b1)" "view b1 = (rows, Some [])"
    using assms(1,3,4) unfolding buffer_laws_def by blast
  obtain b2 where b2: "add_columns api (MetricsRecord_columns r) b1 = (Inr (), b2)"
    "view b2 = (rows, Some (MetricsRecord_columns r))"
    using add_columns_view [OF assms(1) record_columns_fit [OF assms(2)] column_names_plain b1(2)] by auto
  have "0 \<le> mr_timestamp r" "MetricsRecord_columns r \<noteq> []"
    using assms(2) by (simp_all add: record_fits_def MetricsRecord_columns_def)
  then obtain b3 where "api_at api (mr_timestamp r) b2 = (True, b3)" "view b3 = (rows @ [row_of r], None)"
    using assms(1) b2(2) unfolding buffer_laws_def row_of_def by blast
  with b1 b2 show ?thesis by (simp add: add_record_def add_to_buffer_def)
qed


text \<open>The rows that were flushed, and those in the buffer.\<close>

definition stored :: "('b \<Rightarrow> row list \<times> (string \<times> int) list option) \<Rightarrow> 'b metrics_state \<Rightarrow> row list" where
  "stored view st = concat (map (fst \<circ> view) (ms_flushed st)) @
     (case ms_buffer st of None \<Rightarrow> [] | Some b \<Rightarrow> fst (view b))"

text \<open>The buffer has no unfinished row, and the retry time is at most 30 s.\<close>

definition sender_ok :: "('b \<Rightarrow> row list \<times> (string \<times> int) list option) \<Rightarrow> 'b metrics_state \<Rightarrow> bool" where
  "sender_ok view st \<longleftrightarrow> pred_option (\<lambda>b. snd (view b) = None) (ms_buffer st) \<and>
     ms_retry_time st \<le> 30000000000"

lemma ensure_sender_keeps:
  assumes "buffer_laws api view" "ensure_sender api a st = (connected, st')" "sender_ok view st"
  shows "sender_ok view st' \<and> stored view st' = stored view st \<and> ms_flushed st' = ms_flushed st"
  using assms
  by (auto simp: ensure_sender_def sender_ok_def stored_def buffer_laws_def Let_def
      split: if_splits option.splits)

text \<open>One record: it is stored once, when it is added, in however many rounds; when the loop is left,
  the buffer holds at most the limit.\<close>

lemma send_record_stores:
  assumes "buffer_laws api view" "record_fits r"
    and "send_record api mc r attempts added st = (res, st')" "sender_ok view st"
    and "plain_name (mc_table_name mc)"
  shows "sender_ok view st' \<and>
    stored view st' = stored view st @ (if added \<or> res = Inl False then [] else [row_of r]) \<and>
    (res = Inr () \<longrightarrow> pred_option (\<lambda>b. length (fst (view b)) \<le> mc_flush_limit mc) (ms_buffer st')) \<and>
    (added \<longrightarrow> res \<noteq> Inl False)"
  using assms(3,4)
proof (induction attempts arbitrary: added st)
  case (Cons a attempts)
  obtain connected st1 where e: "ensure_sender api a st = (connected, st1)" by fastforce
  note keeps = ensure_sender_keeps [OF assms(1) e Cons.prems(2)]
  show ?case
  proof (cases connected)
    case False
    with Cons.prems(1) e have "send_record api mc r attempts added st1 = (res, st')" by simp
    from Cons.IH [OF this] keeps show ?thesis by simp
  next
    case True
    define b where "b = (case ms_buffer st1 of None \<Rightarrow> api_new api | Some b \<Rightarrow> b)"
    have new: "view (api_new api) = ([], None)" using assms(1) by (simp add: buffer_laws_def)
    obtain rows where rows: "view b = (rows, None)" and
      before: "stored view st1 = concat (map (fst \<circ> view) (ms_flushed st1)) @ rows"
      using keeps new by (cases "view b") (auto simp: b_def sender_ok_def stored_def split: option.splits)
    obtain b1 where add: "(if added then (Inr (), b) else add_record api mc r b) = (Inr (), b1)"
      and b1: "view b1 = (rows @ (if added then [] else [row_of r]), None)"
      using add_record_view [OF assms(1,2) rows assms(5)] rows by (cases added) auto
    let ?st = "st1\<lparr>ms_buffer := Some b1\<rparr>"
    have stored: "stored view ?st = stored view st @ (if added then [] else [row_of r])"
    proof -
      have "stored view ?st = stored view st1 @ (if added then [] else [row_of r])"
        unfolding before using b1 by (simp add: stored_def)
      then show ?thesis using keeps by simp
    qed
    have ok: "sender_ok view ?st"
      using keeps b1 by (simp add: sender_ok_def)
    have count: "api_row_count api b1 = length (fst (view b1))" "view (api_flushed api b1) = ([], None)"
      using assms(1) b1 by (simp_all add: buffer_laws_def)
    let ?full = "mc_flush_limit mc < api_row_count api b1 \<or> mc_flush_interval mc < at_now a - ms_last_flush st1"
    have run: "send_record api mc r (a # attempts) added st =
        (if ?full then
           if at_flushes a then
             (Inr (), ?st\<lparr>ms_buffer := Some (api_flushed api b1),
                          ms_last_flush := at_flushed_at a, ms_flushed := ms_flushed ?st @ [b1]\<rparr>)
           else send_record api mc r attempts True (?st\<lparr>ms_connected := False\<rparr>)
         else (Inr (), ?st))"
      using add by (cases added) (simp_all add: e True b_def [symmetric] Let_def)
    show ?thesis
    proof (cases "?full \<and> \<not> at_flushes a")
      case True
      then have "send_record api mc r attempts True (?st\<lparr>ms_connected := False\<rparr>) = (res, st')"
        using Cons.prems(1) run by simp
      moreover have "sender_ok view (?st\<lparr>ms_connected := False\<rparr>)"
        "stored view (?st\<lparr>ms_connected := False\<rparr>) = stored view ?st"
        using ok by (simp_all add: sender_ok_def stored_def)
      ultimately show ?thesis
        using Cons.IH stored by auto
    next
      case False
      then show ?thesis
        using Cons.prems(1) run ok stored count b1
        by (auto simp: sender_ok_def stored_def split: if_splits)
    qed
  qed
qed auto

text \<open>A round in which the sender connects if it has to and a flush succeeds ends the loop.\<close>

definition good_attempt :: "attempt \<Rightarrow> bool" where
  "good_attempt a \<longleftrightarrow> at_connects a \<and> at_flushes a"

lemma send_record_ends:
  assumes "\<exists>a \<in> set attempts. good_attempt a"
  shows "\<exists>st'. send_record api mc r attempts added st = (Inr (), st')"
  using assms
proof (induction attempts arbitrary: added st)
  case (Cons a attempts)
  show ?case
  proof (cases "good_attempt a")
    case True
    then have "fst (ensure_sender api a st)"
      by (simp add: ensure_sender_def good_attempt_def Let_def)
    then obtain st1 where "ensure_sender api a st = (True, st1)"
      by (cases "ensure_sender api a st") simp
    with True show ?thesis
      by (auto simp: good_attempt_def Let_def split: prod.splits sum.splits)
  next
    case False
    with Cons.prems have "\<exists>a \<in> set attempts. good_attempt a" by auto
    from Cons.IH [OF this] show ?thesis
      by (auto simp: Let_def split: prod.splits sum.splits bool.splits)
  qed
qed simp


lemma run_sender_stores:
  assumes "buffer_laws api view" "sender_ok view st"
    and "list_all (\<lambda>(r, attempts). record_fits r \<and> (\<exists>a \<in> set attempts. good_attempt a)) queue"
    and "pred_option (\<lambda>b. length (fst (view b)) \<le> mc_flush_limit mc) (ms_buffer st)"
    and "plain_name (mc_table_name mc)"
  shows "\<exists>st'. run_sender api mc queue st = (Inr (), st') \<and> sender_ok view st' \<and>
    stored view st' = stored view st @ map (row_of \<circ> fst) queue \<and>
    pred_option (\<lambda>b. length (fst (view b)) \<le> mc_flush_limit mc) (ms_buffer st')"
  using assms(2-4)
proof (induction queue arbitrary: st)
  case (Cons x queue)
  obtain r attempts where x: "x = (r, attempts)" by fastforce
  obtain st1 where st1: "send_record api mc r attempts False st = (Inr (), st1)"
    using send_record_ends [of attempts api mc r False st] Cons.prems(2) by (auto simp: x)
  have "record_fits r" using Cons.prems(2) by (simp add: x)
  note step = send_record_stores [OF assms(1) this st1 Cons.prems(1) assms(5)]
  with Cons.IH [of st1] Cons.prems(2) show ?case
    by (auto simp: x st1)
qed simp

text \<open>
  With a table name that the library refuses, which is a free option of the command line, every record is
  dropped with a warning, however well connecting and flushing work.
\<close>

lemma send_record_refused:
  assumes "\<And>b. api_table api (mc_table_name mc) b = (False, b)"
    and "send_record api mc r attempts False st = (Inr (), st')"
    and "view (api_new api) = ([], None)"
  shows "stored view st' = stored view st"
  using assms(2)
proof (induction attempts arbitrary: st)
  case (Cons a attempts)
  obtain connected st1 where e: "ensure_sender api a st = (connected, st1)" by fastforce
  have "stored view st1 = stored view st"
    using e assms(3) by (auto simp: ensure_sender_def stored_def Let_def split: if_splits option.splits)
  moreover have "stored view (st1\<lparr>ms_buffer := Some (case ms_buffer st1 of None \<Rightarrow> api_new api | Some b \<Rightarrow> b)\<rparr>) =
      stored view st1"
    using assms(3) by (simp add: stored_def split: option.split)
  ultimately show ?case
    using Cons e by (cases connected) (auto simp: add_record_def assms(1) Let_def)
qed simp

theorem refused_table_loses_all:
  assumes "\<And>b. api_table api (mc_table_name mc) b = (False, b)" "view (api_new api) = ([], None)"
    and "MetricSender_new api outcome now = Some st0" "run_sender api mc queue st0 = (Inr (), st)"
  shows "stored view st = []"
proof -
  have "stored view st = stored view st1" if "run_sender api mc queue st1 = (Inr (), st)" for st1
    using that
  proof (induction queue arbitrary: st1)
    case (Cons x queue)
    then obtain r attempts st2 where "send_record api mc r attempts False st1 = (Inr (), st2)"
      "run_sender api mc queue st2 = (Inr (), st)"
      by (cases x) (auto split: prod.splits sum.splits)
    with Cons.IH send_record_refused [where view = view, OF assms(1) _ assms(2)] show ?case by metis
  qed simp
  moreover have "stored view st0 = []"
    using assms(2,3) by (auto simp: MetricSender_new_def stored_def Let_def split: if_splits)
  ultimately show ?thesis using assms(4) by simp
qed

text \<open>
  C23: no row of metrics is lost or sent twice, whatever happens to the database in between: with a
  table name of lower-case letters and underscores (like the default one), if for
  every record of the queue there is at some point a round in which connecting and flushing work,
  then the thread gets through the queue, the rows flushed so far and those in the buffer are the
  rows of the records in their order, and the buffer holds no more of them than the limit; the
  retry time never exceeds 30 s.
\<close>

theorem metrics_not_lost:
  assumes "buffer_laws api view" "plain_name (mc_table_name mc)" "MetricSender_new api outcome now = Some st0"
    and "list_all (\<lambda>(r, attempts). record_fits r \<and> (\<exists>a \<in> set attempts. good_attempt a)) queue"
  shows "\<exists>st. run_sender api mc queue st0 = (Inr (), st) \<and>
    stored view st = map (row_of \<circ> fst) queue \<and>
    pred_option (\<lambda>b. length (fst (view b)) \<le> mc_flush_limit mc) (ms_buffer st) \<and>
    ms_retry_time st \<le> 30000000000"
proof -
  have "view (api_new api) = ([], None)"
    using assms(1) by (simp add: buffer_laws_def)
  then have "sender_ok view st0" "stored view st0 = []"
    "pred_option (\<lambda>b. length (fst (view b)) \<le> mc_flush_limit mc) (ms_buffer st0)"
    using assms(3) by (auto simp: sender_ok_def MetricSender_new_def stored_def Let_def split: if_splits)
  with run_sender_stores [OF assms(1) this(1) assms(4) this(3) assms(2)] show ?thesis
    by (auto simp: sender_ok_def)
qed

text \<open>A buffer with the documented behaviour.\<close>

fun list_column :: "string \<Rightarrow> int \<Rightarrow> row list \<times> (string \<times> int) list option
    \<Rightarrow> bool \<times> row list \<times> (string \<times> int) list option" where
  "list_column name v (rows, Some cols) =
     (if plain_name name then (True, rows, Some (cols @ [(name, v)])) else (False, rows, Some cols))"
| "list_column name v (rows, None) = (False, rows, None)"

fun list_at :: "int \<Rightarrow> row list \<times> (string \<times> int) list option
    \<Rightarrow> bool \<times> row list \<times> (string \<times> int) list option" where
  "list_at t (rows, Some cols) =
     (if 0 \<le> t \<and> cols \<noteq> [] then (True, rows @ [(t, cols)], None) else (False, rows, Some cols))"
| "list_at t (rows, None) = (False, rows, None)"

definition list_buffer :: "(row list \<times> (string \<times> int) list option) buffer_api" where
  "list_buffer = \<lparr>api_new = ([], None),
     api_table = (\<lambda>name (rows, r).
       if r = None \<and> plain_name name then (True, rows, Some []) else (False, rows, r)),
     api_column_i64 = list_column, api_at = list_at, api_row_count = length \<circ> fst,
     api_flushed = (\<lambda>_. ([], None))\<rparr>"

lemma list_buffer_laws: "buffer_laws list_buffer id"
  by (simp add: buffer_laws_def list_buffer_def)

definition example_record :: "int \<Rightarrow> MetricsRecord" where
  "example_record t = \<lparr>mr_timestamp = t, mr_processing_time = 300000, mr_response_time = 250000,
     mr_active_command_index = 1, mr_command = None, mr_control_flags = 0x3F, mr_status_flags = 0,
     mr_raw_state = 0x0885, mr_actual_position = Position 70000, mr_demand_position = Position 70000,
     mr_demand_velocity = Velocity 0, mr_demand_acceleration = Acceleration 0,
     mr_motor_current = Current 120, mr_warning_flags = 0, mr_raw_error_code = 0,
     mr_drive_temperature = DriveTemperature 310, mr_motor_temperature = MotorTemperature 80\<rparr>"

text \<open>The first flush fails, connecting fails once, and the row is flushed after that.\<close>

definition example_queue :: "(MetricsRecord \<times> attempt list) list" where
  "example_queue =
     (let attempt = \<lparr>at_must_close = False, at_connects = True, at_now = 0, at_flushes = True, at_flushed_at = 0\<rparr> in
      [(example_record 1, [attempt]),
       (example_record 2, [attempt\<lparr>at_flushes := False\<rparr>, attempt\<lparr>at_connects := False\<rparr>, attempt]),
       (example_record 3, [attempt])])"

theorem metrics_not_lost_witness:
  "\<exists>st0 st. MetricSender_new list_buffer EnvError 0 = Some st0 \<and>
    run_sender list_buffer \<lparr>mc_table_name = ''puddle_stats'', mc_flush_limit = 1, mc_flush_interval = 5\<rparr>
      example_queue st0 = (Inr (), st) \<and>
    stored id st = map (row_of \<circ> fst) example_queue"
proof -
  have queue: "list_all (\<lambda>(r, attempts). record_fits r \<and> (\<exists>a \<in> set attempts. good_attempt a)) example_queue"
    by (simp add: example_queue_def example_record_def record_fits_def i64_ok_def as_micros_def
        good_attempt_def Let_def)
  obtain st0 where "MetricSender_new list_buffer EnvError 0 = Some st0"
    by (simp add: MetricSender_new_def Let_def)
  moreover have "plain_name (mc_table_name
      \<lparr>mc_table_name = ''puddle_stats'', mc_flush_limit = 1, mc_flush_interval = 5\<rparr>)"
    by (simp add: plain_name_def)
  ultimately show ?thesis
    using metrics_not_lost [OF list_buffer_laws _ _ queue] by blast
qed

end
