(* ===== verification/DriveThread.thy ===== *)
theory DriveThread
  imports Metrics
begin

text \<open>
  The loop around the cycles of a connection (\<open>run_loop\<close> in \<open>src/drive.rs\<close>): the metrics of each
  cycle and the wait for the next one, and the log of the drive's state.  An instant is its number
  of nanoseconds; how long a cycle takes and by how much a sleep is late are arguments.
\<close>

subsection \<open>The wait between two cycles\<close>

datatype pause = Sleep duration | Late duration

definition pace :: "duration \<Rightarrow> nat \<Rightarrow> nat \<Rightarrow> pause" where
  "pace interval start now =
     (let due = start + interval in if due \<ge> now then Sleep (due - now) else Late (now - due))"

text \<open>What a cycle meets, the instants it is measured at, and by how much the sleep is late.\<close>

record timed_cycle =
  tc_env :: cycle_env
  tc_interface :: DriveInterface
  tc_tick :: duration \<comment> \<open>until \<open>loop_tick\<close> returns\<close>
  tc_rest :: duration \<comment> \<open>from there until the clock is read again\<close>
  tc_oversleep :: duration
  tc_wall_clock :: int \<comment> \<open>the time that goes into the metrics\<close>

definition next_start :: "duration \<Rightarrow> nat \<Rightarrow> timed_cycle \<Rightarrow> nat" where
  "next_start interval start t =
     (let now = start + tc_tick t + tc_rest t in
      case pace interval start now of
        Sleep sleep_time \<Rightarrow> now + sleep_time + tc_oversleep t
      | Late _ \<Rightarrow> now)"

text \<open>What was done, cycle by cycle: when it started, its effects, and what went to the metrics.\<close>

record cycle_log =
  cl_start :: nat
  cl_effects :: drive_effects
  cl_metrics :: "(metrics_error + MetricsRecord) option"

text \<open>
  The loop, over the cycles that take place; \<open>metrics\<close> says whether metrics are collected.  An error
  of a cycle ends it before its metrics are recorded.
\<close>

fun run_loop ::
    "profile \<Rightarrow> bool \<Rightarrow> nat \<Rightarrow> timed_cycle list \<Rightarrow> connection
     \<Rightarrow> (cycle_log list \<times> (drive_error + connection)) option" where
  "run_loop p metrics start [] c = Some ([], Inr c)"
| "run_loop p metrics start (t # ts) c = do {
     (ef, iface, result) \<leftarrow> loop_tick p (tc_env t) (tc_interface t) c;
     (case result of
        Inl e \<Rightarrow> Some ([\<lparr>cl_start = start, cl_effects = ef, cl_metrics = None\<rparr>], Inl e)
      | Inr c \<Rightarrow> do {
          (log, r) \<leftarrow> run_loop p metrics (next_start (c_interval c) start t) ts c;
          Some (\<lparr>cl_start = start, cl_effects = ef, cl_metrics =
            (if metrics then Some (record_metrics (tc_wall_clock t) (tc_tick t) c) else None)\<rparr> # log, r)
        })
   }"

subsection \<open>The drive is not sent more than one datagram in an interval\<close>

lemma next_start_spaced: "start + interval \<le> next_start interval start t"
  by (simp add: next_start_def pace_def Let_def)

lemma next_start_on_time:
  "tc_tick t + tc_rest t \<le> interval \<Longrightarrow> tc_oversleep t = 0 \<Longrightarrow> next_start interval start t = start + interval"
  by (simp add: next_start_def pace_def Let_def)

lemma next_start_late:
  "interval < tc_tick t + tc_rest t \<Longrightarrow> next_start interval start t = start + tc_tick t + tc_rest t"
  by (simp add: next_start_def pace_def Let_def)

lemma loop_tick_interval:
  assumes "loop_tick p env iface c = Some (ef, iface', Inr c')" "length (c_buffer c) = BUFFER_SIZE"
  shows "c_interval c' = c_interval c" "length (c_buffer c') = BUFFER_SIZE"
  using loop_tick_computes [OF assms] compute_next_request_frame by fastforce+

fun spaced :: "nat \<Rightarrow> nat list \<Rightarrow> bool" where
  "spaced gap (x # y # zs) \<longleftrightarrow> x + gap \<le> y \<and> spaced gap (y # zs)"
| "spaced gap _ \<longleftrightarrow> True"

lemma spaced_Cons: "spaced gap (x # ys) \<longleftrightarrow> (ys = [] \<or> x + gap \<le> hd ys \<and> spaced gap ys)"
  by (cases ys) auto

lemma run_loop_starts:
  assumes "run_loop p metrics start ts c = Some (log, r)"
  shows "log = [] \<or> cl_start (hd log) = start"
  using assms by (cases ts) (auto split: Option.bind_splits sum.splits prod.splits)

text \<open>
  The cycles of a connection start at least an interval apart, even after one that was late: so the
  drive is never sent two datagrams within less than the interval between the starts of their cycles.
\<close>

lemma cycles_spaced:
  assumes "run_loop p metrics start ts c = Some (log, r)" "length (c_buffer c) = BUFFER_SIZE"
  shows "spaced (c_interval c) (map cl_start log)"
  using assms
proof (induction ts arbitrary: start c log r)
  case (Cons t ts)
  from Cons.prems(1) obtain ef iface result where
    tick: "loop_tick p (tc_env t) (tc_interface t) c = Some (ef, iface, result)"
    by (auto split: Option.bind_splits)
  show ?case
  proof (cases result)
    case (Inl e)
    with Cons.prems(1) tick show ?thesis by auto
  next
    case (Inr c')
    with Cons.prems(1) tick obtain log' where
      rest: "run_loop p metrics (next_start (c_interval c') start t) ts c' = Some (log', r)"
      and log: "map cl_start log = start # map cl_start log'"
      by (auto split: Option.bind_splits prod.splits)
    have c': "c_interval c' = c_interval c" "length (c_buffer c') = BUFFER_SIZE"
      using loop_tick_interval [OF tick [unfolded Inr] Cons.prems(2)] by simp_all
    from Cons.IH [OF rest c'(2)] run_loop_starts [OF rest] next_start_spaced [of start "c_interval c" t]
    show ?thesis
      by (cases "log' = []") (simp_all add: log spaced_Cons c'(1) hd_map)
  qed
qed simp

subsection \<open>The log of the drive's state\<close>

text \<open>\<open>debug\<close> is the derived \<open>Debug\<close> text of a state.\<close>

definition normalized_eq :: "State \<Rightarrow> State \<Rightarrow> bool" where
  "normalized_eq a b =
     (case (a, b) of
        (OperationEnabled _ _ _ _ h1, OperationEnabled _ _ _ _ h2) \<Rightarrow> h1 = h2
      | _ \<Rightarrow> a = b)"

definition format_state :: "(State \<Rightarrow> string) \<Rightarrow> State \<Rightarrow> string" where
  "format_state debug state =
     (case state of
        OperationEnabled _ _ _ _ homed \<Rightarrow>
          ''OperationEnabled { homed: '' @ (if homed then ''true'' else ''false'') @ '', .. }''
      | _ \<Rightarrow> debug state)"

definition log_state_change :: "(State \<Rightarrow> string) \<Rightarrow> State \<Rightarrow> State \<Rightarrow> string option \<times> State" where
  "log_state_change debug old_state new_state =
     (if normalized_eq old_state new_state then None
      else Some (''Drive state changed: '' @ format_state debug old_state @ '' -> '' @
                 format_state debug new_state),
      new_state)"

text \<open>The states without the fields that change during a motion.\<close>

definition normalized :: "State \<Rightarrow> State" where
  "normalized s = (case s of OperationEnabled _ _ _ _ homed \<Rightarrow> OperationEnabled 0 False False False homed | _ \<Rightarrow> s)"

lemma normalized_eq_iff: "normalized_eq a b \<longleftrightarrow> normalized a = normalized b"
  by (cases a) (simp_all add: normalized_eq_def normalized_def split: State.split)

lemma normalized_eq_equivalence:
  "normalized_eq a a" "normalized_eq a b \<longleftrightarrow> normalized_eq b a"
  "normalized_eq a b \<Longrightarrow> normalized_eq b c \<Longrightarrow> normalized_eq a c"
  by (auto simp: normalized_eq_iff)

text \<open>The state that is remembered is the one the response of the cycle has, as far as it was complete.\<close>

lemma last_state_logged:
  assumes "loop_begin env pending c = (ef, pending', Inr c')"
  shows "c_last_state c' = (case map_option fst (feedback_of c') of
      None \<Rightarrow> c_last_state c
    | Some state \<Rightarrow> snd (log_state_change debug (c_last_state c) state))"
proof -
  let ?c = "c\<lparr>c_next_motion_command := None\<rparr>"
  from assms obtain sent rsp c0 where
    send: "send_request (env_exchange env) (request_of c) ?c = (sent, Inr (rsp, c0))"
    and c': "c' = apply_actions pending (case feedback_of (c0\<lparr>c_last_response := rsp,
        c_last_request := request_of c, c_last_command_index := c_active_command_index c0\<rparr>) of
      None \<Rightarrow> c0\<lparr>c_last_response := rsp, c_last_request := request_of c,
        c_last_command_index := c_active_command_index c0\<rparr>
    | Some (state, _) \<Rightarrow> c0\<lparr>c_last_response := rsp, c_last_request := request_of c,
        c_last_command_index := c_active_command_index c0, c_last_state := state\<rparr>)"
    by (auto simp: loop_begin_def request_of_def [symmetric] Let_def DriveActions_take_def
        split: prod.splits sum.splits if_splits)
  have state: "map_option fst (feedback_of d) = map_option fst (feedback_of d')"
    if "c_last_response d = c_last_response d'" for d d'
    unfolding feedback_of_def Let_def that by (simp split: option.split prod.split)
  have "c_last_state c0 = c_last_state c"
    using send by (auto simp: send_request_def Let_def split: sum.splits prod.splits if_splits option.splits)
  moreover have "c_last_response c' = c_last_response (c0\<lparr>c_last_response := rsp,
      c_last_request := request_of c, c_last_command_index := c_active_command_index c0\<rparr>)"
    by (simp add: c' apply_actions_def Let_def split: option.split)
  note state [OF this]
  ultimately show ?thesis
    by (auto simp: c' apply_actions_def log_state_change_def Let_def split: option.split)
qed

end
