(* ===== verification/HidThread.thy ===== *)
theory HidThread
  imports System
begin

text \<open>
  The thread of the handheld controller (\<open>run_loop\<close> in \<open>src/hid.rs\<close>): it looks for the device, serves
  one connection after the other, and tells the core when each begins and ends.  Then what the
  core's write access says about the device, as for the browsers.
\<close>

subsection \<open>The loop\<close>

text \<open>
  One turn of the loop: the device list cannot be read, the device is not there or cannot be opened
  (both wait for five seconds), or it is opened: what its writes and reads do, and whether the core
  still receives when the connection begins and when it has ended.
\<close>

datatype device_turn =
    ListFails
  | NoDevice
  | OpenFails
  | Opened "nat \<Rightarrow> bool" "hid_error + u8 list" bool "io_cycle list" bool

text \<open>\<open>Inr ()\<close> means that the thread is still running: the last turn it began has not ended.\<close>

fun hid_run_loop ::
    "profile \<Rightarrow> device_turn list \<Rightarrow> ((hid_error + unit) \<times> CoreEvent list) option" where
  "hid_run_loop p [] = Some (Inr (), [])"
| "hid_run_loop p (ListFails # turns) = Some (Inl DeviceError, [])"
| "hid_run_loop p (NoDevice # turns) = hid_run_loop p turns"
| "hid_run_loop p (OpenFails # turns) = hid_run_loop p turns"
| "hid_run_loop p (Opened write_ok feature_report core_alive cycles core_alive_after # turns) = do {
     (r, events, written) \<leftarrow> connect_to_device p write_ok feature_report core_alive cycles;
     (case r of
        Inr _ \<Rightarrow> Some (Inr (), events)
      | Inl _ \<Rightarrow>
          if core_alive_after then do {
            (r, later) \<leftarrow> hid_run_loop p turns;
            Some (r, events @ ControllerDisconnected Hid # later)
          } else Some (Inl CoreGone, events))
   }"

lemma hid_run_loop_turn:
  "hid_run_loop p [Opened write_ok feature_report core_alive cycles core_alive_after] =
   map_option (\<lambda>(r, events, written). (r, events))
     (run_loop_turn p write_ok feature_report core_alive cycles core_alive_after)"
  by (auto simp: run_loop_turn_def split: Option.bind_split prod.split sum.split)

subsection \<open>Sessions\<close>

text \<open>Whether the device is connected, after the events its thread has sent; \<open>None\<close> is an event out of order.\<close>

fun hid_step :: "CoreEvent \<Rightarrow> bool \<Rightarrow> bool option" where
  "hid_step (ControllerConnected Hid) up = (if up then None else Some True)"
| "hid_step (ControllerDisconnected Hid) up = Some False"
| "hid_step (HidInputReport report) up = (if up then Some True else None)"
| "hid_step _ up = None"

fun hid_session :: "CoreEvent list \<Rightarrow> bool \<Rightarrow> bool option" where
  "hid_session [] up = Some up"
| "hid_session (ev # evs) up = Option.bind (hid_step ev up) (hid_session evs)"

lemma hid_session_append:
  "hid_session (xs @ ys) up = Option.bind (hid_session xs up) (hid_session ys)"
  by (induction xs arbitrary: up) (auto split: Option.bind_split)

lemma hid_session_reports: "hid_session (map HidInputReport reports) True = Some True"
  by (induction reports) simp_all

lemma io_loop_events:
  assumes "io_loop p write_ok cycles (events, written) = Some (r, events', written')"
  shows "\<exists>reports. events' = events @ map HidInputReport reports"
  using assms
proof (induction cycles arbitrary: events written)
  case (Cons cycle cycles)
  then obtain report where report: "read_input_report (io_read cycle) = Inr report \<or> events' = events"
    by (cases "read_input_report (io_read cycle)") auto
  let ?events = "events @ (case report of None \<Rightarrow> [] | Some r \<Rightarrow> [HidInputReport r])"
  have grows: "\<exists>reports. ?events = events @ map HidInputReport reports"
    by (cases report) (auto intro: exI [of _ "[]"] exI [of _ "[r]" for r])
  show ?case
  proof (cases "events' = events \<or> events' = ?events")
    case True
    then show ?thesis
      using grows by (auto intro: exI [of _ "[]"])
  next
    case False
    with report Cons.prems obtain written'' where "io_loop p write_ok cycles (?events, written'') = Some (r, events', written')"
      by (auto simp: Let_def split: if_splits Option.bind_splits sum.splits)
    from Cons.IH [OF this] grows show ?thesis
      by (metis append.assoc map_append)
  qed
qed simp

lemma connect_to_device_events:
  assumes "connect_to_device p write_ok feature_report core_alive cycles = Some (r, events, written)"
  shows "events = [] \<and> (\<exists>e. r = Inl e) \<or> (\<exists>reports. events = ControllerConnected Hid # map HidInputReport reports)"
  using assms io_loop_events
  by (fastforce simp: connect_to_device_def split: sum.splits if_splits)

lemma connection_session:
  assumes "connect_to_device p write_ok feature_report core_alive cycles = Some (r, events, written)"
  shows "\<exists>up. hid_session events False = Some up"
  using connect_to_device_events [OF assms] by (auto simp: hid_session_reports)

text \<open>The core is told of every connection, and every report belongs to one.\<close>

lemma hid_run_loop_session:
  assumes "hid_run_loop p turns = Some (r, events)"
  shows "\<exists>up. hid_session events False = Some up"
  using assms
proof (induction turns arbitrary: events)
  case (Cons turn turns)
  show ?case
  proof (cases turn)
    case (Opened write_ok feature_report core_alive cycles core_alive_after)
    with Cons.prems obtain r' events' written where
      conn: "connect_to_device p write_ok feature_report core_alive cycles = Some (r', events', written)"
      by (auto split: Option.bind_splits)
    obtain up where up: "hid_session events' False = Some up"
      using connection_session [OF conn] by blast
    show ?thesis
    proof (cases "events = events'")
      case False
      with Opened Cons.prems conn obtain later where "hid_run_loop p turns = Some (r, later)"
        "events = events' @ ControllerDisconnected Hid # later"
        by (auto split: Option.bind_splits sum.splits if_splits)
      with Cons.IH up show ?thesis
        by (auto simp: hid_session_append)
    qed (use up in simp)
  qed (use Cons in auto)
qed (auto intro: exI [of _ False])

text \<open>A connection is open at the end exactly if the thread is in it, or if it could not tell that it was lost.\<close>

lemma hid_session_stays:
  assumes "ControllerDisconnected Hid \<notin> set evs" "hid_session evs True = Some up"
  shows "up"
  using assms
proof (induction evs)
  case (Cons ev evs)
  then show ?case
    by (cases "(ev, True)" rule: hid_step.cases) (auto split: Option.bind_splits)
qed simp

lemma hid_session_within:
  assumes "hid_session (pre @ HidInputReport report # post) False = Some up"
    and "ControllerDisconnected Hid \<notin> set post"
  shows "up"
  using assms hid_session_stays [OF assms(2)]
  by (auto simp: hid_session_append split: Option.bind_splits if_splits)

text \<open>The device is being served: the last connection of the run has not ended.\<close>

fun hid_serving :: "profile \<Rightarrow> device_turn list \<Rightarrow> bool" where
  "hid_serving p [] \<longleftrightarrow> False"
| "hid_serving p (Opened write_ok feature_report core_alive cycles core_alive_after # turns) \<longleftrightarrow>
     (case connect_to_device p write_ok feature_report core_alive cycles of
        Some (Inr _, _) \<Rightarrow> True
      | _ \<Rightarrow> hid_serving p turns)"
| "hid_serving p (_ # turns) \<longleftrightarrow> hid_serving p turns"

lemma hid_session_serving:
  assumes "hid_run_loop p turns = Some (r, events)" "hid_session events False = Some True"
  shows "hid_serving p turns \<or> r = Inl CoreGone"
  using assms
proof (induction turns arbitrary: events)
  case (Cons turn turns)
  show ?case
  proof (cases turn)
    case (Opened write_ok feature_report core_alive cycles core_alive_after)
    with Cons.prems obtain r' events' written where
      conn: "connect_to_device p write_ok feature_report core_alive cycles = Some (r', events', written)"
      by (auto split: Option.bind_splits)
    then obtain up where up: "hid_session events' False = Some up"
      using connection_session by blast
    with conn Opened Cons show ?thesis
      by (auto simp: hid_session_append split: sum.splits if_splits Option.bind_splits)
  qed (use Cons in auto)
qed simp

subsection \<open>The writer and the device\<close>

text \<open>The handheld controller has the write access only by a report, until it is gone.\<close>

lemma event_holder_hid:
  assumes "handle_event env ev cm = (Inr (), cm')" "holder cm' = Some Hid" "from_threads ev"
  shows "(holder cm = Some Hid \<and> ev \<noteq> ControllerDisconnected Hid) \<or> (\<exists>report. ev = HidInputReport report)"
proof (cases ev)
  case (ControllerConnected c)
  with assms(1) have "only_sends cm cm'"
    using simple_events(1) by blast
  from only_sends_simps [OF this] ControllerConnected assms(2) show ?thesis
    by (simp add: holder_def)
next
  case (ControllerDisconnected c)
  with assms(1) have "only_sends (if holder cm = Some c then cut_power cm else cm) cm'"
    using simple_events(2) by blast
  from only_sends_simps [OF this] ControllerDisconnected assms(2) show ?thesis
    by (auto simp: holder_def cut_power_def lock_commands_def set_holder_def split: if_splits)
next
  case (Message c m)
  with assms message_holder [of env c m cm cm' Hid] show ?thesis
    by (auto simp: handle_event_def)
next
  case (DriveStateUpdated fb)
  with assms(1) have "only_sends (feed_back fb cm) cm'"
    using simple_events(3) by blast
  from only_sends_simps [OF this] DriveStateUpdated assms(2) show ?thesis
    by (auto simp: holder_def feed_back_def state_after_feedback_def)
qed simp

lemma run_holder_hid:
  assumes "run_core evs cm0 = (Inr (), cm)" "holder cm = Some Hid" "list_all from_threads (map snd evs)"
  shows "(holder cm0 = Some Hid \<and> ControllerDisconnected Hid \<notin> set (map snd evs)) \<or>
    (\<exists>pre report post. map snd evs = pre @ HidInputReport report # post \<and>
       ControllerDisconnected Hid \<notin> set post)"
  using assms(1,3)
proof (induction evs arbitrary: cm0)
  case Nil
  with assms(2) show ?case by (simp add: ok_def)
next
  case (Cons x evs)
  obtain env ev where x: "x = (env, ev)" by fastforce
  from Cons.prems obtain cm1 where run: "handle_event env ev cm0 = (Inr (), cm1)"
    "run_core evs cm1 = (Inr (), cm)"
    unfolding x by (blast elim: run_core_Cons)
  have thread: "from_threads ev" "list_all from_threads (map snd evs)"
    using Cons.prems(2) by (simp_all add: x)
  from Cons.IH [OF run(2) thread(2)] show ?case
  proof
    assume kept: "holder cm1 = Some Hid \<and> ControllerDisconnected Hid \<notin> set (map snd evs)"
    with event_holder_hid [OF run(1) _ thread(1)] show ?thesis
      by (fastforce simp: x intro: exI [of _ "[]"])
  next
    assume "\<exists>pre report post. map snd evs = pre @ HidInputReport report # post \<and>
      ControllerDisconnected Hid \<notin> set post"
    then obtain pre report post where "map snd evs = pre @ HidInputReport report # post"
      "ControllerDisconnected Hid \<notin> set post" by blast
    then show ?thesis
      by (intro disjI2 exI [of _ "ev # pre"]) (auto simp: x)
  qed
qed

fun from_hid :: "CoreEvent \<Rightarrow> bool" where
  "from_hid (ControllerConnected c) \<longleftrightarrow> c = Hid"
| "from_hid (ControllerDisconnected c) \<longleftrightarrow> c = Hid"
| "from_hid (HidInputReport report) \<longleftrightarrow> True"
| "from_hid _ \<longleftrightarrow> False"

text \<open>
  C13: the handheld controller is no ghost writer either: when the core has processed what its thread
  told it, up to some events that are still pending, and it has the write access, then the device is
  being served, or the event that takes the write access away and cuts the power is among those that
  are pending; only a thread that has lost the core itself ends without that event.
\<close>

theorem handheld_writer_is_connected:
  assumes "hid_run_loop p turns = Some (r, events)"
    and "run_core evs (CoreManager_new limits hid_io ws) = (Inr (), cm)" "list_all from_threads (map snd evs)"
    and "events = filter from_hid (map snd evs) @ pending" "holder cm = Some Hid"
  shows "hid_serving p turns \<or> ControllerDisconnected Hid \<in> set pending \<or> r = Inl CoreGone"
proof (cases "ControllerDisconnected Hid \<in> set pending")
  case pending: False
  have "holder (CoreManager_new limits hid_io ws) = None"
    by (simp add: holder_def CoreManager_new_def CoreState_default_def)
  with run_holder_hid [OF assms(2,5,3)] obtain pre report post where
    own: "map snd evs = pre @ HidInputReport report # post" "ControllerDisconnected Hid \<notin> set post"
    by auto
  have events: "events = filter from_hid pre @ HidInputReport report # (filter from_hid post @ pending)"
    by (simp add: assms(4) own(1))
  obtain up where up: "hid_session events False = Some up"
    using hid_run_loop_session [OF assms(1)] by blast
  from hid_session_within [OF this [unfolded events]] own(2) pending up
  have "hid_session events False = Some True" by auto
  with hid_session_serving [OF assms(1)] show ?thesis by blast
qed simp

definition example_turns :: "device_turn list" where
  "example_turns = [NoDevice, Opened (\<lambda>_. True) (Inr [0x01, 0x01, 0x02, 0xAA]) True
     [\<lparr>io_read = Inr padded_example, io_queue = [], io_core_alive = True\<rparr>] True]"

lemma example_turns:
  "hid_run_loop Release example_turns =
     Some (Inr (), [ControllerConnected Hid, HidInputReport example_report])"
  by (simp add: example_turns_def padded_example_read connect_to_device_def read_device_info_def
      read_into_def HID_REPORT_LEN_def SUPPORTED_FIRMWARE_MAJOR_def numeral_eq_Suc)

lemma default_commands_clamped:
  "clamp_commands example_limits (commands_to_vec (ui_motion_commands UiManager_new)) =
   Some (commands_to_vec (ui_motion_commands UiManager_new))"
  by (simp add: example_limits_def clamp_command_def commands_to_vec_def UiManager_new_def
      DEFAULT_COMMANDS_def DEFAULT_COMMAND_def ord_clamp_def less_Position_def less_eq_Position_def
      less_Velocity_def less_eq_Velocity_def less_Acceleration_def less_eq_Acceleration_def ops_ZERO_def)

lemma example_handheld:
  "\<exists>cm. run_core [(example_env, ControllerConnected Hid), (example_env, HidInputReport example_report)]
     (CoreManager_new example_limits True True) = (Inr (), cm) \<and> holder cm = Some Hid"
  by (simp add: run_defs hid_input_report_def process_input_report_def default_commands_clamped overflow_def)

theorem handheld_writer_is_connected_witness:
  "\<exists>cm. run_core [(example_env, ControllerConnected Hid), (example_env, HidInputReport example_report)]
       (CoreManager_new example_limits True True) = (Inr (), cm) \<and> holder cm = Some Hid \<and>
     (hid_serving Release example_turns \<or> ControllerDisconnected Hid \<in> set [] \<or>
      (Inr () :: hid_error + unit) = Inl CoreGone)"
proof -
  let ?evs = "[(example_env, ControllerConnected Hid), (example_env, HidInputReport example_report)]"
  obtain cm where run: "run_core ?evs (CoreManager_new example_limits True True) = (Inr (), cm)"
    and held: "holder cm = Some Hid"
    using example_handheld by blast
  have "list_all from_threads (map snd ?evs)"
    "[ControllerConnected Hid, HidInputReport example_report] = filter from_hid (map snd ?evs) @ []"
    by simp_all
  from handheld_writer_is_connected [OF example_turns run this held] run held show ?thesis
    by blast
qed

end
