(* ===== verification/TerminalClient.thy ===== *)
theory TerminalClient
  imports Conversions Messages
begin

text \<open>
  The terminal client (\<open>src/bin/puddle-cli.rs\<close>): its state, the messages and key presses it handles,
  its loop and the thread that talks to the server.  What it draws is in the theory
  \<open>TerminalDrawing\<close>.  \<open>None\<close> is a panic.  Characters are code points; the key presses, the clock and what the socket delivers are
  arguments.
\<close>

subsection \<open>State\<close>

type_synonym codepoints = "nat list"

datatype KeyCode =
    KeyEsc | KeyEnter | KeyUp | KeyDown | KeyLeft | KeyRight | KeyBackspace | KeyChar nat | KeyOther

datatype KeyKind = KeyPress | KeyRepeat | KeyRelease

record KeyEvent =
  key_code :: KeyCode
  key_kind :: KeyKind
  key_control :: bool

record InputDialog =
  dlg_input :: codepoints
  dlg_targets :: "(nat \<times> bool) list" \<comment> \<open>index in the inputs, checked\<close>
  dlg_selected_row :: nat

record App =
  app_inputs :: "i32 list"
  app_input_index :: nat
  app_limits :: "SystemLimits option"
  app_state :: "CoreState option"
  app_my_id :: "ControllerId option"
  app_exit :: bool
  app_sent :: "ClientMessage option list" \<comment> \<open>the channel to the socket thread\<close>
  app_seq :: u64
  app_last_key :: "(KeyCode \<times> nat) option"
  app_repeat_count :: u32
  app_dialog :: "InputDialog option"

definition INITIAL_INPUTS :: "i32 list" where
  "INITIAL_INPUTS =
     [0, 500000,
      acceleration_0 (Acceleration_from_meters_per_second_squared_f64 (f64_from 2)),
      acceleration_0 (Acceleration_from_meters_per_second_squared_f64 (f64_from 2)),
      0, 500000,
      acceleration_0 (Acceleration_from_meters_per_second_squared_f64 (f64_from 2)),
      acceleration_0 (Acceleration_from_meters_per_second_squared_f64 (f64_from 2))]"

definition App_new :: App where
  "App_new =
     \<lparr>app_inputs = INITIAL_INPUTS, app_input_index = 0, app_limits = None, app_state = None,
      app_my_id = None, app_exit = False, app_sent = [], app_seq = 1, app_last_key = None,
      app_repeat_count = 0, app_dialog = None\<rparr>"

subsection \<open>Sending\<close>

text \<open>\<open>let seq = self.next_seq(); self.send(message)\<close>, and sending all of several.\<close>

definition next_seq :: "profile \<Rightarrow> App \<Rightarrow> (u64 \<times> App) option" where
  "next_seq p app =
     map_option (\<lambda>next. (app_seq app, app\<lparr>app_seq := word_of_int next\<rparr>)) (arith_u64 p (uint (app_seq app) + 1))"

definition app_send :: "profile \<Rightarrow> (u64 \<Rightarrow> ClientMessage) \<Rightarrow> App \<Rightarrow> App option" where
  "app_send p message app =
     map_option (\<lambda>(seq, app). app\<lparr>app_sent := app_sent app @ [Some (message seq)]\<rparr>) (next_seq p app)"

definition input_command :: "i32 list \<Rightarrow> nat \<Rightarrow> MotionCommand" where
  "input_command inputs base =
     \<lparr>position = Position (inputs ! base), velocity = Velocity (inputs ! (base + 1)),
      acceleration = Acceleration (inputs ! (base + 2)), deceleration = Acceleration (inputs ! (base + 3))\<rparr>"

definition send_inputs :: "profile \<Rightarrow> App \<Rightarrow> App option" where
  "send_inputs p app =
     app_send p (\<lambda>seq. UpsertCommandSet seq None None
       [input_command (app_inputs app) 0, input_command (app_inputs app) 4]) app"

definition set_state_holder :: "ControllerId option \<Rightarrow> App \<Rightarrow> App" where
  "set_state_holder h app = app\<lparr>app_state := map_option (cs_write_access_holder_update (\<lambda>_. h)) (app_state app)\<rparr>"

definition app_holder :: "App \<Rightarrow> ControllerId option" where
  "app_holder app = (case app_state app of None \<Rightarrow> None | Some state \<Rightarrow> cs_write_access_holder state)"

definition has_write_access :: "App \<Rightarrow> bool" where
  "has_write_access app =
     (case (app_state app, app_my_id app) of
        (Some state, Some my_id) \<Rightarrow> cs_write_access_holder state = Some my_id
      | _ \<Rightarrow> False)"

subsection \<open>Messages of the core\<close>

definition set_inputs :: "MotionCommandFields \<Rightarrow> nat \<Rightarrow> i32 list \<Rightarrow> i32 list" where
  "set_inputs upd base inputs =
     (let inputs = (case f_position upd of None \<Rightarrow> inputs | Some x \<Rightarrow> inputs[base := position_0 x]);
          inputs = (case f_velocity upd of None \<Rightarrow> inputs | Some x \<Rightarrow> inputs[base + 1 := velocity_0 x]);
          inputs = (case f_acceleration upd of None \<Rightarrow> inputs | Some x \<Rightarrow> inputs[base + 2 := acceleration_0 x]) in
      case f_deceleration upd of None \<Rightarrow> inputs | Some x \<Rightarrow> inputs[base + 3 := acceleration_0 x])"

text \<open>\<open>for (i, cmd) in commands.iter().take(2).enumerate()\<close>.\<close>

fun store_commands :: "nat \<Rightarrow> MotionCommand list \<Rightarrow> i32 list \<Rightarrow> i32 list" where
  "store_commands i [] inputs = inputs"
| "store_commands i (cmd # cmds) inputs =
     store_commands (i + 1) cmds
       (inputs[i * 4 := position_0 (position cmd), i * 4 + 1 := velocity_0 (velocity cmd),
               i * 4 + 2 := acceleration_0 (acceleration cmd),
               i * 4 + 3 := acceleration_0 (deceleration cmd)])"

definition handle_core_message :: "profile \<Rightarrow> CoreMessage \<Rightarrow> App \<Rightarrow> App option" where
  "handle_core_message p msg app =
     (case msg of
        Connected controller_id limits state \<Rightarrow>
          app_send p (\<lambda>seq. GetCommandSet seq None)
            (app\<lparr>app_my_id := Some controller_id, app_limits := Some limits, app_state := Some state\<rparr>)
      | StateMessage _ state \<Rightarrow> Some (app\<lparr>app_state := Some state\<rparr>)
      | WriteAccessChanged h _ \<Rightarrow> Some (set_state_holder h app)
      | WriteAccessResult _ granted h \<Rightarrow>
          let app = set_state_holder h app in
          if granted then send_inputs p app else Some app
      | CommandSetChanged _ None \<Rightarrow> app_send p (\<lambda>seq. GetCommandSet seq None) app
      | CommandSetChanged _ (Some update) \<Rightarrow>
          Some (if cu_index update < 2
                then app\<lparr>app_inputs := set_inputs (cu_fields update) (cu_index update * 4) (app_inputs app)\<rparr>
                else app)
      | CommandSet _ None _ commands \<Rightarrow>
          Some (app\<lparr>app_inputs := store_commands 0 (take 2 commands) (app_inputs app)\<rparr>)
      | _ \<Rightarrow> Some app)"

lemma set_inputs_length: "length (set_inputs upd i inputs) = length inputs"
  by (simp add: set_inputs_def Let_def split: option.split)

lemma store_commands_length: "length (store_commands i cmds inputs) = length inputs"
  by (induction i cmds inputs rule: store_commands.induct) simp_all

subsection \<open>Numbers that are typed\<close>

text \<open>\<open>str::trim\<close>, and \<open>str::parse\<close> to an \<open>f64\<close>: the nearest value to a decimal number.\<close>

definition is_whitespace :: "nat \<Rightarrow> bool" where
  "is_whitespace c \<longleftrightarrow> 9 \<le> c \<and> c \<le> 13 \<or> c = 0x20 \<or> c = 0x85 \<or> c = 0xA0 \<or> c = 0x1680 \<or>
     0x2000 \<le> c \<and> c \<le> 0x200A \<or> c = 0x2028 \<or> c = 0x2029 \<or> c = 0x202F \<or> c = 0x205F \<or> c = 0x3000"

definition trim :: "codepoints \<Rightarrow> codepoints" where
  "trim s = rev (dropWhile is_whitespace (rev (dropWhile is_whitespace s)))"

definition codepoint_digit :: "nat \<Rightarrow> bool" where
  "codepoint_digit c \<longleftrightarrow> 48 \<le> c \<and> c \<le> 57"

definition digits_value :: "codepoints \<Rightarrow> nat" where
  "digits_value s = foldl (\<lambda>n c. 10 * n + (c - 48)) 0 s"

text \<open>An optional sign; \<open>+\<close> is 43 and \<open>-\<close> is 45.\<close>

fun split_sign :: "codepoints \<Rightarrow> bool \<times> codepoints" where
  "split_sign (c # s) = (if c = 45 then (True, s) else if c = 43 then (False, s) else (False, c # s))"
| "split_sign [] = (False, [])"

text \<open>The exponent, after \<open>e\<close> (101) or \<open>E\<close> (69): \<open>None\<close> when there is something else.\<close>

definition parse_exponent :: "codepoints \<Rightarrow> int option" where
  "parse_exponent s =
     (case s of
        [] \<Rightarrow> Some 0
      | c # s \<Rightarrow>
          let (neg, digits) = split_sign s in
          if (c = 101 \<or> c = 69) \<and> digits \<noteq> [] \<and> list_all codepoint_digit digits
          then Some (signed_magnitude neg (digits_value digits)) else None)"

text \<open>\<open>n * 10 ^ k\<close>, rounded.\<close>

definition f64_scaled :: "bool \<Rightarrow> nat \<Rightarrow> int \<Rightarrow> f64" where
  "f64_scaled neg n k =
     (if n = 0 then Finite neg 0 0 else f64_rounded neg (n * 10 ^ nat k) (10 ^ nat (- k)) 0)"

definition parse_number :: "bool \<Rightarrow> codepoints \<Rightarrow> f64 option" where
  "parse_number neg s =
     (let whole = takeWhile codepoint_digit s; rest = dropWhile codepoint_digit s;
          point = (rest \<noteq> [] \<and> hd rest = 46);
          fraction = (if point then takeWhile codepoint_digit (tl rest) else []);
          rest = (if point then dropWhile codepoint_digit (tl rest) else rest) in
      if whole = [] \<and> fraction = [] then None
      else map_option (\<lambda>e. f64_scaled neg (digits_value (whole @ fraction)) (e - int (length fraction)))
             (parse_exponent rest))"

definition lower :: "nat \<Rightarrow> nat" where
  "lower c = (if 65 \<le> c \<and> c \<le> 90 then c + 32 else c)"

definition parse_f64 :: "codepoints \<Rightarrow> f64 option" where
  "parse_f64 s =
     (let (neg, s) = split_sign s; word = map lower s in
      if word \<in> {map of_char ''inf'', map of_char ''infinity''} then Some (Infinite neg)
      else if word = map of_char ''nan'' then Some NaN
      else parse_number neg s)"

lemma tests_of_parse_f64:
  "parse_f64 (map of_char ''2.5'') = Some (f64_decimal 25 10)"
  "parse_f64 (map of_char ''-.5e1'') = Some (f64_rounded True 5 1 0)"
  "parse_f64 (map of_char ''1.'') = Some (f64_decimal 1 1)"
  "parse_f64 (map of_char ''.'') = None" "parse_f64 (map of_char '''') = None"
  "parse_f64 (map of_char ''1e'') = None" "parse_f64 (map of_char ''-Inf'') = Some (Infinite True)"
  "parse_f64 (map of_char ''12mm'') = None"
  by (simp_all add: parse_f64_def parse_number_def parse_exponent_def codepoint_digit_def
      digits_value_def lower_def f64_scaled_def f64_decimal_def signed_magnitude_def Let_def)


subsection \<open>The dialog\<close>

text \<open>The value clamped to the limit of its kind, if the limits are known, in raw units.\<close>

definition clamp_input :: "SystemLimits option \<Rightarrow> nat \<Rightarrow> f64 \<Rightarrow> f64 option" where
  "clamp_input limits unit_type val =
     (case limits of
        None \<Rightarrow> Some val
      | Some limits \<Rightarrow>
          if unit_type = 0 then
            let limit_mm = f64_div (f64_of_int (sint (position_0 (limit_position limits)))) (f64_from 10000) in
            f64_clamp val (f64_neg (f64_abs limit_mm)) (f64_abs limit_mm)
          else if unit_type = 1 then
            f64_clamp val (f64_from 0)
              (f64_div (f64_of_int (sint (velocity_0 (limit_velocity limits)))) (f64_from 1000000))
          else if unit_type = 2 then
            f64_clamp val (f64_from 0)
              (f64_div (f64_of_int (sint (acceleration_0 (limit_acceleration limits)))) (f64_from 100000))
          else
            f64_clamp val (f64_from 0)
              (f64_div (f64_of_int (sint (acceleration_0 (limit_deceleration limits)))) (f64_from 100000)))"

definition raw_input :: "nat \<Rightarrow> f64 \<Rightarrow> i32" where
  "raw_input unit_type val =
     (if unit_type = 0 then position_0 (Position_from_millimeters_f64 val)
      else if unit_type = 1 then velocity_0 (Velocity_from_meters_per_second_f64 val)
      else acceleration_0 (Acceleration_from_meters_per_second_squared_f64 val))"

definition apply_dialog :: "profile \<Rightarrow> InputDialog \<Rightarrow> App \<Rightarrow> App option" where
  "apply_dialog p dialog app =
     (case parse_f64 (trim (dlg_input dialog)) of
        None \<Rightarrow> Some app
      | Some val \<Rightarrow>
          let unit_type = app_input_index app mod 4 in
          (case clamp_input (app_limits app) unit_type val of
             None \<Rightarrow> None
           | Some val \<Rightarrow>
               let raw_val = raw_input unit_type val;
                   inputs = fold (\<lambda>(idx, checked) inputs. if checked then inputs[idx := raw_val] else inputs)
                     (dlg_targets dialog) (app_inputs app);
                   app = app\<lparr>app_inputs := inputs\<rparr> in
               if app_holder app \<noteq> None then send_inputs p app else Some app))"

fun edit_dialog :: "KeyCode \<Rightarrow> InputDialog \<Rightarrow> InputDialog" where
  "edit_dialog KeyUp dialog =
     (if dlg_selected_row dialog > 0 then dialog\<lparr>dlg_selected_row := dlg_selected_row dialog - 1\<rparr> else dialog)"
| "edit_dialog KeyDown dialog =
     (if dlg_selected_row dialog \<le> length (dlg_targets dialog)
      then dialog\<lparr>dlg_selected_row := dlg_selected_row dialog + 1\<rparr> else dialog)"
| "edit_dialog (KeyChar c) dialog =
     (if dlg_selected_row dialog = 0 then dialog\<lparr>dlg_input := dlg_input dialog @ [c]\<rparr>
      else if c = 32 \<and> dlg_selected_row dialog \<le> length (dlg_targets dialog) then
        let i = dlg_selected_row dialog - 1; (idx, checked) = dlg_targets dialog ! i in
        dialog\<lparr>dlg_targets := (dlg_targets dialog)[i := (idx, \<not> checked)]\<rparr>
      else dialog)"
| "edit_dialog KeyBackspace dialog =
     (if dlg_selected_row dialog = 0 then dialog\<lparr>dlg_input := butlast (dlg_input dialog)\<rparr> else dialog)"
| "edit_dialog _ dialog = dialog"

definition handle_dialog_key :: "profile \<Rightarrow> KeyCode \<Rightarrow> InputDialog \<Rightarrow> App \<Rightarrow> App option" where
  "handle_dialog_key p code dialog app =
     (let app = app\<lparr>app_dialog := None\<rparr> in
      if code = KeyEsc then Some app
      else if code = KeyEnter then apply_dialog p dialog app
      else Some (app\<lparr>app_dialog := Some (edit_dialog code dialog)\<rparr>))"

text \<open>The inputs of the same kind as the selected one, in their order; only that one is checked.\<close>

definition dialog_targets :: "nat \<Rightarrow> (nat \<times> bool) list" where
  "dialog_targets input_index =
     (let unit_type = input_index mod 4;
          same = (\<lambda>i. if unit_type < 2 then i mod 4 = unit_type else i mod 4 \<in> {2, 3}) in
      sort_key fst ((input_index, True) #
        map (\<lambda>i. (i, False)) (filter (\<lambda>i. i \<noteq> input_index \<and> same i) [0..<8])))"

subsection \<open>Edits\<close>

definition reset_inputs :: "profile \<Rightarrow> App \<Rightarrow> App option" where
  "reset_inputs p app =
     (let app = app\<lparr>app_inputs := INITIAL_INPUTS\<rparr> in
      if app_holder app \<noteq> None then send_inputs p app else Some app)"

definition input_limit :: "App \<Rightarrow> int" where
  "input_limit app =
     (case app_limits app of
        None \<Rightarrow> 2147483647
      | Some limits \<Rightarrow>
          let k = app_input_index app mod 4 in
          if k = 0 then sint (position_0 (limit_position limits))
          else if k = 1 then sint (velocity_0 (limit_velocity limits))
          else if k = 2 then sint (acceleration_0 (limit_acceleration limits))
          else sint (acceleration_0 (limit_deceleration limits)))"

definition input_fields :: "nat \<Rightarrow> i32 list \<Rightarrow> MotionCommandFields" where
  "input_fields idx inputs =
     (let x = inputs ! idx; k = idx mod 4; upd = MotionCommandFields_default in
      if k = 0 then upd\<lparr>f_position := Some (Position x)\<rparr>
      else if k = 1 then upd\<lparr>f_velocity := Some (Velocity x)\<rparr>
      else if k = 2 then upd\<lparr>f_acceleration := Some (Acceleration x)\<rparr>
      else upd\<lparr>f_deceleration := Some (Acceleration x)\<rparr>)"

fun send_updates :: "profile \<Rightarrow> nat list \<Rightarrow> App \<Rightarrow> App option" where
  "send_updates p [] app = Some app"
| "send_updates p (idx # indices) app =
     Option.bind
       (app_send p (\<lambda>seq. UpdateCommand seq
          \<lparr>cu_index = idx div 4, cu_fields = input_fields idx (app_inputs app)\<rparr>) app)
       (send_updates p indices)"

text \<open>The start position pushes the end position ahead of it, and the other way round.\<close>

definition push_position :: "nat \<Rightarrow> i32 list \<Rightarrow> i32 list \<times> nat list" where
  "push_position i inputs =
     (if i = 0 \<and> sint (inputs ! 4) < sint (inputs ! 0) then (inputs[4 := inputs ! 0], [i, 4])
      else if i = 4 \<and> sint (inputs ! 4) < sint (inputs ! 0) then (inputs[0 := inputs ! 4], [i, 0])
      else (inputs, [i]))"

definition update_input :: "profile \<Rightarrow> int \<Rightarrow> bool \<Rightarrow> App \<Rightarrow> App option" where
  "update_input p delta large app =
     (if \<not> has_write_access app then Some app
      else
        let i = app_input_index app; step = (if large then 10000 else 1000) in do {
          moved \<leftarrow> arith_i32 p (sint (app_inputs app ! i) + delta * step);
          x \<leftarrow> ord_clamp moved 0 (input_limit app);
          (let (inputs, affected) = push_position i ((app_inputs app)[i := as_i32 x]);
               app = app\<lparr>app_inputs := inputs\<rparr> in
           if app_holder app \<noteq> None then send_updates p affected app else Some app)
        })"

subsection \<open>Keys\<close>

text \<open>The number of times the key was pressed again within 150 ms.\<close>

definition track_repeat :: "profile \<Rightarrow> nat \<Rightarrow> KeyCode \<Rightarrow> App \<Rightarrow> App option" where
  "track_repeat p now code app =
     map_option (\<lambda>n. app\<lparr>app_repeat_count := n, app_last_key := Some (code, now)\<rparr>)
       (case app_last_key app of
          Some (last_code, last_time) \<Rightarrow>
            if last_code = code \<and> now - last_time < 150 then
              (if app_repeat_count app = - 1 then overflow p 0 else Some (app_repeat_count app + 1))
            else Some 0
        | None \<Rightarrow> Some 0)"

text \<open>The keys: \<open>q\<close> is 113, \<open>c\<close> 99, \<open>w\<close> 119, \<open>p\<close> 112, \<open>m\<close> 109, \<open>a\<close> 97, \<open>r\<close> 114, space 32.\<close>

definition handle_char :: "profile \<Rightarrow> nat \<Rightarrow> bool \<Rightarrow> App \<Rightarrow> App option" where
  "handle_char p c control app =
     (if c = 113 \<or> c = 99 \<and> control then Some (app\<lparr>app_exit := True\<rparr>)
      else if c = 119 then app_send p RequestWriteAccess app
      else if \<not> has_write_access app then Some app
      else if c = 112 then
        app_send p (\<lambda>seq. SetDrivePower seq (map_option cs_drive_state (app_state app) = Some Off)) app
      else if c = 109 then
        app_send p (\<lambda>seq. SetMotionState seq
          (case map_option cs_drive_state (app_state app) of
             Some Moving \<Rightarrow> Pause | Some Paused \<Rightarrow> Resume | _ \<Rightarrow> Start)) app
      else if c = 97 then app_send p AcknowledgeError app
      else if c = 114 then reset_inputs p app
      else if c = 32 then
        Some (app\<lparr>app_dialog := Some \<lparr>dlg_input = [],
          dlg_targets = dialog_targets (app_input_index app), dlg_selected_row = 0\<rparr>\<rparr>)
      else Some app)"

definition handle_key_event :: "profile \<Rightarrow> nat \<Rightarrow> KeyEvent \<Rightarrow> App \<Rightarrow> App option" where
  "handle_key_event p now key app =
     (case app_dialog app of
        Some dialog \<Rightarrow> handle_dialog_key p (key_code key) dialog app
      | None \<Rightarrow>
          (case track_repeat p now (key_code key) app of
             None \<Rightarrow> None
           | Some app \<Rightarrow>
               let large_step = (5 < uint (app_repeat_count app) \<or> key_kind key = KeyRepeat) in
               (case key_code key of
                  KeyUp \<Rightarrow> Some (if app_input_index app > 0
                    then app\<lparr>app_input_index := app_input_index app - 1\<rparr> else app)
                | KeyDown \<Rightarrow> Some (if app_input_index app < 7
                    then app\<lparr>app_input_index := app_input_index app + 1\<rparr> else app)
                | KeyLeft \<Rightarrow> if has_write_access app then update_input p (- 1) large_step app else Some app
                | KeyRight \<Rightarrow> if has_write_access app then update_input p 1 large_step app else Some app
                | KeyChar c \<Rightarrow> handle_char p c (key_control key) app
                | _ \<Rightarrow> Some app)))"


subsection \<open>The loop\<close>

datatype poll_result =
    PollKey nat KeyEvent \<comment> \<open>with the time it is handled\<close>
  | PollNothing \<comment> \<open>no event, another event, or a signal\<close>
  | PollSignal \<comment> \<open>a signal that sets the exit flag\<close>
  | PollError \<comment> \<open>polling or reading fails; or drawing the frame before it\<close>

fun handle_core_messages :: "profile \<Rightarrow> CoreMessage list \<Rightarrow> App \<Rightarrow> App option" where
  "handle_core_messages p [] app = Some app"
| "handle_core_messages p (m # ms) app = Option.bind (handle_core_message p m app) (handle_core_messages p ms)"

definition handle_poll :: "profile \<Rightarrow> poll_result \<Rightarrow> App \<Rightarrow> (unit + App) option" where
  "handle_poll p poll app =
     (case poll of
        PollKey now key \<Rightarrow>
          if key_kind key = KeyPress \<or> key_kind key = KeyRepeat
          then map_option Inr (handle_key_event p now key app) else Some (Inr app)
      | PollNothing \<Rightarrow> Some (Inr app)
      | PollSignal \<Rightarrow> Some (Inr (app\<lparr>app_exit := True\<rparr>))
      | PollError \<Rightarrow> Some (Inl ()))"

text \<open>\<open>App::run\<close> on what the channel and the terminal deliver in each round: \<open>Inl\<close> is the error, and
  the loop is still running when the rounds are used up before the exit flag is set.\<close>

fun App_run :: "profile \<Rightarrow> (CoreMessage list \<times> poll_result) list \<Rightarrow> App \<Rightarrow> (unit + App) option" where
  "App_run p rounds app =
     (if app_exit app then Some (Inr (app\<lparr>app_sent := app_sent app @ [None]\<rparr>))
      else case rounds of
        [] \<Rightarrow> Some (Inr app)
      | (messages, poll) # rounds \<Rightarrow>
          (case handle_core_messages p messages app of
             None \<Rightarrow> None
           | Some app \<Rightarrow>
               (case handle_poll p poll app of
                  None \<Rightarrow> None
                | Some (Inl e) \<Rightarrow> Some (Inl e)
                | Some (Inr app) \<Rightarrow> App_run p rounds app)))"

subsection \<open>The socket thread\<close>

text \<open>What reading from the socket gives; \<open>SocketData\<close> is a text or binary message.\<close>

datatype socket_read = SocketData "nat list" | SocketClose | SocketWouldBlock | SocketError | SocketOther

text \<open>The messages forwarded to the terminal; the flag says whether the thread goes on.  The reads
  end with a result other than data or a ping.\<close>

fun read_socket :: "(nat list \<Rightarrow> CoreMessage option) \<Rightarrow> socket_read list \<Rightarrow> CoreMessage list \<times> bool" where
  "read_socket from_json [] = ([], True)"
| "read_socket from_json (SocketData d # reads) =
     (let (ms, alive) = read_socket from_json reads in
      ((case from_json d of None \<Rightarrow> [] | Some m \<Rightarrow> [m]) @ ms, alive))"
| "read_socket from_json (SocketOther # reads) = read_socket from_json reads"
| "read_socket from_json (SocketWouldBlock # reads) = ([], True)"
| "read_socket from_json (_ # reads) = ([], False)"

text \<open>The messages of the terminal that are sent; \<open>send_ok\<close> says whether the socket takes the next one,
  by the number sent in this round.\<close>

fun write_socket :: "(nat \<Rightarrow> bool) \<Rightarrow> ClientMessage option list \<Rightarrow> ClientMessage list \<Rightarrow> ClientMessage list \<times> bool" where
  "write_socket send_ok [] sent = (sent, True)"
| "write_socket send_ok (None # queue) sent = (sent, False)"
| "write_socket send_ok (Some m # queue) sent =
     (if send_ok (length sent) then write_socket send_ok queue (sent @ [m]) else (sent, False))"

definition socket_round ::
    "(nat list \<Rightarrow> CoreMessage option) \<Rightarrow> (nat \<Rightarrow> bool) \<Rightarrow> socket_read list \<Rightarrow> ClientMessage option list
     \<Rightarrow> CoreMessage list \<times> ClientMessage list \<times> bool" where
  "socket_round from_json send_ok reads queue =
     (let (received, alive) = read_socket from_json reads in
      if alive then
        let (sent, alive) = write_socket send_ok queue [] in (received, sent, alive)
      else (received, [], False))"

end
