(* ===== verification/TerminalMirror.thy ===== *)
theory TerminalMirror
  imports TerminalClient System
begin

text \<open>
  The terminal client and the core: a client that applies the messages it gets, in their order, shows
  the active command set whenever its last fetch of the set is not older than the last announcement
  without an update.  Then what its keys send.
\<close>

subsection \<open>What the inputs show\<close>

definition command_inputs :: "MotionCommand \<Rightarrow> i32 list" where
  "command_inputs cmd = [position_0 (position cmd), velocity_0 (velocity cmd),
     acceleration_0 (acceleration cmd), acceleration_0 (deceleration cmd)]"

text \<open>The first two commands, if there are as many.\<close>

definition shows_commands :: "MotionCommand list \<Rightarrow> i32 list \<Rightarrow> bool" where
  "shows_commands cmds inputs \<longleftrightarrow> length inputs = 8 \<and>
     take (4 * min 2 (length cmds)) inputs = concat (map command_inputs (take 2 cmds))"

lemma length_8E:
  assumes "length xs = 8"
  obtains a b c d e f g h where "xs = [a, b, c, d, e, f, g, h]"
  using assms by (auto simp: eval_nat_numeral length_Suc_conv)

lemma shows_store:
  assumes "length inputs = 8"
  shows "shows_commands cmds (store_commands 0 (take 2 cmds) inputs)"
proof -
  obtain a b c d e f g h where "inputs = [a, b, c, d, e, f, g, h]"
    using length_8E [OF assms] by blast
  then show ?thesis
    by (cases cmds; cases "tl cmds")
      (auto simp: shows_commands_def command_inputs_def eval_nat_numeral)
qed

lemma shows_update:
  assumes "shows_commands cmds inputs" "i < length cmds"
  shows "shows_commands (cmds[i := fst (apply_fields upd (cmds ! i))])
    (if i < 2 then set_inputs upd (i * 4) inputs else inputs)"
proof -
  obtain a b c d e f g h where inputs: "inputs = [a, b, c, d, e, f, g, h]"
    using assms(1) length_8E unfolding shows_commands_def by blast
  consider "i = 0" | "i = 1" | "2 \<le> i" by linarith
  then show ?thesis
  proof cases
    case 1
    with assms show ?thesis
      by (cases cmds; cases "tl cmds")
        (auto simp: shows_commands_def command_inputs_def inputs set_inputs_def apply_fields_eq
          Let_def eval_nat_numeral split: option.splits)
  next
    case 2
    with assms show ?thesis
      by (cases cmds; cases "tl cmds")
        (auto simp: shows_commands_def command_inputs_def inputs set_inputs_def apply_fields_eq
          Let_def eval_nat_numeral split: option.splits)
  next
    case 3
    with assms show ?thesis
      by (simp add: shows_commands_def take_update_cancel)
  qed
qed

text \<open>The effect of a message on the inputs of the client.\<close>

fun input_effect :: "CoreMessage \<Rightarrow> i32 list \<Rightarrow> i32 list" where
  "input_effect (CommandSet _ None _ commands) inputs = store_commands 0 (take 2 commands) inputs"
| "input_effect (CommandSetChanged _ (Some upd)) inputs =
     (if cu_index upd < 2 then set_inputs (cu_fields upd) (cu_index upd * 4) inputs else inputs)"
| "input_effect _ inputs = inputs"

lemma app_send_inputs: "app_send p message app = Some app' \<Longrightarrow> app_inputs app' = app_inputs app"
  by (auto simp: app_send_def next_seq_def)

lemma handle_core_message_inputs:
  assumes "handle_core_message p m app = Some app'"
  shows "app_inputs app' = input_effect m (app_inputs app)"
  using assms
  by (cases "(m, app_inputs app)" rule: input_effect.cases)
    (auto simp: handle_core_message_def send_inputs_def set_state_holder_def Let_def
      dest!: app_send_inputs split: if_splits option.splits)

lemma handle_core_messages_inputs:
  "handle_core_messages p ms app = Some app' \<Longrightarrow> app_inputs app' = fold input_effect ms (app_inputs app)"
  by (induction ms arbitrary: app)
    (auto dest: handle_core_message_inputs split: Option.bind_splits)


subsection \<open>The stream of messages of a client\<close>

definition heard :: "nat \<Rightarrow> CoreManager \<Rightarrow> CoreMessage list" where
  "heard t cm = meant_for t (queued (cm_sent cm))"

text \<open>Whether the last fetched set is not older than the last announcement that asks for a fetch.\<close>

fun fetched :: "CoreMessage \<Rightarrow> bool \<Rightarrow> bool" where
  "fetched (CommandSet _ None _ _) b = True"
| "fetched (CommandSetChanged _ None) b = False"
| "fetched (Connected _ _ _) b = False"
| "fetched _ b = b"

definition up_to_date :: "CoreMessage list \<Rightarrow> bool" where
  "up_to_date ms \<longleftrightarrow> fold fetched ms False"

text \<open>Messages that take a client from one active set to another: they ask it to fetch, or they
  bring the new set, or an update that makes the one from the other.\<close>

definition explains :: "MotionCommand list \<Rightarrow> CoreMessage list \<Rightarrow> MotionCommand list \<Rightarrow> bool" where
  "explains cmds ms cmds' \<longleftrightarrow>
     (\<forall>b inputs. length inputs = 8 \<longrightarrow> (b \<longrightarrow> shows_commands cmds inputs) \<longrightarrow>
        fold fetched ms b \<longrightarrow> shows_commands cmds' (fold input_effect ms inputs))"

lemma input_effect_length: "length (input_effect m inputs) = length inputs"
  by (cases "(m, inputs)" rule: input_effect.cases)
    (simp_all add: set_inputs_length store_commands_length)

lemma fold_input_effect_length: "length (fold input_effect ms inputs) = length inputs"
  by (induction ms arbitrary: inputs) (simp_all add: input_effect_length)

lemma explains_trans:
  assumes "explains a ms b" "explains b ms' c"
  shows "explains a (ms @ ms') c"
  unfolding explains_def
proof (intro allI impI)
  fix q inputs
  assume "length (inputs :: i32 list) = 8" "q \<longrightarrow> shows_commands a inputs" "fold fetched (ms @ ms') q"
  with assms(1) have "fold fetched ms q \<longrightarrow> shows_commands b (fold input_effect ms inputs)"
    "length (fold input_effect ms inputs) = 8" "fold fetched ms' (fold fetched ms q)"
    by (auto simp: explains_def fold_input_effect_length)
  with assms(2) show "shows_commands c (fold input_effect (ms @ ms') inputs)"
    by (simp add: explains_def)
qed

text \<open>Messages about something else.\<close>

definition idle :: "CoreMessage \<Rightarrow> bool" where
  "idle m \<longleftrightarrow> (\<forall>b. fetched m b = b) \<and> (\<forall>inputs. input_effect m inputs = inputs)"

lemma idle_simps [simp]:
  "idle (Ack seq success reason)" "idle (WriteAccessResult seq granted h)" "idle (CommandResult seq success v)"
  "idle (SavedSetList seq sets)" "idle (StateMessage s state)" "idle (WriteAccessChanged h prev)"
  "idle (CommandSet seq (Some name) v cmds)"
  by (simp_all add: idle_def)

lemma explains_idle: "list_all idle ms \<Longrightarrow> explains cmds ms cmds"
  by (induction ms) (auto simp: explains_def idle_def)

lemma explains_updated:
  "i < length cmds \<Longrightarrow> cu_index upd = i \<Longrightarrow>
   explains cmds [CommandSetChanged v (Some upd), CommandResult seq True v]
     (cmds[i := fst (apply_fields (cu_fields upd) (cmds ! i))])"
  using shows_update [of cmds _ i "cu_fields upd"] by (auto simp: explains_def)

lemma explains_basics:
  "explains cmds [] cmds"
  "explains cmds [CommandSetChanged v None] cmds'"
  "explains cmds [CommandSetChanged v None, CommandResult seq True v] cmds'"
  "explains cmds [CommandSet seq None v cmds'] cmds'"
  "explains cmds [Connected c limits state] cmds'"
  by (auto simp: explains_def shows_store)

lemma explains_update_unheard:
  "i < length cmds \<Longrightarrow> cu_index upd = i \<Longrightarrow>
   explains cmds [CommandSetChanged v (Some upd)]
     (cmds[i := fst (apply_fields (cu_fields upd) (cmds ! i))])"
  using shows_update [of cmds _ i "cu_fields upd"] by (auto simp: explains_def)

subsection \<open>Everything the core does is explained\<close>

definition posted :: "nat \<Rightarrow> post \<Rightarrow> CoreMessage list" where
  "posted t post = map snd (filter (\<lambda>(d, m). d \<in> {None, Some (WebSocket t)}) post)"

lemma meant_for_append: "meant_for t (xs @ ys) = meant_for t xs @ meant_for t ys"
  by (simp add: meant_for_def)

lemma queued_hid: "queued (map ToHid reports) = []"
  by (induction reports) simp_all

lemma send_heard:
  assumes "send env d m cm = (Inr (), cm')" "cm_websocket_server cm"
  shows "cm_websocket_server cm' \<and> cm_active_command_set cm' = cm_active_command_set cm \<and>
    heard t cm' = heard t cm @ posted t [(d, m)]"
  using assms
  by (auto simp: send_def send_hid_def send_websocket_def and_then_def ok_def heard_def posted_def
      meant_for_def queued_hid split: option.splits ControllerId.splits sum.splits if_splits)

lemma send_all_heard:
  assumes "send_all env post cm = (Inr (), cm')" "cm_websocket_server cm"
  shows "cm_websocket_server cm' \<and> cm_active_command_set cm' = cm_active_command_set cm \<and>
    heard t cm' = heard t cm @ posted t post"
  using assms
proof (induction post arbitrary: cm)
  case (Cons dm post)
  obtain d m where dm: "dm = (d, m)" by fastforce
  with Cons.prems(1) have "and_then (send env d m) (send_all env post) cm = (Inr (), cm')" by simp
  then obtain cm1 where "send env d m cm = (Inr (), cm1)" "send_all env post cm1 = (Inr (), cm')"
    by (auto simp: and_then_def split: prod.splits sum.splits)
  with Cons.IH send_heard [of env d m cm cm1 t] Cons.prems(2) show ?case
    by (auto simp: dm posted_def)
qed (simp add: ok_def posted_def)

text \<open>The commands before and after an event, and what was heard in between.\<close>

definition explained :: "nat \<Rightarrow> CoreManager \<Rightarrow> CoreManager \<Rightarrow> bool" where
  "explained t cm cm' \<longleftrightarrow> cm_websocket_server cm' \<and> (\<exists>ms. heard t cm' = heard t cm @ ms \<and>
     explains (snd (cm_active_command_set cm)) ms (snd (cm_active_command_set cm')))"

lemma explained_trans: "explained t a b \<Longrightarrow> explained t b c \<Longrightarrow> explained t a c"
  unfolding explained_def using explains_trans by fastforce

lemma plan_explains:
  assumes "plan env c m cm = Some (cm1, post)"
  shows "explains (snd (cm_active_command_set cm)) (posted t post) (snd (cm_active_command_set cm1))"
proof -
  consider (active) seq base new where "plan_replace env c seq base new cm = Some (cm1, post)"
    | (upd) seq u where "plan_update env c seq u cm = Some (cm1, post)"
    | (saved) seq name base new where "plan_saved env c seq name base new cm = Some (cm1, post)"
    | (other) "cm_active_command_set cm1 = cm_active_command_set cm" "list_all (idle \<circ> snd) post"
    | (sent) d seq v where "cm_active_command_set cm1 = cm_active_command_set cm"
      "post = [(d, CommandSet seq None v (snd (cm_active_command_set cm)))]"
    using assms
    by (cases m; cases "controls m \<and> holder cm \<noteq> Some c")
      (auto simp: plan_def answer_def set_holder_def lock_commands_def send_actions_def
        split: if_splits option.splits prod.splits)
  then show ?thesis
  proof cases
    case active
    then show ?thesis
      by (cases rule: plan_replace_cases)
        (auto simp: posted_def explains_basics explains_idle)
  next
    case upd
    then show ?thesis
      by (cases rule: plan_update_cases)
        (auto simp: posted_def explains_idle explains_updated explains_update_unheard dest!: synced_active)
  next
    case saved
    then show ?thesis
      by (cases rule: plan_saved_cases) (auto simp: posted_def explains_idle)
  next
    case other
    then have "list_all idle (posted t post)"
      by (auto simp: posted_def list_all_iff)
    with other(1) show ?thesis by (simp add: explains_idle)
  next
    case sent
    then show ?thesis by (auto simp: posted_def explains_basics)
  qed
qed


lemma message_explained:
  assumes "handle_message env c m cm = (Inr (), cm')" "cm_websocket_server cm"
  shows "explained t cm cm'"
  using assms(1)
proof (cases rule: handle_message_cases)
  case (plan cm1 post new)
  then have "cm_websocket_server cm1" "cm_sent cm1 = cm_sent cm"
    using plan_frame [OF plan(1)] assms(2) by simp_all
  with send_all_heard [OF plan(2) this(1), of t] plan_explains [OF plan(1), of t] show ?thesis
    by (auto simp: explained_def heard_def)
qed simp

lemma messages_explained:
  "handle_messages env c ms cm = (Inr (), cm') \<Longrightarrow> cm_websocket_server cm \<Longrightarrow> explained t cm cm'"
proof (induction ms arbitrary: cm)
  case Nil
  then show ?case by (simp add: ok_def explained_def explains_basics)
next
  case (Cons m ms)
  then have "and_then (handle_message env c m) (handle_messages env c ms) cm = (Inr (), cm')" by simp
  then obtain cm1 where step: "handle_message env c m cm = (Inr (), cm1)" "handle_messages env c ms cm1 = (Inr (), cm')"
    by (auto simp: and_then_def split: prod.splits sum.splits)
  note first = message_explained [OF step(1) Cons.prems(2), of t]
  then have "cm_websocket_server cm1" by (simp add: explained_def)
  from explained_trans [OF first Cons.IH [OF step(2) this]] show ?case .
qed

lemma sent_explained:
  assumes "send env d m cm1 = (Inr (), cm')" "cm_websocket_server cm1" "heard t cm1 = heard t cm"
    and "cm_active_command_set cm1 = cm_active_command_set cm" "idle m \<or> (\<exists>c limits state. m = Connected c limits state)"
  shows "explained t cm cm'"
  using send_heard [OF assms(1,2), of t] assms(3-5)
  by (auto simp: explained_def posted_def explains_basics explains_idle)

lemma event_explained:
  assumes "handle_event env ev cm = (Inr (), cm')" "cm_websocket_server cm"
  shows "explained t cm cm'"
proof (cases ev)
  case (ControllerConnected c)
  with assms show ?thesis
    by (intro sent_explained [of env "Some c" _ cm]) (auto simp: handle_event_def)
next
  case (ControllerDisconnected c)
  show ?thesis
  proof (cases "holder cm = Some c")
    case True
    with assms ControllerDisconnected show ?thesis
      by (intro sent_explained [of env None _ "lock_commands (\<lambda>commands. commands\<lparr>dc_power_enabled := False,
        dc_motion_enabled := False\<rparr>) (set_holder None cm)"])
        (auto simp: handle_event_def controller_disconnected_def lock_commands_def set_holder_def heard_def)
  next
    case False
    with assms ControllerDisconnected show ?thesis
      by (auto simp: handle_event_def controller_disconnected_def ok_def explained_def explains_basics)
  qed
next
  case (Message c m)
  with assms message_explained show ?thesis by (simp add: handle_event_def)
next
  case (DriveStateUpdated fb)
  with assms show ?thesis
    by (intro sent_explained [of env None _
          "cm\<lparr>cm_core_state := state_after_feedback fb (cm_core_state cm)\<rparr>"])
      (auto simp: handle_event_def Let_def heard_def)
next
  case (HidInputReport report)
  show ?thesis
  proof (cases "cm_hid_ui cm")
    case None
    with assms HidInputReport show ?thesis
      by (auto simp: handle_event_def hid_input_report_def ok_def explained_def explains_basics)
  next
    case (Some ui)
    then obtain messages reports ui' where
      "handle_messages env Hid messages
        (cm\<lparr>cm_hid_ui := Some ui', cm_sent := cm_sent cm @ map ToHid reports\<rparr>) = (Inr (), cm')"
      using assms(1) HidInputReport
      by (auto simp: handle_event_def hid_input_report_def panic_def split: option.splits sum.splits prod.splits)
    from messages_explained [OF this, of t] assms(2) show ?thesis
      by (simp add: explained_def heard_def queued_hid)
  qed
qed

lemma run_core_explained:
  "run_core evs cm = (Inr (), cm') \<Longrightarrow> cm_websocket_server cm \<Longrightarrow> explained t cm cm'"
proof (induction evs arbitrary: cm)
  case Nil
  then show ?case by (simp add: ok_def explained_def explains_basics)
next
  case (Cons x evs)
  obtain env ev where x: "x = (env, ev)" by fastforce
  from Cons.prems(1) obtain cm1 where step: "handle_event env ev cm = (Inr (), cm1)" "run_core evs cm1 = (Inr (), cm')"
    unfolding x by (rule run_core_Cons)
  note first = event_explained [OF step(1) Cons.prems(2), of t]
  then have "cm_websocket_server cm1" by (simp add: explained_def)
  from explained_trans [OF first Cons.IH [OF step(2) this]] show ?case .
qed

text \<open>
  C24: the terminal client shows what the core has: in every run of the core, with any clients, a
  terminal client that has received its messages in order, and whose last fetch of the active set is
  not older than the last announcement that asks for one, shows the first two commands of the
  active command set, as they are.
\<close>

theorem terminal_shows_active:
  assumes "run_core evs (CoreManager_new limits hid_io True) = (Inr (), cm)"
    and "handle_core_messages p (heard t cm) app = Some app'" "length (app_inputs app) = 8"
    and "up_to_date (heard t cm)"
  shows "shows_commands (snd (cm_active_command_set cm)) (app_inputs app')"
proof -
  have "explained t (CoreManager_new limits hid_io True) cm"
    using run_core_explained [OF assms(1)] by (simp add: CoreManager_new_def)
  then obtain ms where "heard t cm = ms" "explains [] ms (snd (cm_active_command_set cm))"
    by (auto simp: explained_def CoreManager_new_def heard_def meant_for_def)
  then show ?thesis
    using assms(3,4) handle_core_messages_inputs [OF assms(2)]
    by (auto simp: explains_def up_to_date_def)
qed


text \<open>A fetch brings it up to date.\<close>

lemma fetch_up_to_date:
  assumes "handle_event env (Message (WebSocket t) (GetCommandSet seq None)) cm = (Inr (), cm')"
    and "cm_websocket_server cm"
  shows "up_to_date (heard t cm')"
proof -
  have "send env (Some (WebSocket t)) (CommandSet seq None (fst (cm_active_command_set cm))
      (snd (cm_active_command_set cm))) cm = (Inr (), cm')"
    using assms(1) by (simp add: handle_event_def handle_message_def get_command_set_def split: prod.splits)
  from send_heard [OF this assms(2), of t] show ?thesis
    by (simp add: up_to_date_def posted_def)
qed

text \<open>A build without overflow checks handles every message.\<close>

lemma app_send_release: "\<exists>app'. app_send Release message app = Some app'"
  by (simp add: app_send_def next_seq_def arith_u64_def overflow_def)

lemma handle_core_messages_release: "\<exists>app'. handle_core_messages Release ms app = Some app'"
proof (induction ms arbitrary: app)
  case (Cons m ms)
  have "\<exists>app1. handle_core_message Release m app = Some app1"
    using app_send_release
    by (cases "(m, app_inputs app)" rule: input_effect.cases)
      (simp_all add: handle_core_message_def send_inputs_def Let_def split: option.split)
  then obtain app1 where "handle_core_message Release m app = Some app1" ..
  with Cons.IH [of app1] show ?case by simp
qed simp

definition example_active :: "MotionCommand list" where
  "example_active = example_commands[1 := (example_commands ! 1)\<lparr>position := Position 20000\<rparr>]"

lemma example_published:
  "\<exists>cm. run_core (map (Pair example_env) [Message (WebSocket 3) (RequestWriteAccess 1),
      Message (WebSocket 3) (UpsertCommandSet 2 None None example_commands),
      Message (WebSocket 3) (UpdateCommand 3 \<lparr>cu_index = 1,
        cu_fields = MotionCommandFields_default\<lparr>f_position := Some (Position 20000)\<rparr>\<rparr>)])
      example_core = (Inr (), cm) \<and>
    cm_websocket_server cm \<and> snd (cm_active_command_set cm) = example_active \<and>
    holder cm = Some (WebSocket 3) \<and> cm_limits cm = example_limits"
proof -
  have "clamp_commands example_limits example_commands = Some example_commands"
    "clamp_commands example_limits example_active = Some example_active"
    by (simp_all add: example_limits_def example_commands_def example_active_def clamp_command_def ord_clamp_def
        less_eq_Position_def less_eq_Velocity_def less_eq_Acceleration_def
        less_Position_def less_Velocity_def less_Acceleration_def)
  then show ?thesis
    by (simp add: example_core_def run_defs update_command_def apply_fields_def
        MotionCommandFields_default_def example_commands_def example_active_def Let_def)
qed

lemma length_example_active: "length example_active = 2"
  by (simp add: example_active_def example_commands_def)

theorem terminal_shows_active_witness:
  "\<exists>evs cm app'. run_core evs example_core = (Inr (), cm) \<and>
    handle_core_messages Release (heard 7 cm) App_new = Some app' \<and>
    snd (cm_active_command_set cm) = example_active \<and>
    shows_commands example_active (app_inputs app')"
proof -
  obtain evs cm0 where run: "run_core evs example_core = (Inr (), cm0)"
    and cm0: "cm_websocket_server cm0" "snd (cm_active_command_set cm0) = example_active"
    using example_published by blast
  let ?fetch = "Message (WebSocket 7) (GetCommandSet 1 None)"
  obtain cm where fetch: "handle_event example_env ?fetch cm0 = (Inr (), cm)"
    "cm_active_command_set cm = cm_active_command_set cm0"
    using cm0(1) by (cases "cm_active_command_set cm0") (simp add: run_defs)
  have all: "run_core (evs @ [(example_env, ?fetch)]) example_core = (Inr (), cm)"
    using run fetch(1) by (simp add: run_core_append)
  obtain app' where "handle_core_messages Release (heard 7 cm) App_new = Some app'"
    using handle_core_messages_release by blast
  moreover have "length (app_inputs App_new) = 8"
    by (simp add: App_new_def INITIAL_INPUTS_def)
  ultimately show ?thesis
    using terminal_shows_active [OF all [unfolded example_core_def] _ _ fetch_up_to_date [OF fetch(1) cm0(1)]]
      all fetch(2) cm0(2) by metis
qed


subsection \<open>Edits reach the core\<close>

lemma set_inputs_field:
  assumes "idx < 8"
  shows "set_inputs (input_fields idx xs) (idx div 4 * 4) ys = ys[idx := xs ! idx]"
proof -
  have "idx \<in> {0, 1, 2, 3, 4, 5, 6, 7}" using assms by auto
  then show ?thesis
    by (auto simp: input_fields_def set_inputs_def MotionCommandFields_default_def numeral_2_eq_2)
qed

text \<open>The updates that are sent for the inputs that an edit changed.\<close>

definition edit_messages :: "u64 list \<Rightarrow> nat list \<Rightarrow> i32 list \<Rightarrow> ClientMessage list" where
  "edit_messages seqs indices inputs =
     map2 (\<lambda>seq idx. UpdateCommand seq \<lparr>cu_index = idx div 4, cu_fields = input_fields idx inputs\<rparr>) seqs indices"

lemma send_updates_sent:
  assumes "send_updates p indices app = Some app'"
  shows "app_inputs app' = app_inputs app \<and> (\<exists>seqs. length seqs = length indices \<and>
    app_sent app' = app_sent app @ map Some (edit_messages seqs indices (app_inputs app)))"
  using assms
proof (induction indices arbitrary: app)
  case (Cons idx indices)
  then obtain app1 where app1: "app_send p (\<lambda>seq. UpdateCommand seq
      \<lparr>cu_index = idx div 4, cu_fields = input_fields idx (app_inputs app)\<rparr>) app = Some app1"
    "send_updates p indices app1 = Some app'"
    by (auto split: Option.bind_splits)
  then obtain seq where "app_inputs app1 = app_inputs app" "app_sent app1 = app_sent app @
      [Some (UpdateCommand seq \<lparr>cu_index = idx div 4, cu_fields = input_fields idx (app_inputs app)\<rparr>)]"
    by (auto simp: app_send_def next_seq_def)
  moreover from Cons.IH [OF app1(2)] obtain seqs where "length seqs = length indices"
    "app_inputs app' = app_inputs app1"
    "app_sent app' = app_sent app1 @ map Some (edit_messages seqs indices (app_inputs app1))"
    by blast
  ultimately show ?case
    by (intro conjI exI [of _ "seq # seqs"]) (simp_all add: edit_messages_def)
qed (simp add: edit_messages_def)

lemma push_position_sets:
  assumes "push_position i inputs = (inputs', affected)" "length inputs = 8" "i < 8"
  shows "fold (\<lambda>idx xs. xs[idx := inputs' ! idx]) affected inputs = inputs'"
    "\<forall>idx \<in> set affected. idx < 8" "inputs' ! i = inputs ! i" "length inputs' = 8"
    "i \<in> {0, 4} \<Longrightarrow> sint (inputs' ! 0) \<le> sint (inputs' ! 4)"
  using assms by (auto simp: push_position_def split: if_splits)

text \<open>An edit with access, in full.\<close>

lemma update_input_cases:
  assumes "update_input p delta large app = Some app'" "has_write_access app"
    and "length (app_inputs app) = 8" "app_input_index app < 8"
  obtains x affected seqs where "0 \<le> x" "x \<le> input_limit app"
    "push_position (app_input_index app) ((app_inputs app)[app_input_index app := as_i32 x]) =
      (app_inputs app', app_input_index app # affected)"
    "length seqs = Suc (length affected)"
    "app_sent app' = app_sent app @
      map Some (edit_messages seqs (app_input_index app # affected) (app_inputs app'))"
proof -
  let ?i = "app_input_index app"
  obtain moved x where x: "ord_clamp moved 0 (input_limit app) = Some x"
    and rest: "(let (inputs, affected) = push_position ?i ((app_inputs app)[?i := as_i32 x]);
        app = app\<lparr>app_inputs := inputs\<rparr> in
      if app_holder app \<noteq> None then send_updates p affected app else Some app) = Some app'"
    using assms(1,2) by (auto simp: update_input_def Let_def split: Option.bind_splits)
  obtain inputs affected where push: "push_position ?i ((app_inputs app)[?i := as_i32 x]) = (inputs, affected)"
    by fastforce
  then obtain more where more: "affected = ?i # more"
    by (auto simp: push_position_def split: if_splits)
  have "app_holder (app\<lparr>app_inputs := inputs\<rparr>) \<noteq> None"
    using assms(2) by (auto simp: app_holder_def has_write_access_def split: option.splits)
  with rest push have "send_updates p affected (app\<lparr>app_inputs := inputs\<rparr>) = Some app'"
    by (simp add: Let_def)
  from send_updates_sent [OF this] obtain seqs where "app_inputs app' = inputs" "length seqs = length affected"
    "app_sent app' = app_sent app @ map Some (edit_messages seqs affected inputs)"
    by auto
  with that [of x more seqs] ord_clamp_range [OF x] push more show thesis by auto
qed

lemma update_message_shown:
  assumes "handle_message env c (UpdateCommand seq upd) cm = (Inr (), cm')" "holder cm = Some c"
    and "shows_commands (snd (cm_active_command_set cm)) inputs"
    and "cu_index upd < length (snd (cm_active_command_set cm))" "cu_index upd < 2"
  shows "shows_commands (snd (cm_active_command_set cm')) (set_inputs (cu_fields upd) (cu_index upd * 4) inputs) \<and>
    length (snd (cm_active_command_set cm')) = length (snd (cm_active_command_set cm)) \<and> holder cm' = Some c"
proof -
  obtain cm1 post where plan: "plan_update env c seq upd cm = Some (cm1, post)" "only_sends cm1 cm'"
    using assms(1,2) by (cases rule: handle_message_cases) (auto simp: plan_def split: if_splits)
  let ?cmds = "snd (cm_active_command_set cm)" and ?i = "cu_index upd"
  have "snd (cm_active_command_set cm1) = ?cmds[?i := fst (apply_fields (cu_fields upd) (?cmds ! ?i))] \<and>
      holder cm1 = holder cm"
    by (rule plan_update_cases [OF plan(1)])
      (use assms(4) in \<open>auto dest!: synced_active simp: holder_def synced_def lock_commands_def\<close>)
  then show ?thesis
    using shows_update [OF assms(3,4), of "cu_fields upd"] assms(2,5) only_sends_simps(5,7) [OF plan(2)]
    by simp
qed


lemma edit_messages_shown:
  assumes "handle_messages env c (edit_messages seqs indices xs) cm = (Inr (), cm')" "holder cm = Some c"
    and "shows_commands (snd (cm_active_command_set cm)) inputs" "2 \<le> length (snd (cm_active_command_set cm))"
    and "length seqs = length indices" "\<forall>idx \<in> set indices. idx < 8"
  shows "shows_commands (snd (cm_active_command_set cm')) (fold (\<lambda>idx ys. ys[idx := xs ! idx]) indices inputs)"
  using assms
proof (induction indices arbitrary: seqs cm inputs)
  case Nil
  then show ?case by (simp add: edit_messages_def ok_def)
next
  case (Cons idx indices)
  from Cons.prems(5) obtain seq seqs' where seqs: "seqs = seq # seqs'" "length seqs' = length indices"
    by (cases seqs) auto
  let ?upd = "\<lparr>cu_index = idx div 4, cu_fields = input_fields idx xs\<rparr>"
  have "and_then (handle_message env c (UpdateCommand seq ?upd))
      (handle_messages env c (edit_messages seqs' indices xs)) cm = (Inr (), cm')"
    using Cons.prems(1) by (simp add: seqs edit_messages_def)
  then obtain cm1 where first: "handle_message env c (UpdateCommand seq ?upd) cm = (Inr (), cm1)"
    and rest: "handle_messages env c (edit_messages seqs' indices xs) cm1 = (Inr (), cm')"
    by (auto simp: and_then_def split: prod.splits sum.splits)
  have idx: "idx < 8" "idx div 4 < 2" using Cons.prems(6) by auto
  have shown: "shows_commands (snd (cm_active_command_set cm1)) (inputs[idx := xs ! idx])"
    "length (snd (cm_active_command_set cm1)) = length (snd (cm_active_command_set cm))" "holder cm1 = Some c"
    using update_message_shown [OF first Cons.prems(2,3)] Cons.prems(4) idx(2)
      set_inputs_field [OF idx(1), of xs inputs] by simp_all
  from Cons.IH [OF rest shown(3,1) _ seqs(2)] Cons.prems(4,6) shown(2) show ?case by simp
qed

text \<open>
  C25: an edit with the arrow keys keeps terminal and core in step: if the terminal shows the two
  active commands and has the write access, then the value it sets is within the limit, the start
  position is not past the end position after an edit of either, and when the core has handled the
  messages that the edit sends, the terminal again shows the active commands.
\<close>

theorem terminal_edit_in_step:
  assumes "update_input p delta large app = Some app'" "has_write_access app" "app_input_index app < 8"
    and "shows_commands (snd (cm_active_command_set cm)) (app_inputs app)"
    and "2 \<le> length (snd (cm_active_command_set cm))" "holder cm = Some c"
  shows "0 \<le> sint (app_inputs app' ! app_input_index app) \<and>
    sint (app_inputs app' ! app_input_index app) \<le> input_limit app \<and>
    (app_input_index app \<in> {0, 4} \<longrightarrow> sint (app_inputs app' ! 0) \<le> sint (app_inputs app' ! 4)) \<and>
    (\<exists>ms. app_sent app' = app_sent app @ map Some ms \<and>
      (\<forall>env cm'. handle_messages env c ms cm = (Inr (), cm') \<longrightarrow>
        shows_commands (snd (cm_active_command_set cm')) (app_inputs app')))"
proof -
  have len: "length (app_inputs app) = 8"
    using assms(4) by (simp add: shows_commands_def)
  from assms(1,2) len assms(3) obtain x affected seqs where x: "0 \<le> x" "x \<le> input_limit app"
    and push: "push_position (app_input_index app) ((app_inputs app)[app_input_index app := as_i32 x]) =
      (app_inputs app', app_input_index app # affected)"
    and sent: "length seqs = Suc (length affected)" "app_sent app' = app_sent app @
      map Some (edit_messages seqs (app_input_index app # affected) (app_inputs app'))"
    by (rule update_input_cases)
  let ?i = "app_input_index app"
  have pushed: "fold (\<lambda>idx xs. xs[idx := app_inputs app' ! idx]) (?i # affected)
      ((app_inputs app)[?i := as_i32 x]) = app_inputs app'"
    "\<forall>idx \<in> set (?i # affected). idx < 8" "app_inputs app' ! ?i = as_i32 x"
    "?i \<in> {0, 4} \<longrightarrow> sint (app_inputs app' ! 0) \<le> sint (app_inputs app' ! 4)"
    using push_position_sets [OF push] len assms(3) by simp_all
  have "input_limit app \<le> 2147483647"
    using sint_i32_range(2) by (auto simp: input_limit_def Let_def split: option.split)
  with x have val: "sint (app_inputs app' ! ?i) = x"
    by (simp add: pushed(3))
  have fold: "fold (\<lambda>idx ys. ys[idx := app_inputs app' ! idx]) (?i # affected) (app_inputs app) = app_inputs app'"
    using pushed(1) by simp
  have "shows_commands (snd (cm_active_command_set cm')) (app_inputs app')"
    if "handle_messages env c (edit_messages seqs (?i # affected) (app_inputs app')) cm = (Inr (), cm')" for env cm'
    using edit_messages_shown [OF that assms(6,4,5)] sent(1) pushed(2) fold by simp
  with val x pushed(4) sent(2) show ?thesis by auto
qed


definition example_app :: App where
  "example_app = App_new\<lparr>app_inputs := concat (map command_inputs example_active),
     app_limits := Some example_limits, app_my_id := Some (WebSocket 3),
     app_state := Some (CoreState_default\<lparr>cs_write_access_holder := Some (WebSocket 3)\<rparr>)\<rparr>"

lemma example_edit:
  "has_write_access example_app" "app_input_index example_app < 8"
  "shows_commands example_active (app_inputs example_app)"
  "\<exists>app'. update_input Debug 1 False example_app = Some app' \<and>
    app_inputs app' ! 0 = 101000 \<and> app_inputs app' ! 4 = 101000"
proof -
  note defs = example_app_def App_new_def example_active_def example_commands_def command_inputs_def
    has_write_access_def app_holder_def
  show "has_write_access example_app" "app_input_index example_app < 8"
    by (simp_all add: defs)
  show "shows_commands example_active (app_inputs example_app)"
    by (simp add: defs shows_commands_def)
  show "\<exists>app'. update_input Debug 1 False example_app = Some app' \<and>
      app_inputs app' ! 0 = 101000 \<and> app_inputs app' ! 4 = 101000"
    by (simp add: defs update_input_def Let_def arith_i32_def ord_clamp_def input_limit_def
        example_limits_def push_position_def as_i32_def app_send_def next_seq_def arith_u64_def)
qed

theorem terminal_edit_in_step_witness:
  "\<exists>cm cm' app' ms. snd (cm_active_command_set cm) = example_active \<and>
    update_input Debug 1 False example_app = Some app' \<and>
    app_inputs app' ! 0 = 101000 \<and> app_inputs app' ! 4 = 101000 \<and>
    app_sent app' = app_sent example_app @ map Some ms \<and>
    handle_messages example_env (WebSocket 3) ms cm = (Inr (), cm') \<and>
    shows_commands (snd (cm_active_command_set cm')) (app_inputs app')"
proof -
  obtain cm where cm: "cm_websocket_server cm" "snd (cm_active_command_set cm) = example_active"
    "holder cm = Some (WebSocket 3)" "cm_limits cm = example_limits"
    using example_published by blast
  obtain app' where edit: "update_input Debug 1 False example_app = Some app'"
    "app_inputs app' ! 0 = 101000" "app_inputs app' ! 4 = 101000"
    using example_edit(4) by blast
  have "\<exists>cm'. handle_messages example_env (WebSocket 3) ms cm = (Inr (), cm')" for ms
    using handle_messages_total [of example_env example_limits cm "WebSocket 3" ms] cm(1,4) example_hid_ok(1)
    by (auto simp: example_env_def receivers_alive_def has_transport_def)
  with terminal_edit_in_step [OF edit(1) example_edit(1,2), of cm "WebSocket 3"] example_edit(3)
    cm(2,3) length_example_active edit
  show ?thesis by (metis order_refl)
qed


subsection \<open>Keys without the write access\<close>

text \<open>Without an open dialog they change nothing, and only ask for the access.\<close>

lemma track_repeat_keeps:
  "track_repeat p now code app = Some app' \<Longrightarrow> \<exists>n k. app' = app\<lparr>app_repeat_count := n, app_last_key := k\<rparr>"
  by (auto simp: track_repeat_def)

lemma keys_need_access:
  assumes "handle_key_event p now key app = Some app'" "app_dialog app = None" "\<not> has_write_access app"
  shows "app_inputs app' = app_inputs app \<and> (app_sent app' = app_sent app \<or>
    (\<exists>seq. app_sent app' = app_sent app @ [Some (RequestWriteAccess seq)]))"
proof -
  obtain n k where tracked: "track_repeat p now (key_code key) app = Some (app\<lparr>app_repeat_count := n, app_last_key := k\<rparr>)"
    using assms(1,2) track_repeat_keeps by (fastforce simp: handle_key_event_def split: option.splits)
  have "\<not> has_write_access (app\<lparr>app_repeat_count := n, app_last_key := k\<rparr>)"
    using assms(3) by (simp add: has_write_access_def)
  with assms(1,2) tracked show ?thesis
    by (cases "key_code key")
      (auto simp: handle_key_event_def handle_char_def app_send_def next_seq_def Let_def split: if_splits)
qed

text \<open>
  A dialog that is open when the access is lost is still applied: the inputs change, and commands are
  sent that the core refuses, so that the terminal shows values that the core does not have.
\<close>

definition example_dialog_app :: App where
  "example_dialog_app = example_app\<lparr>
     app_state := Some (CoreState_default\<lparr>cs_write_access_holder := Some (WebSocket 5)\<rparr>),
     app_dialog := Some \<lparr>dlg_input = [53, 48], dlg_targets = dialog_targets 0, dlg_selected_row = 0\<rparr>\<rparr>"

lemma example_typed:
  "parse_f64 (trim [53, 48]) = Some (f64_decimal 50 1)" "dialog_targets 0 = [(0, True), (4, False)]"
proof -
  show "parse_f64 (trim [53, 48]) = Some (f64_decimal 50 1)"
    by (simp add: trim_def is_whitespace_def parse_f64_def lower_def parse_number_def codepoint_digit_def
        parse_exponent_def digits_value_def f64_scaled_def f64_decimal_def)
  have "[0..<8] = [0, 1, 2, 3, 4, 5, 6, 7 :: nat]"
    by (simp add: upt_conv_Cons)
  then show "dialog_targets 0 = [(0, True), (4, False)]"
    by (simp add: dialog_targets_def)
qed

lemma dialog_outlives_access:
  "\<exists>app' cmds. \<not> has_write_access example_dialog_app \<and>
    handle_key_event Debug 0 \<lparr>key_code = KeyEnter, key_kind = KeyPress, key_control = False\<rparr>
      example_dialog_app = Some app' \<and>
    app_sent app' = app_sent example_dialog_app @ [Some (UpsertCommandSet 1 None None cmds)] \<and>
    app_inputs app' ! 0 = 500000 \<and> app_inputs example_dialog_app ! 0 = 100000"
  by (simp add: example_dialog_app_def example_app_def App_new_def example_active_def example_commands_def
      command_inputs_def has_write_access_def app_holder_def handle_key_event_def handle_dialog_key_def
      apply_dialog_def send_inputs_def app_send_def next_seq_def arith_u64_def example_typed
      clamp_input_def f64_clamp_def example_limits_def raw_input_def f64_conversions
      f64_computes f64_of_int_def as_i32_def)

end
