(* ===== verification/QuantityText.thy ===== *)
theory QuantityText
  imports Units Float64
begin

text \<open>
  The \<open>Debug\<close> texts of the quantities (\<open>fmt_scaled\<close> in \<open>linmot/src/mci/units.rs\<close>): the value in
  the first unit in which it is at least 1, with at most three decimals.  A text is its UTF-8 bytes.
\<close>

subsection \<open>Decimal texts\<close>

definition digit_char :: "nat \<Rightarrow> char" where
  "digit_char n = ''0123456789'' ! n"

fun decimal_digits :: "nat \<Rightarrow> string" where
  "decimal_digits n =
     (if n < 10 then [digit_char n] else decimal_digits (n div 10) @ [digit_char (n mod 10)])"

declare decimal_digits.simps [simp del]

text \<open>\<open>format!("{v:.3}")\<close>: the exact value, rounded half to even.\<close>

definition three_digits :: "nat \<Rightarrow> string" where
  "three_digits n = [digit_char (n div 100 mod 10), digit_char (n div 10 mod 10), digit_char (n mod 10)]"

fun format_3 :: "f64 \<Rightarrow> string" where
  "format_3 NaN = ''NaN''"
| "format_3 (Infinite neg) = (if neg then ''-inf'' else ''inf'')"
| "format_3 (Finite neg m e) =
     (let n = round_half_even (m * 1000 * 2 ^ nat e) (2 ^ nat (- e)) in
      (if neg then ''-'' else []) @ decimal_digits (n div 1000) @ ''.'' @ three_digits (n mod 1000))"

definition trim_end_matches :: "char \<Rightarrow> string \<Rightarrow> string" where
  "trim_end_matches c s = rev (dropWhile (\<lambda>x. x = c) (rev s))"

subsection \<open>Scaled values\<close>

text \<open>\<open>x >= 1.0\<close>.\<close>

fun f64_ge_1 :: "f64 \<Rightarrow> bool" where
  "f64_ge_1 (Finite neg m e) \<longleftrightarrow> \<not> neg \<and> 2 ^ nat (- e) \<le> m * 2 ^ nat e"
| "f64_ge_1 (Infinite neg) \<longleftrightarrow> \<not> neg"
| "f64_ge_1 NaN \<longleftrightarrow> False"

fun choose_unit :: "f64 \<Rightarrow> (string \<times> f64) list \<Rightarrow> string \<times> f64 \<Rightarrow> string \<times> f64" where
  "choose_unit x [] chosen = chosen"
| "choose_unit x ((u, scale) # units) chosen =
     (if f64_ge_1 (f64_div x scale) then (u, scale) else choose_unit x units chosen)"

text \<open>\<open>units\<close> is not empty in any call.\<close>

definition fmt_scaled :: "f64 \<Rightarrow> (string \<times> f64) list \<Rightarrow> string" where
  "fmt_scaled value units =
     (let (u, scale) = choose_unit (f64_abs value) units (last units) in
      trim_end_matches CHR ''.'' (trim_end_matches CHR ''0'' (format_3 (f64_div value scale))) @ u)"

text \<open>The literals \<open>1e-n\<close> and the names of the units, with micro, square, cube and degree in UTF-8.\<close>

definition e_minus :: "nat \<Rightarrow> f64" where
  "e_minus n = f64_decimal 1 (10 ^ n)"

definition metric_units :: "string \<Rightarrow> (string \<times> f64) list" where
  "metric_units u = [(u, f64_from 1), (''m'' @ u, e_minus 3), ([CHR 0xCE, CHR 0xBC] @ u, e_minus 6)]"

definition Position_debug :: "Position \<Rightarrow> string" where
  "Position_debug x = fmt_scaled (f64_mul (f64_of_int (sint (position_0 x))) (e_minus 7)) (metric_units ''m'')"

definition Velocity_debug :: "Velocity \<Rightarrow> string" where
  "Velocity_debug x =
     fmt_scaled (f64_mul (f64_of_int (sint (velocity_0 x))) (e_minus 6)) (metric_units ''m/s'')"

definition Acceleration_debug :: "Acceleration \<Rightarrow> string" where
  "Acceleration_debug x =
     fmt_scaled (f64_mul (f64_of_int (sint (acceleration_0 x))) (e_minus 5))
       (metric_units (''m/s'' @ [CHR 0xC2, CHR 0xB2]))"

definition Jerk_debug :: "Jerk \<Rightarrow> string" where
  "Jerk_debug x =
     fmt_scaled (f64_mul (f64_of_int (sint (jerk_0 x))) (e_minus 4))
       (metric_units (''m/s'' @ [CHR 0xC2, CHR 0xB3]))"

definition Current_debug :: "Current \<Rightarrow> string" where
  "Current_debug x =
     fmt_scaled (f64_of_int (sint (current_0 x))) [(''A'', f64_from 1000), (''mA'', f64_from 1)]"

definition DriveTemperature_debug :: "DriveTemperature \<Rightarrow> string" where
  "DriveTemperature_debug x =
     fmt_scaled (f64_div (f64_of_int (sint (drive_temperature_0 x))) (f64_from 10))
       [([CHR 0xC2, CHR 0xB0, CHR ''C''], f64_from 1)]"

definition MotorTemperature_debug :: "MotorTemperature \<Rightarrow> string" where
  "MotorTemperature_debug x =
     fmt_scaled
       (f64_add (Finite True 50 0)
         (f64_mul (f64_of_int (sint (motor_temperature_0 x))) (f64_div (f64_from 50) (f64_from 51))))
       [([CHR 0xC2, CHR 0xB0, CHR ''C''], f64_from 1)]"

lemmas quantity_texts = Position_debug_def Velocity_debug_def Acceleration_debug_def Jerk_debug_def
  Current_debug_def DriveTemperature_debug_def MotorTemperature_debug_def

end
