(* ===== verification/TerminalDrawing.thy ===== *)
theory TerminalDrawing
  imports TerminalClient QuantityText
begin

text \<open>
  What the terminal client draws (\<open>draw\<close> and its parts in \<open>src/bin/puddle-cli.rs\<close>): the widgets of a
  frame, in their order, with the areas they are drawn to.  How a layout splits an area is the
  matter of the library (\<open>ratatui\<close>) and an argument, and so is what a widget looks like.  \<open>None\<close> is a
  panic.  A text is a string of UTF-8 bytes.  In every state that the client can reach, drawing does
  not panic.
\<close>

subsection \<open>Widgets\<close>

datatype direction = Horizontal | Vertical
datatype constraint = Length_constraint nat | Min_constraint nat | Percentage_constraint nat

record 'r layout_api =
  la_split :: "direction \<Rightarrow> constraint list \<Rightarrow> 'r \<Rightarrow> 'r list"
  la_inner :: "'r \<Rightarrow> 'r" \<comment> \<open>the area within a border\<close>
  la_height :: "'r \<Rightarrow> nat"
  la_width :: "'r \<Rightarrow> nat"

datatype color = Yellow | Cyan | Red | Rgb nat nat nat

record style =
  sy_fg :: "color option"
  sy_bold :: bool

definition plain :: style where
  "plain = \<lparr>sy_fg = None, sy_bold = False\<rparr>"

definition fg :: "color \<Rightarrow> style" where
  "fg c = plain\<lparr>sy_fg := Some c\<rparr>"

text \<open>A paragraph has lines of styled spans; a block around it has a title, or is only a line above it.\<close>

datatype block = NoBlock | Bordered string | BorderTop

datatype widget =
    ClearWidget
  | BlockWidget string
  | Paragraph "(string \<times> style) list list" block
  | ParagraphRight string
  | ParagraphWrapped "(string \<times> style) list list" string
  | ListWidget "(string \<times> style) list" string
  | LineGauge f64 style style \<comment> \<open>the ratio, and the styles of the two parts\<close>

type_synonym 'r drawing = "(widget \<times> 'r) list"

text \<open>\<open>xs[i]\<close>.\<close>

definition nth_checked :: "'a list \<Rightarrow> nat \<Rightarrow> 'a option" where
  "nth_checked xs i = (if i < length xs then Some (xs ! i) else None)"

text \<open>\<open>LineGauge::ratio\<close> asserts that the ratio is between 0 and 1.\<close>

definition line_gauge :: "f64 \<Rightarrow> style \<Rightarrow> style \<Rightarrow> widget option" where
  "line_gauge ratio filled unfilled =
     (if ratio = NaN \<or> f64_less ratio (f64_from 0) \<or> f64_less (f64_from 1) ratio then None
      else Some (LineGauge ratio filled unfilled))"

definition utf8_char :: "nat \<Rightarrow> string" where
  "utf8_char c = map char_of
     (if c < 0x80 then [c]
      else if c < 0x800 then [0xC0 + c div 0x40, 0x80 + c mod 0x40]
      else if c < 0x10000 then [0xE0 + c div 0x1000, 0x80 + c div 0x40 mod 0x40, 0x80 + c mod 0x40]
      else [0xF0 + c div 0x40000, 0x80 + c div 0x1000 mod 0x40, 0x80 + c div 0x40 mod 0x40, 0x80 + c mod 0x40])"

definition input_labels :: "string list" where
  "input_labels =
     [''Start Position'', ''Start Velocity'', ''Start Acceleration'', ''Start Deceleration'',
      ''  End Position'', ''  End Velocity'', ''  End Acceleration'', ''  End Deceleration'']"

subsection \<open>The dialog\<close>

definition centered_rect :: "'r layout_api \<Rightarrow> nat \<Rightarrow> nat \<Rightarrow> 'r \<Rightarrow> 'r option" where
  "centered_rect la width height r = do {
     middle \<leftarrow> nth_checked (la_split la Vertical
       [Length_constraint ((la_height la r - height) div 2), Length_constraint height, Min_constraint 0] r) 1;
     nth_checked (la_split la Horizontal
       [Length_constraint ((la_width la r - width) div 2), Length_constraint width, Min_constraint 0] middle) 1
   }"

text \<open>The rows of the list, numbered from 1: row 0 is the value.\<close>

fun dialog_items :: "nat \<Rightarrow> nat \<Rightarrow> (nat \<times> bool) list \<Rightarrow> (string \<times> style) list option" where
  "dialog_items selected row [] = Some []"
| "dialog_items selected row ((input_idx, checked) # targets) = do {
     label \<leftarrow> nth_checked input_labels input_idx;
     items \<leftarrow> dialog_items selected (row + 1) targets;
     Some (((if checked then ''[x]'' else ''[ ]'') @ '' '' @ label,
       if selected = row then fg Yellow else plain) # items)
   }"

definition draw_dialog :: "'r layout_api \<Rightarrow> App \<Rightarrow> InputDialog \<Rightarrow> 'r \<Rightarrow> 'r drawing option" where
  "draw_dialog la app dialog left = do {
     area \<leftarrow> centered_rect la 40 15 left;
     let chunks = la_split la Vertical [Length_constraint 3, Min_constraint 0] (la_inner la area);
     let unit_name = (if app_input_index app mod 4 = 0 then ''mm''
       else if app_input_index app mod 4 = 1 then ''m/s'' else ''m/s'' @ utf8_char 0xB2);
     top \<leftarrow> nth_checked chunks 0;
     items \<leftarrow> dialog_items (dlg_selected_row dialog) 1 (dlg_targets dialog);
     bottom \<leftarrow> nth_checked chunks 1;
     Some [(ClearWidget, area), (BlockWidget '' Set Value '', area),
       (Paragraph [[(unit_name @ '': '' @ concat (map utf8_char (dlg_input dialog)) @ utf8_char 0x2588,
          if dlg_selected_row dialog = 0 then fg Yellow else plain)]] (Bordered '' Value ''), top),
       (ListWidget items '' Apply To '', bottom)]
   }"

subsection \<open>The inputs\<close>

definition quantity_text :: "nat \<Rightarrow> i32 \<Rightarrow> string" where
  "quantity_text k x =
     (if k = 0 then Position_debug (Position x) else if k = 1 then Velocity_debug (Velocity x)
      else Acceleration_debug (Acceleration x))"

definition limit_of_kind :: "SystemLimits \<Rightarrow> nat \<Rightarrow> i32" where
  "limit_of_kind limits k =
     (if k = 0 then position_0 (limit_position limits) else if k = 1 then velocity_0 (limit_velocity limits)
      else if k = 2 then acceleration_0 (limit_acceleration limits)
      else acceleration_0 (limit_deceleration limits))"

text \<open>The text of the limit, if it is known, and the part of it that the input is.\<close>

definition limit_info :: "SystemLimits option \<Rightarrow> nat \<Rightarrow> i32 \<Rightarrow> (string option \<times> f64) option" where
  "limit_info limits k x =
     (case limits of
        None \<Rightarrow> Some (None, f64_from 0)
      | Some limits \<Rightarrow>
          let limit = limit_of_kind limits k in
          map_option (Pair (Some (quantity_text k limit)))
            (if 0 < sint limit
             then f64_clamp (f64_div (f64_of_int (sint x)) (f64_of_int (sint limit))) (f64_from 0) (f64_from 1)
             else Some (f64_from 0)))"

definition draw_input_line ::
    "'r layout_api \<Rightarrow> bool \<Rightarrow> style \<Rightarrow> style \<Rightarrow> string \<Rightarrow> string \<Rightarrow> string option \<Rightarrow> f64 \<Rightarrow> 'r \<Rightarrow> 'r drawing option"
where
  "draw_input_line la selected filled unfilled label val limit ratio area = do {
     let row = la_split la Horizontal [Length_constraint 2, Length_constraint 20, Length_constraint 12,
       Min_constraint 0, Length_constraint 12, Length_constraint 1] area;
     marker \<leftarrow> (if selected then map_option (\<lambda>r. [(Paragraph [[(utf8_char 0x25B6, filled)]] NoBlock, r)]) (nth_checked row 0)
       else Some []);
     r1 \<leftarrow> nth_checked row 1;
     r2 \<leftarrow> nth_checked row 2;
     gauge \<leftarrow> (case limit of
         None \<Rightarrow> Some []
       | Some text \<Rightarrow> do {
           g \<leftarrow> line_gauge ratio filled unfilled;
           r3 \<leftarrow> nth_checked row 3;
           r4 \<leftarrow> nth_checked row 4;
           Some [(g, r3), (ParagraphRight text, r4)]
         });
     Some (marker @ [(Paragraph [[(label, filled)]] NoBlock, r1), (Paragraph [[(val, filled)]] NoBlock, r2)] @ gauge)
   }"

definition draw_input_lines ::
    "'r layout_api \<Rightarrow> bool \<Rightarrow> style \<Rightarrow> style \<Rightarrow> string \<Rightarrow> string \<Rightarrow> string option \<Rightarrow> f64 \<Rightarrow> 'r \<Rightarrow> 'r drawing option"
where
  "draw_input_lines la selected filled unfilled label val limit ratio area = do {
     let lines = la_split la Vertical [Length_constraint 1, Length_constraint 1] area;
     line0 \<leftarrow> nth_checked lines 0;
     let row = la_split la Horizontal [Length_constraint 2, Length_constraint 20, Length_constraint 12,
       Min_constraint 0, Length_constraint 1] line0;
     marker \<leftarrow> (if selected then map_option (\<lambda>r. [(Paragraph [[(utf8_char 0x25B6, filled)]] NoBlock, r)]) (nth_checked row 0)
       else Some []);
     r1 \<leftarrow> nth_checked row 1;
     r2 \<leftarrow> nth_checked row 2;
     gauge \<leftarrow> (case limit of
         None \<Rightarrow> Some []
       | Some text \<Rightarrow> do {
           r3 \<leftarrow> nth_checked row 3;
           line1 \<leftarrow> nth_checked lines 1;
           g \<leftarrow> line_gauge ratio filled unfilled;
           r \<leftarrow> nth_checked (la_split la Horizontal
             [Length_constraint 1, Min_constraint 0, Length_constraint 1] line1) 1;
           Some [(ParagraphRight text, r3), (g, r)]
         });
     Some (marker @ [(Paragraph [[(label, filled)]] NoBlock, r1), (Paragraph [[(val, filled)]] NoBlock, r2)] @ gauge)
   }"

definition draw_input :: "'r layout_api \<Rightarrow> App \<Rightarrow> nat \<Rightarrow> 'r list \<Rightarrow> nat \<Rightarrow> 'r drawing option" where
  "draw_input la app input_height chunks i = do {
     let selected = (i = app_input_index app);
     let filled = (if selected then (fg Yellow)\<lparr>sy_bold := True\<rparr> else fg Cyan);
     let unfilled = (if selected then fg (Rgb 64 64 0) else fg (Rgb 0 32 32));
     x \<leftarrow> nth_checked (app_inputs app) i;
     (limit, ratio) \<leftarrow> limit_info (app_limits app) (i mod 4) x;
     label \<leftarrow> nth_checked input_labels i;
     area \<leftarrow> nth_checked chunks i;
     (if input_height = 1 then draw_input_line else draw_input_lines)
       la selected filled unfilled label (quantity_text (i mod 4) x) limit ratio area
   }"

fun draw_each :: "(nat \<Rightarrow> 'r drawing option) \<Rightarrow> nat list \<Rightarrow> 'r drawing option" where
  "draw_each f [] = Some []"
| "draw_each f (i # is) = do { ws \<leftarrow> f i; rest \<leftarrow> draw_each f is; Some (ws @ rest) }"

definition draw_inputs :: "'r layout_api \<Rightarrow> App \<Rightarrow> 'r \<Rightarrow> 'r drawing option" where
  "draw_inputs la app area = do {
     inner \<leftarrow> nth_checked (la_split la Vertical [Length_constraint 1, Min_constraint 0] (la_inner la area)) 1;
     let input_height = (if 16 \<le> la_height la inner then 2 else 1);
     let chunks = la_split la Vertical (replicate 8 (Length_constraint input_height)) inner;
     rows \<leftarrow> draw_each (draw_input la app input_height chunks) [0, 1, 2, 3, 4, 5, 6, 7];
     Some ((BlockWidget '' Inputs (Up/Down Select, Left/Right Adjust, Space Set Value) '', area) # rows)
   }"

subsection \<open>The state of the drive\<close>

fun join :: "string \<Rightarrow> string list \<Rightarrow> string" where
  "join sep [] = []"
| "join sep [s] = s"
| "join sep (s # ss) = s @ sep @ join sep ss"

definition bold :: "color \<Rightarrow> style" where
  "bold c = (fg c)\<lparr>sy_bold := True\<rparr>"

definition draw_status :: "App \<Rightarrow> 'r \<Rightarrow> 'r drawing" where
  "draw_status app area =
     (case app_state app of
        None \<Rightarrow> []
      | Some state \<Rightarrow>
          let status_lines =
            (case cs_error_code state of None \<Rightarrow> [] | Some e \<Rightarrow> [[(''ERROR: '', bold Red), (e, fg Red)]]) @
            (if cs_warnings state = [] then []
             else [[(''WARNINGS: '', bold Yellow), (join '', '' (cs_warnings state), fg Yellow)]]) in
          if status_lines = [] then [] else [(ParagraphWrapped status_lines '' Status '', area)])"

definition draw_left :: "'r layout_api \<Rightarrow> App \<Rightarrow> 'r \<Rightarrow> 'r drawing option" where
  "draw_left la app area = do {
     let status_height = (case app_state app of
         None \<Rightarrow> 0
       | Some state \<Rightarrow> if cs_warnings state \<noteq> [] \<or> cs_error_code state \<noteq> None then 4 else 0);
     let chunks = la_split la Vertical [Min_constraint 0, Length_constraint status_height] area;
     top \<leftarrow> nth_checked chunks 0;
     inputs \<leftarrow> draw_inputs la app top;
     status \<leftarrow> (if 0 < status_height then map_option (draw_status app) (nth_checked chunks 1) else Some []);
     Some (inputs @ status)
   }"

fun DriveState_debug :: "DriveState \<Rightarrow> string" where
  "DriveState_debug Disconnected = ''Disconnected''"
| "DriveState_debug Off = ''Off''"
| "DriveState_debug Preparing = ''Preparing''"
| "DriveState_debug Paused = ''Paused''"
| "DriveState_debug Moving = ''Moving''"
| "DriveState_debug Errored = ''Errored''"

definition holder_text :: "App \<Rightarrow> CoreState \<Rightarrow> string" where
  "holder_text app state =
     (case cs_write_access_holder state of
        None \<Rightarrow> ''None''
      | Some h \<Rightarrow> ControllerId_to_string h @ (if Some h = app_my_id app then '' (Me)'' else []))"

definition lines_of :: "string list \<Rightarrow> widget" where
  "lines_of ls = Paragraph (map (\<lambda>l. [(l, plain)]) ls) NoBlock"

definition draw_right :: "'r layout_api \<Rightarrow> App \<Rightarrow> 'r \<Rightarrow> 'r drawing option" where
  "draw_right la app area = do {
     inner \<leftarrow> nth_checked (la_split la Vertical [Length_constraint 1, Min_constraint 0] (la_inner la area)) 1;
     rest \<leftarrow> (case app_state app of
         None \<Rightarrow> Some [(lines_of [''  Connecting...''], inner)]
       | Some state \<Rightarrow> do {
           let main_chunks = la_split la Vertical [Min_constraint 0, Length_constraint 4] inner;
           top \<leftarrow> nth_checked main_chunks 0;
           let telemetry = la_split la Horizontal [Percentage_constraint 50, Percentage_constraint 50] top;
           t0 \<leftarrow> nth_checked telemetry 0;
           t1 \<leftarrow> nth_checked telemetry 1;
           bottom \<leftarrow> nth_checked main_chunks 1;
           Some [(lines_of
               [''  Drive State: '' @ DriveState_debug (cs_drive_state state),
                ''   Actual Pos: '' @ Position_debug (cs_actual_position state),
                ''   Demand Pos: '' @ Position_debug (cs_demand_position state),
                ''     Velocity: '' @ Velocity_debug (cs_demand_velocity state),
                ''        Accel: '' @ Acceleration_debug (cs_demand_acceleration state)], t0),
             (lines_of
               [''  Active Cmd: '' @ decimal_digits (cs_active_command_index state),
                ''     Current: '' @ Current_debug (cs_current_draw state),
                ''  Drive Temp: '' @ DriveTemperature_debug (cs_drive_temperature state),
                ''  Motor Temp: '' @ MotorTemperature_debug (cs_motor_temperature state),
                ''      Holder: '' @ holder_text app state], t1),
             (Paragraph
               [[('' [W] Write Access   [P] Toggle Power  [R] Reset Inputs'', plain)],
                [('' [M] Motion Toggle  [A] Ack Error     [Q] Quit'', plain)]] BorderTop, bottom)]
         });
     Some ((BlockWidget '' Drive State '', area) # rest)
   }"

definition draw :: "'r layout_api \<Rightarrow> App \<Rightarrow> 'r \<Rightarrow> 'r drawing option" where
  "draw la app area = do {
     let chunks = la_split la Horizontal [Min_constraint 0, Length_constraint 58] area;
     c0 \<leftarrow> nth_checked chunks 0;
     left \<leftarrow> draw_left la app c0;
     c1 \<leftarrow> nth_checked chunks 1;
     right \<leftarrow> draw_right la app c1;
     dialog \<leftarrow> (case app_dialog app of
         None \<Rightarrow> Some []
       | Some dialog \<Rightarrow> draw_dialog la app dialog c0);
     Some (left @ right @ dialog)
   }"

subsection \<open>Drawing does not panic\<close>

text \<open>What the documentation of the library says: an area is split into one part per constraint.\<close>

definition split_ok :: "'r layout_api \<Rightarrow> bool" where
  "split_ok la \<longleftrightarrow> (\<forall>d cs r. length (la_split la d cs r) = length cs)"

definition app_ok :: "App \<Rightarrow> bool" where
  "app_ok app \<longleftrightarrow> length (app_inputs app) = 8 \<and> app_input_index app < 8 \<and>
     pred_option (\<lambda>dialog. list_all (\<lambda>(i, _). i < 8) (dlg_targets dialog)) (app_dialog app)"

lemma nth_checked_Some [simp]: "i < length xs \<Longrightarrow> nth_checked xs i = Some (xs ! i)"
  by (simp add: nth_checked_def)

lemma split_ok_length [simp]: "split_ok la \<Longrightarrow> length (la_split la d cs r) = length cs"
  by (simp add: split_ok_def)

lemma length_input_labels [simp]: "length input_labels = 8"
  by (simp add: input_labels_def)

lemma limit_info_ratio:
  "\<exists>limit ratio. limit_info limits k x = Some (limit, ratio) \<and> (\<exists>w. line_gauge ratio filled unfilled = Some w)"
proof (cases limits)
  case None
  then show ?thesis
    by (simp add: limit_info_def line_gauge_def f64_from_def signed_magnitude_def)
next
  case (Some l)
  let ?limit = "sint (limit_of_kind l k)"
  have "f64_div (f64_of_int (sint x)) (f64_of_int ?limit) \<noteq> NaN" if "0 < ?limit"
    using that by (auto simp: f64_of_int_def f64_rounded_def split: prod.split)
  with Some show ?thesis
    by (auto simp: limit_info_def line_gauge_def f64_clamp_def f64_from_def signed_magnitude_def Let_def)
qed

lemma draw_input_shows:
  assumes "split_ok la" "app_ok app" "i < 8" "length chunks = 8"
  shows "\<exists>ws r style. draw_input la app h chunks i = Some ws \<and>
    (Paragraph [[(quantity_text (i mod 4) (app_inputs app ! i), style)]] NoBlock, r) \<in> set ws"
proof -
  let ?selected = "i = app_input_index app"
  let ?filled = "if ?selected then (fg Yellow)\<lparr>sy_bold := True\<rparr> else fg Cyan"
  let ?unfilled = "if ?selected then fg (Rgb 64 64 0) else fg (Rgb 0 32 32)"
  obtain limit ratio w where info: "limit_info (app_limits app) (i mod 4) (app_inputs app ! i) = Some (limit, ratio)"
    "line_gauge ratio ?filled ?unfilled = Some w"
    using limit_info_ratio by blast
  have "\<exists>ws r. draw_input_line la ?selected ?filled ?unfilled (input_labels ! i)
      (quantity_text (i mod 4) (app_inputs app ! i)) limit ratio area = Some ws \<and>
    (Paragraph [[(quantity_text (i mod 4) (app_inputs app ! i), ?filled)]] NoBlock, r) \<in> set ws"
    "\<exists>ws r. draw_input_lines la ?selected ?filled ?unfilled (input_labels ! i)
      (quantity_text (i mod 4) (app_inputs app ! i)) limit ratio area = Some ws \<and>
    (Paragraph [[(quantity_text (i mod 4) (app_inputs app ! i), ?filled)]] NoBlock, r) \<in> set ws" for area
    using assms(1) info(2) by (cases limit; auto simp: draw_input_line_def draw_input_lines_def Let_def)+
  then obtain ws r ws' r' where
    "draw_input_line la ?selected ?filled ?unfilled (input_labels ! i)
      (quantity_text (i mod 4) (app_inputs app ! i)) limit ratio (chunks ! i) = Some ws"
    "(Paragraph [[(quantity_text (i mod 4) (app_inputs app ! i), ?filled)]] NoBlock, r) \<in> set ws"
    "draw_input_lines la ?selected ?filled ?unfilled (input_labels ! i)
      (quantity_text (i mod 4) (app_inputs app ! i)) limit ratio (chunks ! i) = Some ws'"
    "(Paragraph [[(quantity_text (i mod 4) (app_inputs app ! i), ?filled)]] NoBlock, r') \<in> set ws'"
    by metis
  moreover have "draw_input la app h chunks i = (if h = 1 then draw_input_line else draw_input_lines)
      la ?selected ?filled ?unfilled (input_labels ! i)
      (quantity_text (i mod 4) (app_inputs app ! i)) limit ratio (chunks ! i)"
    using info(1) assms(2-4) by (simp add: draw_input_def app_ok_def Let_def)
  ultimately show ?thesis
    by (cases "h = 1") (simp, blast)+
qed

lemma draw_each_shows:
  assumes "\<And>i. i \<in> set is \<Longrightarrow> \<exists>ws. f i = Some ws \<and> P i ws" "\<And>i ws ws'. P i ws \<Longrightarrow> set ws \<subseteq> set ws' \<Longrightarrow> P i ws'"
  shows "\<exists>ws. draw_each f is = Some ws \<and> (\<forall>i \<in> set is. P i ws)"
  using assms(1)
proof (induction "is")
  case (Cons i "is")
  obtain ws where ws: "f i = Some ws" "P i ws"
    using Cons.prems by force
  obtain rest where rest: "draw_each f is = Some rest" "\<forall>i \<in> set is. P i rest"
    using Cons.IH Cons.prems by force
  have "P j (ws @ rest)" if "j \<in> set (i # is)" for j
    using that ws(2) rest(2) assms(2) [of j _ "ws @ rest"] by auto
  with ws(1) rest(1) show ?case
    by auto
qed simp

text \<open>A value is shown in the drawing.\<close>

definition shows_text :: "string \<Rightarrow> 'r drawing \<Rightarrow> bool" where
  "shows_text text ws \<longleftrightarrow> (\<exists>style r. (Paragraph [[(text, style)]] NoBlock, r) \<in> set ws)"

lemma shows_text_mono: "shows_text text ws \<Longrightarrow> set ws \<subseteq> set ws' \<Longrightarrow> shows_text text ws'"
  unfolding shows_text_def by blast

lemma draw_inputs_shows:
  assumes "split_ok la" "app_ok app"
  shows "\<exists>ws. draw_inputs la app area = Some ws \<and>
    (\<forall>i < 8. shows_text (quantity_text (i mod 4) (app_inputs app ! i)) ws)"
proof -
  let ?inner = "la_split la Vertical [Length_constraint 1, Min_constraint 0] (la_inner la area) ! 1"
  let ?h = "if 16 \<le> la_height la ?inner then 2 else 1"
  let ?chunks = "la_split la Vertical (replicate 8 (Length_constraint ?h)) ?inner"
  have "\<exists>ws. draw_each (draw_input la app ?h ?chunks) [0, 1, 2, 3, 4, 5, 6, 7] = Some ws \<and>
      (\<forall>i \<in> set [0, 1, 2, 3, 4, 5, 6, 7]. shows_text (quantity_text (i mod 4) (app_inputs app ! i)) ws)"
  proof (rule draw_each_shows)
    fix i :: nat
    assume "i \<in> set [0, 1, 2, 3, 4, 5, 6, 7]"
    then have "i < 8" by auto
    with draw_input_shows [OF assms, of i ?chunks ?h] assms(1)
    show "\<exists>ws. draw_input la app ?h ?chunks i = Some ws \<and>
        shows_text (quantity_text (i mod 4) (app_inputs app ! i)) ws"
      unfolding shows_text_def by fastforce
  qed (rule shows_text_mono)
  then obtain ws where ws: "draw_each (draw_input la app ?h ?chunks) [0, 1, 2, 3, 4, 5, 6, 7] = Some ws"
    "\<forall>i \<in> set [0, 1, 2, 3, 4, 5, 6, 7]. shows_text (quantity_text (i mod 4) (app_inputs app ! i)) ws"
    by blast
  have "shows_text (quantity_text (i mod 4) (app_inputs app ! i)) ((w, area) # ws)" if "i < 8" for i w
  proof -
    have "i \<in> set [0, 1, 2, 3, 4, 5, 6, 7]" using that by auto
    with ws(2) show ?thesis using shows_text_mono by (metis set_subset_Cons)
  qed
  with ws(1) assms(1) show ?thesis
    by (simp add: draw_inputs_def Let_def del: draw_each.simps)
qed

lemma draw_left_shows:
  assumes "split_ok la" "app_ok app"
  shows "\<exists>ws. draw_left la app area = Some ws \<and>
    (\<forall>i < 8. shows_text (quantity_text (i mod 4) (app_inputs app ! i)) ws)"
proof -
  define h :: nat where "h = (case app_state app of None \<Rightarrow> 0
    | Some state \<Rightarrow> if cs_warnings state \<noteq> [] \<or> cs_error_code state \<noteq> None then 4 else 0)"
  let ?chunks = "la_split la Vertical [Min_constraint 0, Length_constraint h] area"
  obtain ws where ws: "draw_inputs la app (?chunks ! 0) = Some ws"
    "\<forall>i < 8. shows_text (quantity_text (i mod 4) (app_inputs app ! i)) ws"
    using draw_inputs_shows [OF assms] by blast
  define status where "status = (if 0 < h then draw_status app (?chunks ! 1) else [])"
  have "draw_left la app area = Some (ws @ status)"
    using ws(1) assms(1) by (simp add: draw_left_def h_def [symmetric] status_def Let_def)
  moreover have "shows_text (quantity_text (i mod 4) (app_inputs app ! i)) (ws @ status)" if "i < 8" for i
    using ws(2) that shows_text_mono [of _ ws "ws @ status"] by auto
  ultimately show ?thesis by blast
qed

lemma dialog_items_total:
  "list_all (\<lambda>(i, _). i < 8) targets \<Longrightarrow> \<exists>items. dialog_items selected row targets = Some items"
  by (induction selected row targets rule: dialog_items.induct) auto

lemma draw_dialog_total:
  assumes "split_ok la" "list_all (\<lambda>(i, _). i < 8) (dlg_targets dialog)"
  shows "\<exists>ws. draw_dialog la app dialog area = Some ws"
proof -
  obtain items where "dialog_items (dlg_selected_row dialog) 1 (dlg_targets dialog) = Some items"
    using dialog_items_total [OF assms(2)] by blast
  with assms(1) show ?thesis
    by (simp add: draw_dialog_def centered_rect_def Let_def)
qed

lemma draw_shows:
  assumes "split_ok la" "app_ok app"
  shows "\<exists>ws. draw la app area = Some ws \<and>
    (\<forall>i < 8. shows_text (quantity_text (i mod 4) (app_inputs app ! i)) ws)"
proof -
  let ?chunks = "la_split la Horizontal [Min_constraint 0, Length_constraint 58] area"
  obtain left where left: "draw_left la app (?chunks ! 0) = Some left"
    "\<forall>i < 8. shows_text (quantity_text (i mod 4) (app_inputs app ! i)) left"
    using draw_left_shows [OF assms] by blast
  obtain right where right: "draw_right la app (?chunks ! 1) = Some right"
    using assms(1) by (cases "app_state app") (simp_all add: draw_right_def Let_def)
  obtain dialog where dialog: "(case app_dialog app of None \<Rightarrow> Some []
      | Some dialog \<Rightarrow> draw_dialog la app dialog (?chunks ! 0)) = Some dialog"
  proof (cases "app_dialog app")
    case (Some d)
    with assms(2) have "list_all (\<lambda>(i, _). i < 8) (dlg_targets d)"
      by (simp add: app_ok_def)
    from draw_dialog_total [OF assms(1) this] Some that show thesis
      by auto
  qed simp
  have "draw la app area = Some (left @ right @ dialog)"
    using left(1) right dialog assms(1) by (simp add: draw_def Let_def)
  moreover have "shows_text (quantity_text (i mod 4) (app_inputs app ! i)) (left @ right @ dialog)" if "i < 8" for i
    using left(2) that shows_text_mono [of _ left "left @ right @ dialog"] by auto
  ultimately show ?thesis by blast
qed

subsection \<open>The states of the client\<close>

lemma app_send_ok: "app_send p message app = Some app' \<Longrightarrow> app_ok app' = app_ok app"
  by (auto simp: app_send_def next_seq_def app_ok_def)

lemma send_inputs_ok: "send_inputs p app = Some app' \<Longrightarrow> app_ok app' = app_ok app"
  by (simp add: send_inputs_def app_send_ok)

lemma send_updates_ok: "send_updates p indices app = Some app' \<Longrightarrow> app_ok app' = app_ok app"
  by (induction p indices app rule: send_updates.induct) (auto simp: app_send_ok split: Option.bind_splits)

lemma app_ok_inputs: "length inputs = 8 \<Longrightarrow> app_ok app \<Longrightarrow> app_ok (app\<lparr>app_inputs := inputs\<rparr>)"
  by (simp add: app_ok_def)

lemma core_message_ok:
  assumes "handle_core_message p m app = Some app'" "app_ok app"
  shows "app_ok app'"
proof (cases m)
  case (CommandSetChanged v upd)
  with assms show ?thesis
    by (cases upd) (auto simp: handle_core_message_def app_send_ok set_inputs_length app_ok_def
      dest: app_send_ok split: if_splits)
next
  case (CommandSet seq set_id v commands)
  with assms show ?thesis
    by (cases set_id) (auto simp: handle_core_message_def store_commands_length app_ok_def)
next
  case (WriteAccessResult seq granted h)
  with assms have "app_ok (set_state_holder h app)"
    by (simp add: app_ok_def set_state_holder_def)
  with WriteAccessResult assms show ?thesis
    by (auto simp: handle_core_message_def Let_def send_inputs_ok split: if_splits)
next
  case (Connected c limits state)
  with assms app_send_ok show ?thesis
    by (fastforce simp: handle_core_message_def app_ok_def)
qed (use assms in \<open>auto simp: handle_core_message_def app_ok_def set_state_holder_def\<close>)

lemma core_messages_ok: "handle_core_messages p ms app = Some app' \<Longrightarrow> app_ok app \<Longrightarrow> app_ok app'"
  by (induction p ms app rule: handle_core_messages.induct) (auto dest: core_message_ok split: Option.bind_splits)

lemma apply_dialog_ok:
  assumes "apply_dialog p dialog app = Some app'" "app_ok app"
  shows "app_ok app'"
proof -
  have "length (fold (\<lambda>(idx, checked) inputs. if checked then inputs[idx := x] else inputs) targets inputs) =
      length inputs" for targets x and inputs :: "i32 list"
    by (induction targets arbitrary: inputs) auto
  with assms(2) have inputs: "app_ok (app\<lparr>app_inputs := fold (\<lambda>(idx, checked) inputs. if checked then inputs[idx := x]
      else inputs) (dlg_targets dialog) (app_inputs app)\<rparr>)" for x
    by (intro app_ok_inputs) (simp_all add: app_ok_def)
  with assms show ?thesis
    by (auto simp: apply_dialog_def Let_def send_inputs_ok split: option.splits if_splits)
qed

lemma edit_dialog_indices: "map fst (dlg_targets (edit_dialog code dialog)) = map fst (dlg_targets dialog)"
proof (cases code)
  case (KeyChar c)
  let ?i = "dlg_selected_row dialog - 1"
  have "map fst ((dlg_targets dialog)[?i := (fst (dlg_targets dialog ! ?i), x)]) = map fst (dlg_targets dialog)"
    if "0 < dlg_selected_row dialog" "dlg_selected_row dialog \<le> length (dlg_targets dialog)" for x
    using that by (simp add: map_update list_update_same_conv)
  with KeyChar show ?thesis
    by (auto simp: Let_def split: prod.split)
qed simp_all

lemma edit_dialog_ok:
  assumes "list_all (\<lambda>(i, _). i < (8 :: nat)) (dlg_targets dialog)"
  shows "list_all (\<lambda>(i, _). i < 8) (dlg_targets (edit_dialog code dialog))"
proof -
  have "list_all (\<lambda>(i, _). i < 8) xs \<longleftrightarrow> list_all (\<lambda>i. i < (8 :: nat)) (map fst xs)" for xs :: "(nat \<times> bool) list"
    by (simp add: list.pred_map comp_def case_prod_unfold)
  with assms edit_dialog_indices [of code dialog] show ?thesis
    by simp
qed

lemma update_input_ok:
  assumes "update_input p delta large app = Some app'" "app_ok app"
  shows "app_ok app'"
proof (cases "has_write_access app")
  case True
  with assms(1) obtain x inputs affected where
    pushed: "push_position (app_input_index app) ((app_inputs app)[app_input_index app := x]) = (inputs, affected)"
    and sent: "(if app_holder (app\<lparr>app_inputs := inputs\<rparr>) \<noteq> None
      then send_updates p affected (app\<lparr>app_inputs := inputs\<rparr>) else Some (app\<lparr>app_inputs := inputs\<rparr>)) = Some app'"
    by (auto simp: update_input_def Let_def split: Option.bind_splits prod.splits)
  have "length inputs = 8"
    using pushed assms(2) by (auto simp: push_position_def app_ok_def split: if_splits)
  from app_ok_inputs [OF this assms(2)] sent show ?thesis
    by (auto simp: send_updates_ok split: if_splits)
qed (use assms in \<open>simp add: update_input_def\<close>)

lemma dialog_targets_ok: "i < 8 \<Longrightarrow> list_all (\<lambda>(i, _). i < 8) (dialog_targets i)"
  by (auto simp: dialog_targets_def list_all_iff Let_def set_insort_key)

lemma handle_char_ok:
  assumes "handle_char p c control app = Some app'" "app_ok app"
  shows "app_ok app'"
proof -
  have "app_ok (app\<lparr>app_inputs := INITIAL_INPUTS\<rparr>)"
    by (rule app_ok_inputs) (simp_all add: INITIAL_INPUTS_def assms(2))
  moreover have "app_ok (app\<lparr>app_dialog := Some \<lparr>dlg_input = [],
      dlg_targets = dialog_targets (app_input_index app), dlg_selected_row = 0\<rparr>\<rparr>)"
    using assms(2) dialog_targets_ok by (simp add: app_ok_def)
  moreover have "app_ok (app\<lparr>app_exit := True\<rparr>)"
    using assms(2) by (simp add: app_ok_def)
  ultimately show ?thesis
    using assms by (auto simp: handle_char_def reset_inputs_def Let_def app_send_ok send_inputs_ok split: if_splits)
qed

lemma key_event_ok:
  assumes "handle_key_event p now key app = Some app'" "app_ok app"
  shows "app_ok app'"
proof (cases "app_dialog app")
  case None
  with assms(1) obtain n where tracked: "track_repeat p now (key_code key) app =
      Some (app\<lparr>app_repeat_count := n, app_last_key := Some (key_code key, now)\<rparr>)"
    by (auto simp: handle_key_event_def track_repeat_def split: option.splits)
  moreover have "app_ok (app\<lparr>app_repeat_count := n, app_last_key := Some (key_code key, now)\<rparr>)"
    using assms(2) by (simp add: app_ok_def)
  ultimately show ?thesis
    using None assms update_input_ok handle_char_ok
    by (cases "key_code key") (auto simp: handle_key_event_def Let_def app_ok_def split: if_splits)
next
  case (Some dialog)
  with assms(2) have "app_ok (app\<lparr>app_dialog := None\<rparr>)"
    "app_ok (app\<lparr>app_dialog := Some (edit_dialog (key_code key) dialog)\<rparr>)"
    using edit_dialog_ok [of dialog] by (simp_all add: app_ok_def)
  with Some assms(1) apply_dialog_ok show ?thesis
    by (auto simp: handle_key_event_def handle_dialog_key_def Let_def split: if_splits)
qed

lemma handle_poll_ok:
  assumes "handle_poll p poll app = Some (Inr app')" "app_ok app"
  shows "app_ok app'"
proof -
  have "app_ok (app\<lparr>app_exit := True\<rparr>)"
    using assms(2) by (simp add: app_ok_def)
  with assms key_event_ok show ?thesis
    by (cases poll) (auto simp: handle_poll_def split: if_splits)
qed

lemma App_run_ok:
  assumes "App_run p rounds app = Some (Inr app')" "app_ok app"
  shows "app_ok app'"
  using assms
proof (induction rounds arbitrary: app)
  case Nil
  then show ?case
    by (auto simp: App_run.simps [of p "[]"] app_ok_def split: if_splits)
next
  case (Cons round rounds)
  obtain messages poll where round: "round = (messages, poll)" by fastforce
  show ?case
  proof (cases "app_exit app")
    case True
    with Cons.prems show ?thesis
      by (auto simp: App_run.simps [of p "round # rounds"] app_ok_def)
  next
    case False
    with Cons.prems(1) obtain app1 app2 where steps: "handle_core_messages p messages app = Some app1"
      "handle_poll p poll app1 = Some (Inr app2)" "App_run p rounds app2 = Some (Inr app')"
      by (auto simp: App_run.simps [of p "round # rounds"] round split: option.splits sum.splits)
    from Cons.IH [OF steps(3) handle_poll_ok [OF steps(2) core_messages_ok [OF steps(1) Cons.prems(2)]]]
    show ?thesis .
  qed
qed

lemma App_new_ok: "app_ok App_new"
  by (simp add: app_ok_def App_new_def INITIAL_INPUTS_def)

text \<open>
  C26: in every state the terminal client reaches, whatever the core sends and whatever keys are
  pressed, drawing a frame does not panic, for every size of the terminal, and the frame shows the
  text of each of the eight values.
\<close>

theorem drawing_never_panics:
  assumes "App_run p rounds App_new = Some (Inr app)" "split_ok la"
  shows "\<exists>ws. draw la app area = Some ws \<and>
    (\<forall>i < 8. shows_text (quantity_text (i mod 4) (app_inputs app ! i)) ws)"
  by (rule draw_shows [OF assms(2) App_run_ok [OF assms(1) App_new_ok]])

text \<open>A layout whose areas are their heights.\<close>

definition example_layout :: "nat layout_api" where
  "example_layout = \<lparr>la_split = (\<lambda>d cs h. map (\<lambda>c. case c of Length_constraint n \<Rightarrow> min n h | _ \<Rightarrow> h) cs),
     la_inner = (\<lambda>h. h - 2), la_height = (\<lambda>h. h), la_width = (\<lambda>h. 100)\<rparr>"

definition drawn_limits :: SystemLimits where
  "drawn_limits = \<lparr>limit_position = Position 500000, limit_velocity = Velocity 2000000,
     limit_acceleration = Acceleration 2000000, limit_deceleration = Acceleration 2000000\<rparr>"

theorem drawing_never_panics_witness:
  "\<exists>app ws. App_run Debug [([Connected (WebSocket 3) drawn_limits CoreState_default], PollNothing)] App_new =
      Some (Inr app) \<and> app_limits app = Some drawn_limits \<and> draw example_layout app 24 = Some ws \<and>
    shows_text (quantity_text 1 (app_inputs app ! 1)) ws"
proof -
  obtain app where run: "App_run Debug [([Connected (WebSocket 3) drawn_limits CoreState_default], PollNothing)] App_new =
      Some (Inr app)" and limits: "app_limits app = Some drawn_limits"
    by (simp add: App_run.simps handle_core_message_def App_new_def app_send_def next_seq_def
        arith_u64_def handle_poll_def)
  have "split_ok example_layout"
    by (simp add: split_ok_def example_layout_def)
  from drawing_never_panics [OF run this, of 24] run limits show ?thesis
    by (auto dest: spec [of _ 1])
qed

end
