(* ===== verification/HwmonStats.thy ===== *)
theory HwmonStats
  imports TerminalClient
begin

text \<open>
  The host statistics (\<open>src/bin/puddle-rpi-stats.rs\<close>), a program that samples sensors of the host
  every second: finding the sensors, reading their values, the row of a sample, and the loop.  The
  files of the operating system, the clock and the client library of the database (\<open>questdb\<close>) are
  outside: what they return is an argument.  \<open>None\<close> is a panic, which ends the program.
\<close>

subsection \<open>Sensors\<close>

datatype MetricValueKind = MetricI64 | MetricBool

record 'f Metric =
  hm_hwmon_name :: string
  hm_file_name :: string
  hm_column_name :: string
  hm_value_kind :: MetricValueKind
  hm_file :: "'f option"

definition Metric_i64 :: "string \<Rightarrow> string \<Rightarrow> string \<Rightarrow> 'f Metric" where
  "Metric_i64 hwmon_name file_name column_name =
     \<lparr>hm_hwmon_name = hwmon_name, hm_file_name = file_name, hm_column_name = column_name,
      hm_value_kind = MetricI64, hm_file = None\<rparr>"

definition Metric_bool :: "string \<Rightarrow> string \<Rightarrow> string \<Rightarrow> 'f Metric" where
  "Metric_bool hwmon_name file_name column_name =
     \<lparr>hm_hwmon_name = hwmon_name, hm_file_name = file_name, hm_column_name = column_name,
      hm_value_kind = MetricBool, hm_file = None\<rparr>"

definition initial_metrics :: "'f Metric list" where
  "initial_metrics =
     [Metric_i64 ''cpu_thermal'' ''temp1_input'' ''cpu_thermal_temp'',
      Metric_i64 ''rp1_adc'' ''in2_input'' ''rp1_adc_vbus'',
      Metric_i64 ''rp1_adc'' ''temp1_input'' ''rp1_adc_temp'',
      Metric_bool ''rpi_volt'' ''in0_lcrit_alarm'' ''rpi_volt_alarm'',
      Metric_i64 ''pwmfan'' ''pwm1'' ''fan_pwm'',
      Metric_i64 ''pwmfan'' ''fan1_input'' ''fan_rpm'']"

text \<open>A directory of the sensors: the content of its file \<open>name\<close>, and what opening a file gives.\<close>

record 'f hwmon_directory =
  dir_name :: "codepoints option"
  dir_open :: "string \<Rightarrow> 'f option"

definition open_metric :: "'f hwmon_directory \<Rightarrow> codepoints \<Rightarrow> 'f Metric \<Rightarrow> 'f Metric" where
  "open_metric directory hwmon_name metric =
     (if map of_char (hm_hwmon_name metric) = hwmon_name
      then if hm_file metric \<noteq> None then metric
        else metric\<lparr>hm_file := dir_open directory (hm_file_name metric)\<rparr>
      else metric)"

text \<open>The directories, or the error that \<open>read_dir\<close> or one of its entries gives.\<close>

fun search_directories :: "(unit + 'f hwmon_directory) list \<Rightarrow> 'f Metric list \<Rightarrow> unit + 'f Metric list" where
  "search_directories [] metrics = Inr metrics"
| "search_directories (Inl e # entries) metrics = Inl e"
| "search_directories (Inr directory # entries) metrics =
     search_directories entries
       (case dir_name directory of
          None \<Rightarrow> metrics
        | Some name \<Rightarrow> map (open_metric directory (trim name)) metrics)"

definition HwmonReader_new :: "unit + (unit + 'f hwmon_directory) list \<Rightarrow> unit + 'f Metric list" where
  "HwmonReader_new entries =
     (case entries of Inl e \<Rightarrow> Inl e | Inr entries \<Rightarrow> search_directories entries initial_metrics)"

subsection \<open>Values\<close>

text \<open>\<open>parse::<i64>\<close>: an optional sign, at least one digit, and a value in range.\<close>

definition parse_i64 :: "codepoints \<Rightarrow> int option" where
  "parse_i64 s =
     (let (neg, digits) = split_sign s; v = signed_magnitude neg (digits_value digits) in
      if digits \<noteq> [] \<and> list_all codepoint_digit digits \<and> - (2 ^ 63) \<le> v \<and> v < 2 ^ 63
      then Some v else None)"

datatype stats_error = FileError | InvalidData

definition read_file_i64 :: "('f \<Rightarrow> codepoints option) \<Rightarrow> 'f \<Rightarrow> stats_error + int" where
  "read_file_i64 contents file =
     (case contents file of
        None \<Rightarrow> Inl FileError
      | Some buffer \<Rightarrow>
          (case parse_i64 (trim buffer) of None \<Rightarrow> Inl InvalidData | Some v \<Rightarrow> Inr v))"

text \<open>A file of \<open>sysfs\<close> ends with a line feed, which is trimmed.\<close>

lemma tests_of_parse_i64:
  "parse_i64 (trim (map of_char ''48312'' @ [10])) = Some 48312"
  "parse_i64 (trim (map of_char ''-5'' @ [10])) = Some (- 5)"
  "parse_i64 (map of_char ''9223372036854775807'') = Some 9223372036854775807"
  "parse_i64 (map of_char ''9223372036854775808'') = None"
  "parse_i64 (trim [10]) = None" "parse_i64 (map of_char ''1.5'') = None"
  by (simp_all add: parse_i64_def trim_def is_whitespace_def codepoint_digit_def digits_value_def
      signed_magnitude_def Let_def)

subsection \<open>Rows\<close>

record 'b stats_api =
  sa_new :: 'b
  sa_table :: "string \<Rightarrow> 'b \<Rightarrow> 'b option" \<comment> \<open>\<open>None\<close>: the buffer refuses\<close>
  sa_column_i64 :: "string \<Rightarrow> int \<Rightarrow> 'b \<Rightarrow> 'b option"
  sa_column_bool :: "string \<Rightarrow> bool \<Rightarrow> 'b \<Rightarrow> 'b option"
  sa_at :: "int \<Rightarrow> 'b \<Rightarrow> 'b option"
  sa_flushed :: "'b \<Rightarrow> 'b"

definition write_column ::
    "'b stats_api \<Rightarrow> ('f \<Rightarrow> codepoints option) \<Rightarrow> 'f Metric \<Rightarrow> 'b \<Rightarrow> (stats_error + 'b) option" where
  "write_column api contents metric buffer =
     (case hm_file metric of
        None \<Rightarrow> Some (Inr buffer)
      | Some file \<Rightarrow>
          (case read_file_i64 contents file of
             Inl e \<Rightarrow> Some (Inl e)
           | Inr v \<Rightarrow>
               (case hm_value_kind metric of
                  MetricI64 \<Rightarrow> map_option Inr (sa_column_i64 api (hm_column_name metric) v buffer)
                | MetricBool \<Rightarrow> map_option Inr (sa_column_bool api (hm_column_name metric) (v \<noteq> 0) buffer))))"

fun write_columns ::
    "'b stats_api \<Rightarrow> ('f \<Rightarrow> codepoints option) \<Rightarrow> 'f Metric list \<Rightarrow> 'b \<Rightarrow> (stats_error + 'b) option" where
  "write_columns api contents [] buffer = Some (Inr buffer)"
| "write_columns api contents (metric # metrics) buffer =
     (case write_column api contents metric buffer of
        Some (Inr buffer) \<Rightarrow> write_columns api contents metrics buffer
      | stop \<Rightarrow> stop)"

definition read_sample ::
    "'b stats_api \<Rightarrow> ('f \<Rightarrow> codepoints option) \<Rightarrow> 'f Metric list \<Rightarrow> int \<Rightarrow> 'b \<Rightarrow> (stats_error + 'b) option" where
  "read_sample api contents metrics timestamp buffer =
     (case sa_table api ''rpi_stats_hwmon'' buffer of
        None \<Rightarrow> None
      | Some buffer \<Rightarrow>
          (case write_columns api contents metrics buffer of
             Some (Inr buffer) \<Rightarrow> map_option Inr (sa_at api timestamp buffer)
           | stop \<Rightarrow> stop))"

subsection \<open>The loop\<close>

definition loop_interval :: nat where
  "loop_interval = 1000000000"

record 'f tick =
  tk_timestamp :: int
  tk_contents :: "'f \<Rightarrow> codepoints option"
  tk_flushes :: bool
  tk_now :: nat \<comment> \<open>when the sample is flushed\<close>

record 'b stats_state =
  st_buffer :: 'b
  st_flushed :: "'b list" \<comment> \<open>the buffers that were sent\<close>
  st_next_tick :: nat

text \<open>One round, with the time until which it sleeps: the errors are unwrapped, so any ends the program.\<close>

definition stats_round :: "'b stats_api \<Rightarrow> 'f Metric list \<Rightarrow> 'f tick \<Rightarrow> 'b stats_state \<Rightarrow> 'b stats_state option" where
  "stats_round api metrics tick st =
     (case read_sample api (tk_contents tick) metrics (tk_timestamp tick) (st_buffer st) of
        Some (Inr buffer) \<Rightarrow>
          if \<not> tk_flushes tick then None
          else Some \<lparr>st_buffer = sa_flushed api buffer, st_flushed = st_flushed st @ [buffer],
            st_next_tick = (if tk_now tick \<le> st_next_tick st then st_next_tick st + loop_interval
                            else tk_now tick + loop_interval)\<rparr>
      | _ \<Rightarrow> None)"

fun run_stats :: "'b stats_api \<Rightarrow> 'f Metric list \<Rightarrow> 'f tick list \<Rightarrow> 'b stats_state \<Rightarrow> 'b stats_state option" where
  "run_stats api metrics [] st = Some st"
| "run_stats api metrics (tick # ticks) st =
     Option.bind (stats_round api metrics tick st) (run_stats api metrics ticks)"

subsection \<open>Which sensors are found\<close>

definition sensor_file :: "'f hwmon_directory \<Rightarrow> 'f Metric \<Rightarrow> 'f option" where
  "sensor_file directory metric =
     (if map_option trim (dir_name directory) = Some (map of_char (hm_hwmon_name metric))
      then dir_open directory (hm_file_name metric) else None)"

fun sensor_files :: "(unit + 'f hwmon_directory) list \<Rightarrow> 'f Metric \<Rightarrow> 'f list" where
  "sensor_files [] metric = []"
| "sensor_files (Inl _ # entries) metric = sensor_files entries metric"
| "sensor_files (Inr directory # entries) metric =
     (case sensor_file directory metric of
        None \<Rightarrow> sensor_files entries metric
      | Some f \<Rightarrow> f # sensor_files entries metric)"

lemma sensor_files_file [simp]: "sensor_files entries (m\<lparr>hm_file := file\<rparr>) = sensor_files entries m"
  by (induction entries m rule: sensor_files.induct) (simp_all add: sensor_file_def split: option.split)

lemma same_file: "hm_file m = file \<Longrightarrow> m\<lparr>hm_file := file\<rparr> = m"
  by (cases m) simp

text \<open>Each sensor is read from the first directory of its name in which the file can be opened.\<close>

lemma search_directories_first:
  assumes "\<And>e. Inl e \<notin> set entries"
  shows "search_directories entries metrics = Inr (map (\<lambda>m. m\<lparr>hm_file :=
    (case hm_file m of Some f \<Rightarrow> Some f
     | None \<Rightarrow> (case sensor_files entries m of [] \<Rightarrow> None | f # _ \<Rightarrow> Some f))\<rparr>) metrics)"
  using assms
proof (induction entries arbitrary: metrics)
  case Nil
  have "m\<lparr>hm_file := (case hm_file m of Some f \<Rightarrow> Some f | None \<Rightarrow> None)\<rparr> = m" for m :: "'a Metric"
    by (rule same_file) (simp split: option.split)
  then show ?case
    by (simp cong: option.case_cong)
next
  case (Cons entry entries)
  then obtain directory where entry: "entry = Inr directory"
    by (cases entry) auto
  let ?found = "\<lambda>entries m. case hm_file m of Some f \<Rightarrow> Some f
    | None \<Rightarrow> (case sensor_files entries m of [] \<Rightarrow> None | f # _ \<Rightarrow> Some f)"
  show ?case
  proof (cases "dir_name directory")
    case None
    then have "?found (entry # entries) m = ?found entries m" for m
      by (auto simp: entry sensor_file_def split: option.split)
    with None Cons show ?thesis
      by (simp add: entry)
  next
    case (Some name)
    let ?open = "open_metric directory (trim name)"
    have "(?open m)\<lparr>hm_file := ?found entries (?open m)\<rparr> = m\<lparr>hm_file := ?found (entry # entries) m\<rparr>" for m
      using Some by (auto simp: open_metric_def entry sensor_file_def split: option.split)
    with Some Cons show ?thesis
      by (simp add: entry)
  qed
qed

subsection \<open>What a sample stores\<close>

datatype column_value = ColumnI64 int | ColumnBool bool

type_synonym sample_row = "(string \<times> column_value) list \<times> int"

text \<open>The columns of a sample, for sensors whose files can be read and parsed.\<close>

definition metric_value :: "('f \<Rightarrow> codepoints option) \<Rightarrow> 'f Metric \<Rightarrow> (string \<times> column_value) option" where
  "metric_value contents metric =
     (case hm_file metric of
        None \<Rightarrow> None
      | Some file \<Rightarrow>
          (case read_file_i64 contents file of
             Inl _ \<Rightarrow> None
           | Inr v \<Rightarrow> Some (hm_column_name metric,
               case hm_value_kind metric of MetricI64 \<Rightarrow> ColumnI64 v | MetricBool \<Rightarrow> ColumnBool (v \<noteq> 0))))"

definition readable :: "('f \<Rightarrow> codepoints option) \<Rightarrow> 'f Metric list \<Rightarrow> bool" where
  "readable contents metrics \<longleftrightarrow> list_all (\<lambda>m. case hm_file m of None \<Rightarrow> True
     | Some file \<Rightarrow> \<not> isl (read_file_i64 contents file)) metrics"

text \<open>What the documentation of the buffer says: a row is begun, gets columns and ends with its time.\<close>

definition stats_laws :: "'b stats_api \<Rightarrow> ('b \<Rightarrow> sample_row list \<times> (string \<times> column_value) list option) \<Rightarrow> bool" where
  "stats_laws api view \<longleftrightarrow> view (sa_new api) = ([], None) \<and>
     (\<forall>b. view (sa_flushed api b) = ([], None)) \<and>
     (\<forall>b rows name. view b = (rows, None) \<longrightarrow>
        (\<exists>b'. sa_table api name b = Some b' \<and> view b' = (rows, Some []))) \<and>
     (\<forall>b rows cols name v. view b = (rows, Some cols) \<longrightarrow>
        (\<exists>b'. sa_column_i64 api name v b = Some b' \<and> view b' = (rows, Some (cols @ [(name, ColumnI64 v)])))) \<and>
     (\<forall>b rows cols name v. view b = (rows, Some cols) \<longrightarrow>
        (\<exists>b'. sa_column_bool api name v b = Some b' \<and> view b' = (rows, Some (cols @ [(name, ColumnBool v)])))) \<and>
     (\<forall>b rows cols t. view b = (rows, Some cols) \<longrightarrow>
        (\<exists>b'. sa_at api t b = Some b' \<and> view b' = (rows @ [(cols, t)], None)))"

text \<open>A buffer that keeps the rows as lists has these laws.\<close>

definition list_stats :: "(sample_row list \<times> (string \<times> column_value) list option) stats_api" where
  "list_stats = (let add = (\<lambda>c (rows, cols). map_option (\<lambda>cols. (rows, Some (cols @ [c]))) cols) in
     \<lparr>sa_new = ([], None),
      sa_table = (\<lambda>name (rows, cols). if cols = None then Some (rows, Some []) else None),
      sa_column_i64 = (\<lambda>name v. add (name, ColumnI64 v)),
      sa_column_bool = (\<lambda>name v. add (name, ColumnBool v)),
      sa_at = (\<lambda>t (rows, cols). map_option (\<lambda>cols. (rows @ [(cols, t)], None)) cols),
      sa_flushed = (\<lambda>_. ([], None))\<rparr>)"

lemma list_stats_laws: "stats_laws list_stats id"
  by (simp add: stats_laws_def list_stats_def Let_def)

lemma write_columns_view:
  assumes "stats_laws api view" "readable contents metrics" "view b = (rows, Some cols)"
  shows "\<exists>b'. write_columns api contents metrics b = Some (Inr b') \<and>
    view b' = (rows, Some (cols @ List.map_filter (metric_value contents) metrics))"
  using assms(2,3)
proof (induction metrics arbitrary: b cols)
  case (Cons metric metrics)
  have "\<exists>b'. write_column api contents metric b = Some (Inr b') \<and>
      view b' = (rows, Some (cols @ (case metric_value contents metric of None \<Rightarrow> [] | Some c \<Rightarrow> [c])))"
  proof (cases "hm_file metric")
    case None
    with Cons.prems(2) show ?thesis
      by (simp add: write_column_def metric_value_def)
  next
    case (Some f)
    with Cons.prems(1) obtain v where v: "read_file_i64 contents f = Inr v"
      by (cases "read_file_i64 contents f") (auto simp: readable_def)
    obtain b' where "sa_column_i64 api (hm_column_name metric) v b = Some b'"
      "view b' = (rows, Some (cols @ [(hm_column_name metric, ColumnI64 v)]))"
      using assms(1) Cons.prems(2) unfolding stats_laws_def by blast
    moreover obtain b'' where "sa_column_bool api (hm_column_name metric) (v \<noteq> 0) b = Some b''"
      "view b'' = (rows, Some (cols @ [(hm_column_name metric, ColumnBool (v \<noteq> 0))]))"
      using assms(1) Cons.prems(2) unfolding stats_laws_def by blast
    ultimately show ?thesis
      using Some v by (cases "hm_value_kind metric") (simp_all add: write_column_def metric_value_def)
  qed
  then obtain b' where b': "write_column api contents metric b = Some (Inr b')"
    "view b' = (rows, Some (cols @ (case metric_value contents metric of None \<Rightarrow> [] | Some c \<Rightarrow> [c])))"
    by blast
  have "readable contents metrics"
    using Cons.prems(1) by (simp add: readable_def)
  from Cons.IH [OF this b'(2)] b'(1) show ?case
    by (auto simp: map_filter_simps split: option.splits)
qed (simp add: map_filter_simps)

text \<open>As long as the sensors can be read and the database takes the rows, every sample is sent, in order.\<close>

lemma run_stats_sends:
  assumes laws: "stats_laws api view" and "view (st_buffer st) = ([], None)"
    and "list_all (\<lambda>tick. readable (tk_contents tick) metrics \<and> tk_flushes tick) ticks"
  shows "\<exists>st'. run_stats api metrics ticks st = Some st' \<and>
    map (fst \<circ> view) (st_flushed st') = map (fst \<circ> view) (st_flushed st) @
      map (\<lambda>tick. [(List.map_filter (metric_value (tk_contents tick)) metrics, tk_timestamp tick)]) ticks"
  using assms(2,3)
proof (induction ticks arbitrary: st)
  case (Cons tick ticks)
  obtain b1 where b1: "sa_table api ''rpi_stats_hwmon'' (st_buffer st) = Some b1" "view b1 = ([], Some [])"
    using laws Cons.prems(1) unfolding stats_laws_def by blast
  obtain b2 where b2: "write_columns api (tk_contents tick) metrics b1 = Some (Inr b2)"
    "view b2 = ([], Some (List.map_filter (metric_value (tk_contents tick)) metrics))"
    using write_columns_view [OF laws _ b1(2), of "tk_contents tick" metrics] Cons.prems(2) by auto
  obtain b3 where b3: "sa_at api (tk_timestamp tick) b2 = Some b3"
    "view b3 = ([] @ [(List.map_filter (metric_value (tk_contents tick)) metrics, tk_timestamp tick)], None)"
    using laws b2(2) unfolding stats_laws_def by blast
  define st1 where "st1 = \<lparr>st_buffer = sa_flushed api b3, st_flushed = st_flushed st @ [b3],
    st_next_tick = (if tk_now tick \<le> st_next_tick st then st_next_tick st + loop_interval
      else tk_now tick + loop_interval)\<rparr>"
  have round: "stats_round api metrics tick st = Some st1"
    using b1(1) b2(1) b3(1) Cons.prems(2) by (simp add: stats_round_def read_sample_def st1_def)
  have "view (st_buffer st1) = ([], None)" "list_all (\<lambda>tick. readable (tk_contents tick) metrics \<and> tk_flushes tick) ticks"
    using laws Cons.prems(2) by (simp_all add: stats_laws_def st1_def)
  from Cons.IH [OF this] obtain st' where "run_stats api metrics ticks st1 = Some st'"
    "map (fst \<circ> view) (st_flushed st') = map (fst \<circ> view) (st_flushed st1) @
      map (\<lambda>tick. [(List.map_filter (metric_value (tk_contents tick)) metrics, tk_timestamp tick)]) ticks"
    by blast
  with round b3(2) show ?case
    by (simp add: st1_def comp_def)
qed simp

text \<open>Rounds that are on time do not drift.\<close>

lemma rounds_do_not_drift:
  assumes "run_stats api metrics ticks st = Some st'"
    and "\<And>i. i < length ticks \<Longrightarrow> tk_now (ticks ! i) \<le> st_next_tick st + i * loop_interval"
  shows "st_next_tick st' = st_next_tick st + length ticks * loop_interval"
  using assms
proof (induction ticks arbitrary: st)
  case (Cons tick ticks)
  from Cons.prems(1) obtain st1 where st1: "stats_round api metrics tick st = Some st1"
    "run_stats api metrics ticks st1 = Some st'"
    by (auto split: Option.bind_splits)
  have "tk_now tick \<le> st_next_tick st"
    using Cons.prems(2) [of 0] by simp
  with st1(1) have late: "st_next_tick st1 = st_next_tick st + loop_interval"
    by (auto simp: stats_round_def split: option.splits sum.splits if_splits)
  have "tk_now (ticks ! i) \<le> st_next_tick st1 + i * loop_interval" if "i < length ticks" for i
    using Cons.prems(2) [of "Suc i"] that by (simp add: late)
  from Cons.IH [OF st1(2) this] show ?case
    by (simp add: late)
qed simp

end
