(* ===== verification/Interleaving.thy ===== *)
theory Interleaving
  imports System
begin

text \<open>
  The core and the drive thread, with the interleaving of the code: the core handles the messages of
  an input report one by one, publishes commands under the lock and sets action bits after it; a
  cycle of the drive thread takes the action bits before it tries the lock.  Either thread can run
  between these.  What the drive thread promises of single cycles carries over, because a cycle that
  is interrupted is a cycle on an interface with the bits from before and the commands from after.
\<close>

subsection \<open>The two halves of a cycle\<close>

lemma loop_begin_lock: "loop_begin (env\<lparr>env_lock_free := free\<rparr>) pending c = loop_begin env pending c"
  by (simp add: loop_begin_def)

text \<open>A cycle whose halves see different states of the interface is a cycle on a mixed one.\<close>

lemma torn_cycle:
  assumes "loop_begin env pending c = (ef, pending', Inr mid)" "loop_end p free shared mid = Some c'"
  shows "loop_tick p (env\<lparr>env_lock_free := free\<rparr>) \<lparr>di_commands = shared, di_actions = pending\<rparr> c =
    Some (ef, \<lparr>di_commands = shared, di_actions = pending'\<rparr>, Inr c')"
  using assms by (simp add: loop_tick_def loop_begin_lock)

subsection \<open>The interleaved system\<close>

record interleaved =
  il_core :: CoreManager
  il_unsent :: u8 \<comment> \<open>action bits that the core is about to set\<close>
  il_unread :: "ClientMessage list" \<comment> \<open>messages of an input report that the core is still to handle\<close>
  il_manager :: manager
  il_cycle :: "connection option" \<comment> \<open>a cycle between its halves\<close>
  il_datagrams :: "u8 list list"

definition with_actions :: "u8 \<Rightarrow> CoreManager \<Rightarrow> CoreManager" where
  "with_actions bits cm = cm\<lparr>cm_drive := (cm_drive cm)\<lparr>di_actions := bits\<rparr>\<rparr>"

definition pending_actions :: "CoreManager \<Rightarrow> u8" where
  "pending_actions cm = di_actions (cm_drive cm)"

definition shared_commands :: "CoreManager \<Rightarrow> DriveCommands" where
  "shared_commands cm = di_commands (cm_drive cm)"

text \<open>What the core does up to its action bits: those it sends are kept for a step of their own.\<close>

definition core_publishes :: "CoreManager \<Rightarrow> interleaved \<Rightarrow> interleaved" where
  "core_publishes cm s = s\<lparr>il_core := with_actions (pending_actions (il_core s)) cm,
     il_unsent := pending_actions cm\<rparr>"

definition core_idle :: "interleaved \<Rightarrow> bool" where
  "core_idle s \<longleftrightarrow> il_unsent s = 0 \<and> il_unread s = []"

definition sends :: "drive_effects \<Rightarrow> interleaved \<Rightarrow> interleaved" where
  "sends ef s = s\<lparr>il_datagrams := il_datagrams s @ (case ef_sent ef of None \<Rightarrow> [] | Some dg \<Rightarrow> [dg])\<rparr>"

definition interleaved_start :: "SystemLimits \<Rightarrow> bool \<Rightarrow> bool \<Rightarrow> interleaved" where
  "interleaved_start limits hid_io ws = \<lparr>il_core = CoreManager_new limits hid_io ws, il_unsent = 0,
     il_unread = [], il_manager = manager_initial, il_cycle = None, il_datagrams = []\<rparr>"

inductive interleaved_step :: "drive_config \<Rightarrow> interleaved \<Rightarrow> interleaved \<Rightarrow> bool" for cfg where
  core_handles: "core_idle s \<Longrightarrow> (\<And>report. ev \<noteq> HidInputReport report) \<Longrightarrow>
    handle_event env ev (with_actions 0 (il_core s)) = (Inr (), cm) \<Longrightarrow>
    interleaved_step cfg s (core_publishes cm s)"
| report_read: "core_idle s \<Longrightarrow> cm_hid_ui (il_core s) = Some ui \<Longrightarrow>
    process_input_report p alive report (cm_limits (il_core s)) (cm_core_state (il_core s)) ui =
      Some (Inr (messages, reports, ui')) \<Longrightarrow>
    interleaved_step cfg s (s\<lparr>il_unread := messages, il_core := (il_core s)
      \<lparr>cm_hid_ui := Some ui', cm_sent := cm_sent (il_core s) @ map ToHid reports\<rparr>\<rparr>)"
| message_handled: "il_unsent s = 0 \<Longrightarrow> il_unread s = m # ms \<Longrightarrow>
    handle_message env Hid m (with_actions 0 (il_core s)) = (Inr (), cm) \<Longrightarrow>
    interleaved_step cfg s (core_publishes cm (s\<lparr>il_unread := ms\<rparr>))"
| actions_set: "interleaved_step cfg s
    (s\<lparr>il_core := send_actions (il_unsent s) (il_core s), il_unsent := 0\<rparr>)"
| connects: "mgr_connection (il_manager s) = None \<Longrightarrow>
    manager_step p cfg env (cm_drive (il_core s)) (il_manager s) = Some (ef, iface, m) \<Longrightarrow>
    interleaved_step cfg s (sends ef (s\<lparr>il_manager := m\<rparr>))"
| cycle_begins: "il_cycle s = None \<Longrightarrow> mgr_connection (il_manager s) = Some c \<Longrightarrow>
    loop_begin env (pending_actions (il_core s)) c = (ef, pending, Inr mid) \<Longrightarrow>
    interleaved_step cfg s (sends ef (s\<lparr>il_core := with_actions pending (il_core s), il_cycle := Some mid\<rparr>))"
| cycle_fails: "il_cycle s = None \<Longrightarrow> mgr_connection (il_manager s) = Some c \<Longrightarrow>
    loop_begin env (pending_actions (il_core s)) c = (ef, pending, Inl e) \<Longrightarrow>
    interleaved_step cfg s (sends ef (s\<lparr>il_manager := (il_manager s)\<lparr>mgr_connection := None\<rparr>\<rparr>))"
| cycle_ends: "il_cycle s = Some mid \<Longrightarrow>
    loop_end p free (shared_commands (il_core s)) mid = Some c \<Longrightarrow>
    interleaved_step cfg s
      (s\<lparr>il_cycle := None, il_manager := (il_manager s)\<lparr>mgr_connection := Some c\<rparr>\<rparr>)"

inductive_cases interleaved_step_cases [consumes 1, case_names core_handles report_read message_handled
  actions_set connects cycle_begins cycle_fails cycle_ends]: "interleaved_step cfg s s'"

lemma interleaved_simps [simp]:
  "il_core (core_publishes cm s) = with_actions (pending_actions (il_core s)) cm"
  "il_unsent (core_publishes cm s) = pending_actions cm"
  "il_unread (core_publishes cm s) = il_unread s" "il_manager (core_publishes cm s) = il_manager s"
  "il_cycle (core_publishes cm s) = il_cycle s" "il_datagrams (core_publishes cm s) = il_datagrams s"
  "il_core (sends ef s) = il_core s" "il_unsent (sends ef s) = il_unsent s"
  "il_unread (sends ef s) = il_unread s" "il_manager (sends ef s) = il_manager s"
  "il_cycle (sends ef s) = il_cycle s"
  "il_datagrams (sends ef s) = il_datagrams s @ (case ef_sent ef of None \<Rightarrow> [] | Some dg \<Rightarrow> [dg])"
  by (simp_all add: core_publishes_def sends_def)

lemma shared_commands_simps [simp]:
  "shared_commands (with_actions bits cm) = shared_commands cm"
  "shared_commands (send_actions bits cm) = shared_commands cm"
  "shared_commands (cm\<lparr>cm_hid_ui := ui, cm_sent := out\<rparr>) = shared_commands cm"
  by (simp_all add: shared_commands_def with_actions_def send_actions_def)

subsection \<open>The contract of the drive thread\<close>

lemma loop_end_off:
  assumes "\<not> dc_power_enabled shared"
  shows "\<exists>c'. loop_end p True shared c = Some c'"
proof -
  have "\<not> c_power_enabled (update_control_flags state (read_commands shared c))" for state
    using assms by (auto simp: update_control_flags_def read_commands_def split: State.split)
  then show ?thesis
    by (auto simp: loop_end_def compute_next_request_def Let_def split: option.split)
qed

text \<open>A connection that is between the halves of a cycle which began with one that satisfies \<open>conn_ok\<close>.\<close>

definition begun :: "(connection \<Rightarrow> bool) \<Rightarrow> connection \<Rightarrow> bool" where
  "begun conn_ok mid \<longleftrightarrow> (\<exists>env pending c ef pending'. conn_ok c \<and>
     loop_begin env pending c = (ef, pending', Inr mid))"

locale torn_contract = drive_contract +
  assumes idle_ok: "iface_ok \<lparr>dc_power_enabled = False, dc_motion_enabled = False, dc_commands = []\<rparr>"
begin

lemma begin_sends:
  assumes "loop_begin env pending c = (ef, pending', r)" "conn_ok c"
  shows "pred_option dg_ok (ef_sent ef)"
proof -
  let ?off = "\<lparr>dc_power_enabled = False, dc_motion_enabled = False, dc_commands = []\<rparr>"
  let ?iface = "\<lparr>di_commands = ?off, di_actions = pending\<rparr>"
  have "\<exists>r. loop_tick Release (env\<lparr>env_lock_free := True\<rparr>) ?iface c = Some (ef, ?iface\<lparr>di_actions := pending'\<rparr>, r)"
  proof (cases r)
    case (Inr mid)
    obtain c' where "loop_end Release True ?off mid = Some c'"
      using loop_end_off [of ?off] by auto
    with assms(1) Inr show ?thesis
      by (simp add: loop_tick_def loop_begin_lock)
  qed (use assms(1) in \<open>simp add: loop_tick_def loop_begin_lock\<close>)
  then show ?thesis
    using ticks [OF _ assms(2)] idle_ok by fastforce
qed

lemma begin_begun: "loop_begin env pending c = (ef, pending', Inr mid) \<Longrightarrow> conn_ok c \<Longrightarrow> begun conn_ok mid"
  unfolding begun_def by blast

lemma end_keeps:
  assumes "begun conn_ok mid" "loop_end p free shared mid = Some c" "iface_ok shared"
  shows "conn_ok c"
  using assms ticks [OF torn_cycle] by (fastforce simp: begun_def)

lemma interleaved_step_keeps:
  assumes "interleaved_step cfg s s'" and "iface_ok (shared_commands (il_core s))"
    and "pred_option conn_ok (mgr_connection (il_manager s))" and "pred_option (begun conn_ok) (il_cycle s)"
  shows "pred_option conn_ok (mgr_connection (il_manager s')) \<and> pred_option (begun conn_ok) (il_cycle s') \<and>
    (\<exists>new. il_datagrams s' = il_datagrams s @ new \<and> list_all dg_ok new)"
  using assms(1)
proof (cases rule: interleaved_step_cases)
  case (connects p env ef iface m)
  then show ?thesis
    using manager_step_keeps [OF connects(3)] assms(2-4) by (auto simp: shared_commands_def split: option.split)
next
  case (cycle_begins c env ef pending mid)
  then show ?thesis
    using begin_sends [OF cycle_begins(4)] begin_begun [OF cycle_begins(4)] assms(3)
    by (auto split: option.split)
next
  case (cycle_fails c env ef pending e)
  then show ?thesis
    using begin_sends [OF cycle_fails(4)] assms(3,4) by (auto split: option.split)
next
  case (cycle_ends mid p free c)
  then show ?thesis
    using end_keeps assms(2,4) by auto
qed (use assms(3,4) in auto)

text \<open>A run, of all steps or of some, along which the core publishes what is \<open>iface_ok\<close>.\<close>

lemma interleaved_run_keeps:
  assumes "R\<^sup>*\<^sup>* s s'" and steps: "\<And>t t'. R t t' \<Longrightarrow> interleaved_step cfg t t'"
    and publishes: "\<And>t. R\<^sup>*\<^sup>* s t \<Longrightarrow> iface_ok (shared_commands (il_core t))"
    and "pred_option conn_ok (mgr_connection (il_manager s))" and "pred_option (begun conn_ok) (il_cycle s)"
  shows "pred_option conn_ok (mgr_connection (il_manager s')) \<and> pred_option (begun conn_ok) (il_cycle s') \<and>
    (\<exists>new. il_datagrams s' = il_datagrams s @ new \<and> list_all dg_ok new)"
  using assms(1)
proof induction
  case (step t t')
  then obtain new where "il_datagrams t = il_datagrams s @ new" "list_all dg_ok new" by blast
  moreover from step.IH interleaved_step_keeps [OF steps [OF step.hyps(2)] publishes [OF step.hyps(1)]]
  obtain new' where "il_datagrams t' = il_datagrams t @ new'" "list_all dg_ok new'"
    "pred_option conn_ok (mgr_connection (il_manager t'))" "pred_option (begun conn_ok) (il_cycle t')"
    by blast
  ultimately show ?case
    by (intro conjI exI [of _ "new @ new'"]) simp_all
qed (use assms(4,5) in auto)

end

interpretation torn_allowed: torn_contract cfg "\<lambda>dc. list_all (within_limits limits) (dc_commands dc)"
    "connection_allowed limits" "datagram_allowed limits" for cfg limits
  by unfold_locales simp

interpretation torn_unpowered: torn_contract cfg "\<lambda>dc. \<not> dc_power_enabled dc"
    connection_unpowered datagram_unpowered for cfg
  by unfold_locales simp

subsection \<open>What the core publishes\<close>

lemma published_with_actions [simp]: "published_ok limits (with_actions bits cm) = published_ok limits cm"
  by (simp add: published_ok_def published_def with_actions_def)

lemma interleaved_step_published:
  assumes "interleaved_step cfg s s'" "published_ok limits (il_core s)"
  shows "published_ok limits (il_core s')"
  using assms(1)
proof (cases rule: interleaved_step_cases)
  case (core_handles ev env cm)
  then show ?thesis
    using published.inv_event [OF core_handles(4)] assms(2) by simp
next
  case (message_handled m ms env cm)
  then show ?thesis
    using published.inv_message [OF message_handled(4)] assms(2) by simp
qed (use assms(2) in \<open>simp_all add: published.inv_outputs\<close>)

lemma interleaved_run_published:
  assumes "(interleaved_step cfg)\<^sup>*\<^sup>* s s'" "published_ok limits (il_core s)"
  shows "published_ok limits (il_core s')"
  using assms by induction (auto intro: interleaved_step_published)

lemma interleaved_start_published: "published_ok limits (il_core (interleaved_start limits hid_io ws))"
  by (simp add: interleaved_start_def published_ok_start)

lemma published_shared: "published_ok limits cm \<Longrightarrow> list_all (within_limits limits) (dc_commands (shared_commands cm))"
  by (simp add: shared_commands_def published_within)

lemma interleaved_reachable:
  assumes "(interleaved_step cfg)\<^sup>*\<^sup>* (interleaved_start limits hid_io ws) s"
  shows "published_ok limits (il_core s)"
    "pred_option (connection_allowed limits) (mgr_connection (il_manager s))"
    "pred_option (begun (connection_allowed limits)) (il_cycle s)"
    "list_all (datagram_allowed limits) (il_datagrams s)"
proof -
  let ?start = "interleaved_start limits hid_io ws"
  have published: "published_ok limits (il_core t)" if "(interleaved_step cfg)\<^sup>*\<^sup>* ?start t" for t
    using interleaved_run_published [OF that interleaved_start_published] .
  from this [OF assms] show "published_ok limits (il_core s)" .
  have "mgr_connection (il_manager ?start) = None" "il_cycle ?start = None" "il_datagrams ?start = []"
    by (simp_all add: interleaved_start_def manager_initial_def)
  with torn_allowed.interleaved_run_keeps [OF assms _ published_shared [OF published]]
  show "pred_option (connection_allowed limits) (mgr_connection (il_manager s))"
    "pred_option (begun (connection_allowed limits)) (il_cycle s)"
    "list_all (datagram_allowed limits) (il_datagrams s)"
    by auto
qed

subsection \<open>While the power is off\<close>

definition unpowered_interleaving :: "drive_config \<Rightarrow> interleaved \<Rightarrow> interleaved \<Rightarrow> bool" where
  "unpowered_interleaving cfg s s' \<longleftrightarrow> interleaved_step cfg s s' \<and>
     \<not> dc_power_enabled (shared_commands (il_core s'))"

lemma unpowered_interleaving_run:
  assumes "(unpowered_interleaving cfg)\<^sup>*\<^sup>* s s'"
  shows "(interleaved_step cfg)\<^sup>*\<^sup>* s s'"
    and "\<not> dc_power_enabled (shared_commands (il_core s)) \<Longrightarrow> \<not> dc_power_enabled (shared_commands (il_core s'))"
proof -
  show "(interleaved_step cfg)\<^sup>*\<^sup>* s s'"
    using assms by (rule rtranclp_mono [THEN predicate2D, rotated]) (auto simp: unpowered_interleaving_def)
  show "\<not> dc_power_enabled (shared_commands (il_core s'))" if "\<not> dc_power_enabled (shared_commands (il_core s))"
    using assms that by induction (auto simp: unpowered_interleaving_def)
qed

lemma begun_switches_off:
  assumes "begun (connection_allowed limits) mid" "loop_end p True shared mid = Some c"
    and "\<not> dc_power_enabled shared"
  shows "connection_unpowered c"
proof -
  obtain env pending c0 ef pending' where c0: "connection_allowed limits c0"
    "loop_begin env pending c0 = (ef, pending', Inr mid)"
    using assms(1) unfolding begun_def by blast
  have "length (c_buffer c0) = BUFFER_SIZE"
    using c0(1) by (simp add: connection_allowed_def)
  from loop_tick_switches_off [OF torn_cycle [OF c0(2) assms(2)] this] assms(3) show ?thesis
    by simp
qed

text \<open>The power is off from a cycle on that ends with the lock, however the threads interleave.\<close>

lemma interleaved_unpowered:
  assumes "(interleaved_step cfg)\<^sup>*\<^sup>* (interleaved_start limits hid_io ws) s"
    and "\<not> dc_power_enabled (shared_commands (il_core s))"
    and "il_cycle s = Some mid" "loop_end p True (shared_commands (il_core s)) mid = Some c"
    and "(unpowered_interleaving cfg)\<^sup>*\<^sup>*
      (s\<lparr>il_cycle := None, il_manager := (il_manager s)\<lparr>mgr_connection := Some c\<rparr>\<rparr>) s'"
  shows "\<exists>new. il_datagrams s' = il_datagrams s @ new \<and> list_all datagram_unpowered new"
proof -
  let ?t = "s\<lparr>il_cycle := None, il_manager := (il_manager s)\<lparr>mgr_connection := Some c\<rparr>\<rparr>"
  have off: "\<not> dc_power_enabled (shared_commands (il_core t))" if "(unpowered_interleaving cfg)\<^sup>*\<^sup>* ?t t" for t
    using unpowered_interleaving_run(2) [OF that] assms(2) by simp
  have "connection_unpowered c"
    using begun_switches_off [OF _ assms(4,2)] interleaved_reachable(3) [OF assms(1)] assms(3) by simp
  with torn_unpowered.interleaved_run_keeps [where cfg = cfg, OF assms(5) _ off] show ?thesis
    by (simp add: unpowered_interleaving_def)
qed

subsection \<open>The drive thread goes on\<close>

interpretation torn_live: torn_contract cfg "\<lambda>dc. sane_commands (dc_commands dc)"
    "\<lambda>c. config_ok cfg \<longrightarrow> connection_live cfg c" "\<lambda>_. True" for cfg
  by unfold_locales (simp add: sane_commands_def)

lemma shared_sane:
  assumes "published_ok limits cm" "raw_p (limit_position limits) \<le> 1073741823"
  shows "sane_commands (dc_commands (shared_commands cm))"
  using within_limits_sane [OF published_shared [OF assms(1)] assms(2)] .

lemma interleaved_live:
  assumes "(interleaved_step cfg)\<^sup>*\<^sup>* (interleaved_start limits hid_io ws) s" "config_ok cfg"
    and "raw_p (limit_position limits) \<le> 1073741823"
  shows "pred_option (connection_live cfg) (mgr_connection (il_manager s))"
    "pred_option (begun (connection_live cfg)) (il_cycle s)"
proof -
  let ?start = "interleaved_start limits hid_io ws"
  have start: "mgr_connection (il_manager ?start) = None" "il_cycle ?start = None"
    by (simp_all add: interleaved_start_def manager_initial_def)
  have "sane_commands (dc_commands (shared_commands (il_core t)))"
    if "(interleaved_step cfg)\<^sup>*\<^sup>* ?start t" for t
    using shared_sane [OF interleaved_reachable(1) [OF that] assms(3)] .
  from torn_live.interleaved_run_keeps [where cfg = cfg, OF assms(1) _ this] assms(2) start
  show "pred_option (connection_live cfg) (mgr_connection (il_manager s))"
    "pred_option (begun (connection_live cfg)) (il_cycle s)"
    by simp_all
qed

text \<open>A cycle that the drive answers ends whatever is published when it takes the lock.\<close>

lemma torn_cycle_answered:
  assumes "connection_live cfg c" "drive_answers env rsp" "env_core_alive (me_cycle env)"
  shows "\<exists>ef mid. loop_begin (me_cycle env) pending c = (ef, 0, Inr mid) \<and>
    ef_sent ef = Some (request_bytes (request_of c)) \<and>
    (\<forall>p free shared. sane_commands (dc_commands shared) \<longrightarrow> (\<exists>c'. loop_end p free shared mid = Some c'))"
proof -
  have c: "length (c_buffer c) = BUFFER_SIZE" "sane_connection c"
    using assms(1) by (simp_all add: connection_live_def)
  have ans: "answered (env_exchange (me_cycle env)) rsp"
    "\<And>pos. rsp_demand_position rsp = Some pos \<Longrightarrow> \<bar>raw_p pos\<bar> \<le> 1073741824"
    using assms(2) by (simp_all add: drive_answers_def)
  have halves: "\<exists>ef mid c'. loop_begin (me_cycle env) pending c = (ef, 0, Inr mid) \<and>
      ef_sent ef = Some (request_bytes (request_of c)) \<and> loop_end p free shared mid = Some c'"
    if "sane_commands (dc_commands shared)" for p free shared
  proof -
    let ?env = "(me_cycle env)\<lparr>env_lock_free := free\<rparr>"
    have "answered (env_exchange ?env) rsp" "env_core_alive ?env"
      using ans(1) assms(3) by simp_all
    from loop_tick_answered [OF c(1) this c(2), of "\<lparr>di_commands = shared, di_actions = pending\<rparr>" p] that ans(2)
    show ?thesis
      by (auto simp: loop_tick_def loop_begin_lock split: prod.splits sum.splits Option.bind_splits)
  qed
  have "sane_commands (dc_commands \<lparr>dc_power_enabled = False, dc_motion_enabled = False, dc_commands = []\<rparr>)"
    by (simp add: sane_commands_def)
  from halves [OF this] obtain ef mid where "loop_begin (me_cycle env) pending c = (ef, 0, Inr mid)"
    "ef_sent ef = Some (request_bytes (request_of c))"
    by blast
  with halves show ?thesis
    by (intro exI [of _ ef] exI [of _ mid]) fastforce
qed

subsection \<open>Motion\<close>

lemma loop_begin_settings:
  assumes "loop_begin env pending c = (ef, pending', Inr mid)" "length (c_buffer c) = BUFFER_SIZE"
  shows "c_overshoot_margin mid = c_overshoot_margin c" "length (c_buffer mid) = BUFFER_SIZE"
    "c_hard_deceleration_min mid = c_hard_deceleration_min c"
    "c_hard_deceleration_max mid = c_hard_deceleration_max c"
    "answered (env_exchange env) rsp' \<Longrightarrow> c_last_response mid = rsp'"
proof -
  let ?c = "c\<lparr>c_next_motion_command := None\<rparr>"
  from assms(1) obtain sent rsp c0 where
    send: "send_request (env_exchange env) (request_of c) ?c = (sent, Inr (rsp, c0))"
    and mid: "mid = apply_actions pending (case feedback_of (c0\<lparr>c_last_response := rsp,
        c_last_request := request_of c, c_last_command_index := c_active_command_index c0\<rparr>) of
      None \<Rightarrow> c0\<lparr>c_last_response := rsp, c_last_request := request_of c,
        c_last_command_index := c_active_command_index c0\<rparr>
    | Some (state, _) \<Rightarrow> c0\<lparr>c_last_response := rsp, c_last_request := request_of c,
        c_last_command_index := c_active_command_index c0, c_last_state := state\<rparr>)"
    by (auto simp: loop_begin_def request_of_def [symmetric] Let_def DriveActions_take_def
        split: prod.splits sum.splits if_splits)
  from send_request_buffer [of ?c "request_of c" "env_exchange env"] send assms(2)
  have c0: "length (c_buffer c0) = BUFFER_SIZE"
    "c0 = ?c\<lparr>c_buffer := c_buffer c0, c_last_rtt := c_last_rtt c0\<rparr>"
    by auto
  have sel: "c_overshoot_margin c0 = c_overshoot_margin c"
    "c_hard_deceleration_min c0 = c_hard_deceleration_min c"
    "c_hard_deceleration_max c0 = c_hard_deceleration_max c"
    by (subst c0(2), simp)+
  show "c_overshoot_margin mid = c_overshoot_margin c" "length (c_buffer mid) = BUFFER_SIZE"
    "c_hard_deceleration_min mid = c_hard_deceleration_min c"
    "c_hard_deceleration_max mid = c_hard_deceleration_max c"
    by (auto simp: mid sel c0(1) apply_actions_def Let_def split: option.split)
  show "c_last_response mid = rsp'" if "answered (env_exchange env) rsp'"
    using send_request_answered [OF _ that, of ?c "request_of c"] send assms(2)
    by (auto simp: mid apply_actions_def Let_def split: option.split)
qed

text \<open>A cycle that ends with the lock, on a powered and homed drive that is to move.\<close>

lemma interleaved_moves:
  assumes "(interleaved_step cfg)\<^sup>*\<^sup>* (interleaved_start limits hid_io ws) s"
    and "config_ok cfg" "raw_p (limit_position limits) \<le> 1073741823"
    and "il_cycle s = Some mid" "loop_end p True (shared_commands (il_core s)) mid = Some c"
    and "dc_power_enabled (shared_commands (il_core s))" "dc_motion_enabled (shared_commands (il_core s))"
    and "dc_commands (shared_commands (il_core s)) \<noteq> []"
    and "Response_state (c_last_response mid) = Some (OperationEnabled n eh active inpos True)"
    and "rsp_demand_position (c_last_response mid) = Some pos"
    and "rsp_monitoring_channel (c_last_response mid) = Some (vel, rest)"
  shows "length (c_buffer c) = BUFFER_SIZE \<and>
    (\<exists>cmd d target dir. cmd \<in> set (dc_commands (shared_commands (il_core s))) \<and>
      c_next_motion_command c = Some \<lparr>mci_count = (n + 1) AND 0xF,
        mci_command = VaiGoToPos (position cmd) (velocity cmd) (acceleration cmd) d\<rparr> \<and>
      target \<in> position ` set (dc_commands (shared_commands (il_core s))) \<and>
      clamp_deceleration p pos (Velocity vel) target (deceleration cmd) dir (cfg_overshoot_margin cfg)
        (cfg_hard_deceleration_min cfg) (cfg_hard_deceleration_max cfg) = Some d)"
proof -
  obtain env pending c0 ef pending' where c0: "connection_live cfg c0"
    "loop_begin env pending c0 = (ef, pending', Inr mid)"
    using interleaved_live(2) [OF assms(1-3)] assms(4) unfolding begun_def by auto
  note settings = loop_begin_settings [OF c0(2)]
  let ?c = "read_commands (shared_commands (il_core s)) mid"
  have c: "compute_next_request p ?c = Some c" "c_power_enabled ?c" "c_motion_enabled ?c"
    "c_last_response ?c = c_last_response mid" "c_input_commands ?c = dc_commands (shared_commands (il_core s))"
    "c_overshoot_margin ?c = cfg_overshoot_margin cfg" "c_hard_deceleration_min ?c = cfg_hard_deceleration_min cfg"
    "c_hard_deceleration_max ?c = cfg_hard_deceleration_max cfg" "length (c_buffer ?c) = BUFFER_SIZE"
    using assms(5-7) settings c0(1) by (simp_all add: loop_end_def read_commands_def connection_live_def)
  show ?thesis
    using compute_next_request_moves [OF c(1-3), unfolded c(4-8), OF assms(9-11,8)]
      compute_next_request_frame [OF c(1)] c(9) by simp
qed

lemma loop_begin_sent:
  assumes "loop_begin env pending c = (ef, pending', r)" "ef_sent ef = Some dg" "length (c_buffer c) = BUFFER_SIZE"
  shows "drive_request dg = Some (on_the_wire (request_of c))"
proof -
  let ?c = "c\<lparr>c_next_motion_command := None\<rparr>"
  obtain sent r' where send: "send_request (env_exchange env) (request_of c) ?c = (sent, r')"
    by fastforce
  with assms(1) have "ef_sent ef = sent"
    by (auto simp: loop_begin_def request_of_def [symmetric] Let_def DriveActions_take_def
        split: sum.splits prod.splits if_splits)
  with send_request_buffer [of ?c "request_of c" "env_exchange env"] send assms(2,3) show ?thesis
    by (auto split: if_splits)
qed

subsection \<open>A start between the halves of a cycle\<close>

lemma not_reached_goes_on:
  assumes "compute_motion_command p n pos vel acc c = Some c'" "c_input_commands c \<noteq> []" "c_motion_enabled c"
    and "cmd = c_input_commands c ! (c_active_command_index c mod length (c_input_commands c))"
    and "target_reached p (position cmd) pos vel acc (c\<lparr>c_active_command_index :=
      c_active_command_index c mod length (c_input_commands c)\<rparr>) = Some (False, c1)"
  shows "\<exists>d. c_next_motion_command c' = Some \<lparr>mci_count = (n + 1) AND 0xF,
    mci_command = VaiGoToPos (position cmd) (velocity cmd) (acceleration cmd) d\<rparr>"
proof -
  have "c_active_command_index c1 = c_active_command_index c mod length (c_input_commands c)"
    "c_input_commands c1 = c_input_commands c" "c_motion_enabled c1"
    using assms(3,5) by (auto simp: target_reached_def Let_def split: Option.bind_splits)
  then show ?thesis
    using assms by (auto simp: compute_motion_command_def Let_def advance_command_def
        split: Option.bind_splits)
qed

text \<open>What a start does to the interface: the motion is on before the index is reset.\<close>

lemma start_publishes:
  assumes "handle_message env c (SetMotionState seq Start) (with_actions 0 cm) = (Inr (), cm')"
    and "holder cm = Some c" "cs_drive_state (cm_core_state cm) = Paused"
  shows "shared_commands cm' = (shared_commands cm)\<lparr>dc_motion_enabled := True\<rparr>"
    "pending_actions cm' = ACTION_RESET_INDEX"
proof -
  let ?cm = "send_actions ACTION_RESET_INDEX (lock_commands (dc_motion_enabled_update (\<lambda>_. True)) (with_actions 0 cm))"
  have "send env (Some c) (Ack seq True None) ?cm = (Inr (), cm')"
    using assms by (simp add: handle_message_def set_motion_state_def motion_action_valid_def
        with_actions_def holder_def Let_def)
  from send_effect [OF this] have "cm_drive cm' = cm_drive ?cm"
    by (auto simp: only_sends_simps(2))
  then show "shared_commands cm' = (shared_commands cm)\<lparr>dc_motion_enabled := True\<rparr>"
    "pending_actions cm' = ACTION_RESET_INDEX"
    by (simp_all add: shared_commands_def pending_actions_def with_actions_def send_actions_def
        lock_commands_def DriveActions_send_def)
qed

text \<open>
  A cycle that ends between the two moves the drive on towards the command that was active before,
  although a start is to begin with the first one.
\<close>

lemma torn_start:
  assumes "handle_message env ctl (SetMotionState seq Start) (with_actions 0 cm) = (Inr (), cm')"
    and "holder cm = Some ctl" "cs_drive_state (cm_core_state cm) = Paused"
    and "dc_power_enabled (shared_commands cm)" "dc_commands (shared_commands cm) \<noteq> []"
    and "loop_end p True (shared_commands cm') mid = Some c"
    and "Response_state (c_last_response mid) = Some (OperationEnabled n eh active inpos True)"
    and "rsp_demand_position (c_last_response mid) = Some pos"
    and "rsp_monitoring_channel (c_last_response mid) = Some (vel, acc, rest)"
    and "cmd = dc_commands (shared_commands cm) !
      (c_active_command_index mid mod length (dc_commands (shared_commands cm)))"
    and "target_reached p (position cmd) pos (Velocity vel) (Acceleration acc)
      ((read_commands (shared_commands cm') mid)\<lparr>c_active_command_index :=
        c_active_command_index mid mod length (dc_commands (shared_commands cm))\<rparr>) = Some (False, c1)"
  shows "\<exists>d. c_next_motion_command c = Some \<lparr>mci_count = (n + 1) AND 0xF,
    mci_command = VaiGoToPos (position cmd) (velocity cmd) (acceleration cmd) d\<rparr>"
proof -
  note shared = start_publishes(1) [OF assms(1-3)]
  let ?c = "read_commands (shared_commands cm') mid"
  obtain x y where rest: "rest = (x, y)" by (cases rest)
  have c: "c_power_enabled ?c" "c_motion_enabled ?c" "c_input_commands ?c = dc_commands (shared_commands cm)"
    "c_last_response ?c = c_last_response mid" "c_active_command_index ?c = c_active_command_index mid"
    using assms(4) by (simp_all add: shared read_commands_def)
  have "compute_motion_command p n pos (Velocity vel) (Acceleration acc) ?c = Some c"
    using assms(6-9) c by (simp add: loop_end_def compute_next_request_def update_control_flags_def rest Let_def)
  from not_reached_goes_on [OF this, of cmd c1] assms(5,10,11) c show ?thesis
    by simp
qed

text \<open>A cycle that begins after the bit is set starts with the first command.\<close>

lemma reset_in_next_cycle:
  assumes "loop_begin env pending c = (ef, pending', Inr mid)" "pending AND ACTION_RESET_INDEX \<noteq> 0"
  shows "c_active_command_index mid = 0" "\<not> c_active_command_has_approached mid"
    "c_active_approach_direction mid = None"
  using assms by (auto simp: loop_begin_def DriveActions_take_def apply_actions_def Let_def
      split: prod.splits sum.splits if_splits)

subsection \<open>Atomic events are interleavings\<close>

text \<open>The core handles a message the same way whatever action bits are pending, and adds its own.\<close>

lemma with_actions_simps [simp]:
  "cm_limits (with_actions bits cm) = cm_limits cm" "cm_hid_ui (with_actions bits cm) = cm_hid_ui cm"
  "cm_websocket_server (with_actions bits cm) = cm_websocket_server cm"
  "cm_core_state (with_actions bits cm) = cm_core_state cm" "cm_sent (with_actions bits cm) = cm_sent cm"
  "cm_active_command_set (with_actions bits cm) = cm_active_command_set cm"
  "cm_saved_command_sets (with_actions bits cm) = cm_saved_command_sets cm"
  "holder (with_actions bits cm) = holder cm" "pending_actions (with_actions bits cm) = bits"
  "with_actions bits' (with_actions bits cm) = with_actions bits' cm"
  "with_actions (pending_actions cm) cm = cm"
  by (simp_all add: with_actions_def holder_def pending_actions_def)

lemma with_actions_swaps:
  "(with_actions bits cm)\<lparr>cm_hid_ui := ui, cm_sent := out\<rparr> = with_actions bits (cm\<lparr>cm_hid_ui := ui, cm_sent := out\<rparr>)"
  "(with_actions bits cm)\<lparr>cm_sent := out\<rparr> = with_actions bits (cm\<lparr>cm_sent := out\<rparr>)"
  "(with_actions bits cm)\<lparr>cm_active_command_set := active\<rparr> = with_actions bits (cm\<lparr>cm_active_command_set := active\<rparr>)"
  "(with_actions bits cm)\<lparr>cm_saved_command_sets := saved\<rparr> = with_actions bits (cm\<lparr>cm_saved_command_sets := saved\<rparr>)"
  "(with_actions bits cm)\<lparr>cm_core_state := state\<rparr> = with_actions bits (cm\<lparr>cm_core_state := state\<rparr>)"
  "lock_commands f (with_actions bits cm) = with_actions bits (lock_commands f cm)"
  "set_holder h (with_actions bits cm) = with_actions bits (set_holder h cm)"
  "send_actions b (with_actions bits cm) = with_actions (bits OR b) cm"
  "send_actions b cm = with_actions (pending_actions cm OR b) cm"
  by (simp_all add: with_actions_def lock_commands_def set_holder_def send_actions_def DriveActions_send_def
      pending_actions_def)

lemma send_with_actions:
  "send env d m (with_actions bits cm) = map_prod (\<lambda>r. r) (with_actions bits) (send env d m cm)"
  by (auto simp: send_def send_hid_def send_websocket_def and_then_def ok_def with_actions_swaps
      split: option.split sum.split ControllerId.split)

lemma send_all_with_actions:
  "send_all env post (with_actions bits cm) = map_prod (\<lambda>r. r) (with_actions bits) (send_all env post cm)"
proof (induction post arbitrary: cm)
  case (Cons dm post)
  then show ?case
    by (cases dm) (auto simp: and_then_def send_with_actions split: prod.split sum.split)
qed (simp add: ok_def)

text \<open>The bits a step adds, whatever is pending.\<close>

definition adds :: "step \<Rightarrow> CoreManager \<Rightarrow> u8 \<Rightarrow> bool" where
  "adds f cm b \<longleftrightarrow> (\<forall>bits. f (with_actions bits cm) = map_prod (\<lambda>r. r) (with_actions (bits OR b)) (f cm))"

lemma adds_result:
  assumes "adds f cm b" "f cm = (r, cm')"
  shows "f (with_actions 0 cm) = (r, with_actions b cm')" "pending_actions cm' = pending_actions cm OR b"
proof -
  have eq: "f (with_actions bits cm) = map_prod (\<lambda>r. r) (with_actions (bits OR b)) (f cm)" for bits
    using assms(1) by (simp add: adds_def)
  from eq [of 0] assms(2) show "f (with_actions 0 cm) = (r, with_actions b cm')" by simp
  from eq [of "pending_actions cm"] assms(2) have "cm' = with_actions (pending_actions cm OR b) cm'"
    by simp
  then show "pending_actions cm' = pending_actions cm OR b"
    by (metis with_actions_simps(9))
qed

lemma synced_with_actions: "synced (with_actions bits cm) = map_option (with_actions bits) (synced cm)"
  by (simp add: synced_def with_actions_swaps option.map_comp comp_def)

definition plan_adds :: "(CoreManager \<Rightarrow> (CoreManager \<times> post) option) \<Rightarrow> CoreManager \<Rightarrow> u8 \<Rightarrow> bool" where
  "plan_adds f cm b \<longleftrightarrow>
     (\<forall>bits. f (with_actions bits cm) = map_option (map_prod (with_actions (bits OR b)) (\<lambda>post. post)) (f cm))"

lemma plan_replace_adds: "\<exists>b. plan_adds (plan_replace env c seq base new) cm b"
proof (cases "base \<in> {None, Some (fst (cm_active_command_set cm))}")
  case True
  then have "plan_replace env c seq base new (with_actions bits cm) =
      map_option (map_prod (with_actions (bits OR ACTION_RESET_INDEX)) (\<lambda>post. post))
        (plan_replace env c seq base new cm)" for bits
    by (cases "next_version env (fst (cm_active_command_set cm))"; cases "synced (cm
        \<lparr>cm_active_command_set := (the (next_version env (fst (cm_active_command_set cm))), new)\<rparr>)")
      (simp_all add: plan_replace_def Let_def with_actions_swaps synced_with_actions)
  then show ?thesis
    by (auto simp: plan_adds_def)
next
  case False
  then show ?thesis
    by (intro exI [of _ 0]) (auto simp: plan_adds_def plan_replace_def answer_def Let_def)
qed

lemma plan_update_adds: "plan_adds (plan_update env c seq upd) cm 0"
  by (auto simp: plan_adds_def plan_update_def answer_def Let_def with_actions_swaps synced_with_actions
      split: prod.split Option.bind_split)

lemma plan_saved_adds: "plan_adds (plan_saved env c seq name base new) cm 0"
  by (auto simp: plan_adds_def plan_saved_def answer_def Let_def with_actions_swaps option.map_comp comp_def
      split: option.split)

lemma plan_adds: "\<exists>b. plan_adds (plan env c m) cm b"
proof (cases "controls m \<and> holder cm \<noteq> Some c")
  case True
  then show ?thesis
    by (intro exI [of _ 0]) (simp add: plan_adds_def plan_def answer_def)
next
  case False
  show ?thesis
  proof (cases m)
    case (UpsertCommandSet seq set_id base new)
    then show ?thesis
      using False plan_replace_adds [of env c seq base new cm]
      by (cases set_id) (auto simp: plan_adds_def plan_def
        plan_saved_adds [unfolded plan_adds_def, rule_format] intro: exI [of _ 0])
  next
    case (DeleteCommandSet seq set_id base)
    then show ?thesis
    proof (cases set_id)
      case None
      then show ?thesis
        using False DeleteCommandSet plan_replace_adds [of env c seq base "[]" cm]
        by (auto simp: plan_adds_def plan_def)
    next
      case (Some name)
      then show ?thesis
        using DeleteCommandSet by (intro exI [of _ 0]) (auto simp: plan_adds_def plan_def answer_def
          with_actions_swaps split: option.split)
    qed
  next
    case (UpdateCommand seq upd)
    then show ?thesis
      using False plan_update_adds [of env c seq upd cm]
      by (auto simp: plan_adds_def plan_def intro: exI [of _ 0])
  next
    case (SetMotionState seq action)
    then show ?thesis
      using False by (intro exI [of _ "if motion_action_valid action (cs_drive_state (cm_core_state cm))
          \<and> action \<in> {Start, Stop} then ACTION_RESET_INDEX else 0"])
        (auto simp: plan_adds_def plan_def answer_def with_actions_swaps)
  next
    case (AcknowledgeError seq)
    then show ?thesis
      using False by (intro exI [of _ "if cs_drive_state (cm_core_state cm) = Errored then ACTION_ACK_ERROR else 0"])
        (auto simp: plan_adds_def plan_def answer_def with_actions_swaps)
  qed (use False in \<open>auto simp: plan_adds_def plan_def answer_def may_take_def with_actions_swaps
      split: option.split intro: exI [of _ 0]\<close>)
qed

lemma message_adds:
  assumes "handle_message env c m cm = (r, cm')" "r \<noteq> Inl Panic"
  shows "\<exists>b. handle_message env c m (with_actions 0 cm) = (r, with_actions b cm') \<and>
    pending_actions cm' = pending_actions cm OR b"
proof -
  obtain b where b: "plan_adds (plan env c m) cm b"
    using plan_adds by blast
  from assms obtain cm1 post where plan: "plan env c m cm = Some (cm1, post)"
    and sent: "send_all env post cm1 = (r, cm')"
    by (auto elim: handle_message_cases)
  have "handle_message env c m (with_actions bits cm) = (r, with_actions (bits OR b) cm')" for bits
    using handle_message_follows [of env c m "with_actions bits cm"] b plan sent
    by (simp add: plan_adds_def follows_def send_all_with_actions)
  then have "adds (handle_message env c m) cm b"
    by (simp add: adds_def assms(1))
  from adds_result [OF this assms(1)] show ?thesis
    by blast
qed

lemma event_adds:
  assumes "handle_event env ev cm = (Inr (), cm')" "\<And>report. ev \<noteq> HidInputReport report"
  shows "\<exists>b. handle_event env ev (with_actions 0 cm) = (Inr (), with_actions b cm') \<and>
    pending_actions cm' = pending_actions cm OR b"
proof (cases "\<exists>c m. ev = Message c m")
  case True
  then obtain c m where "ev = Message c m" by blast
  with assms(1) message_adds [of env c m cm "Inr ()" cm'] show ?thesis
    by (simp add: handle_event_def)
next
  case False
  with assms(2) have "adds (handle_event env ev) cm 0"
    by (cases ev) (fastforce simp: adds_def handle_event_def controller_disconnected_def ok_def
      with_actions_swaps send_with_actions Let_def)+
  from adds_result [OF this assms(1)] show ?thesis
    by (intro exI [of _ 0]) simp
qed

text \<open>The states of the atomic system are those where neither thread is in the middle of something.\<close>

definition settled :: "system \<Rightarrow> interleaved" where
  "settled s = \<lparr>il_core = sys_core s, il_unsent = 0, il_unread = [], il_manager = sys_manager s,
     il_cycle = None, il_datagrams = sys_datagrams s\<rparr>"

lemma actions_follow:
  assumes "pending_actions cm' = pending_actions (il_core s) OR b"
  shows "interleaved_step cfg (core_publishes (with_actions b cm') s) (s\<lparr>il_core := cm', il_unsent := 0\<rparr>)"
proof -
  let ?s = "core_publishes (with_actions b cm') s"
  have "with_actions (pending_actions (il_core s) OR b) cm' = cm'"
    using assms by (metis with_actions_simps(11))
  then have "?s\<lparr>il_core := send_actions (il_unsent ?s) (il_core ?s), il_unsent := 0\<rparr> =
      s\<lparr>il_core := cm', il_unsent := 0\<rparr>"
    by (simp add: core_publishes_def with_actions_swaps)
  with actions_set [of cfg ?s] show ?thesis by simp
qed

lemma messages_follow:
  assumes "handle_messages env Hid ms (il_core s) = (Inr (), cm)" "il_unread s = ms" "il_unsent s = 0"
  shows "(interleaved_step cfg)\<^sup>*\<^sup>* s (s\<lparr>il_core := cm, il_unread := []\<rparr>)"
  using assms
proof (induction ms arbitrary: s)
  case Nil
  then show ?case
    by (cases s) (simp add: ok_def)
next
  case (Cons m ms)
  from Cons.prems(1) have "and_then (handle_message env Hid m) (handle_messages env Hid ms) (il_core s) = (Inr (), cm)"
    by simp
  then obtain cm1 where first: "handle_message env Hid m (il_core s) = (Inr (), cm1)"
    and others: "handle_messages env Hid ms cm1 = (Inr (), cm)"
    by (auto simp: and_then_def split: prod.splits sum.splits)
  obtain b where b: "handle_message env Hid m (with_actions 0 (il_core s)) = (Inr (), with_actions b cm1)"
    "pending_actions cm1 = pending_actions (il_core s) OR b"
    using message_adds [OF first] by auto
  let ?s = "s\<lparr>il_unread := ms\<rparr>" and ?t = "s\<lparr>il_core := cm1, il_unread := ms\<rparr>"
  have "interleaved_step cfg s (core_publishes (with_actions b cm1) ?s)"
    using message_handled [OF Cons.prems(3,2) b(1)] .
  moreover have "interleaved_step cfg (core_publishes (with_actions b cm1) ?s) ?t"
    using actions_follow [of cm1 ?s b cfg] b(2) Cons.prems(3) by (cases s) simp
  moreover have "(interleaved_step cfg)\<^sup>*\<^sup>* ?t (s\<lparr>il_core := cm, il_unread := []\<rparr>)"
    using Cons.IH [of ?t] others Cons.prems(3) by simp
  ultimately show ?case
    by (meson converse_rtranclp_into_rtranclp)
qed

lemma event_interleaved:
  assumes "handle_event env ev (sys_core s) = (Inr (), cm)"
  shows "(interleaved_step cfg)\<^sup>*\<^sup>* (settled s) (settled (s\<lparr>sys_core := cm\<rparr>))"
proof (cases "\<exists>report. ev = HidInputReport report")
  case False
  then obtain b where b: "handle_event env ev (with_actions 0 (sys_core s)) = (Inr (), with_actions b cm)"
    "pending_actions cm = pending_actions (sys_core s) OR b"
    using event_adds [OF assms] by blast
  have "interleaved_step cfg (settled s) (core_publishes (with_actions b cm) (settled s))"
    by (rule core_handles [where ev = ev and env = env]) (use False b(1) in \<open>simp_all add: settled_def core_idle_def\<close>)
  moreover have "interleaved_step cfg (core_publishes (with_actions b cm) (settled s)) (settled (s\<lparr>sys_core := cm\<rparr>))"
    using actions_follow [of cm "settled s" b cfg] b(2) by (simp add: settled_def)
  ultimately show ?thesis
    by (meson converse_rtranclp_into_rtranclp r_into_rtranclp)
next
  case True
  then obtain report where report: "ev = HidInputReport report" by blast
  show ?thesis
  proof (cases "cm_hid_ui (sys_core s)")
    case None
    with assms report show ?thesis
      by (cases s) (simp add: handle_event_def hid_input_report_def ok_def)
  next
    case (Some ui)
    with assms report obtain messages reports ui' where
      read: "process_input_report (ce_profile env) (ce_hid_alive env (length (cm_sent (sys_core s)))) report
        (cm_limits (sys_core s)) (cm_core_state (sys_core s)) ui = Some (Inr (messages, reports, ui'))"
      and handled: "handle_messages env Hid messages ((sys_core s)\<lparr>cm_hid_ui := Some ui',
        cm_sent := cm_sent (sys_core s) @ map ToHid reports\<rparr>) = (Inr (), cm)"
      by (auto simp: handle_event_def hid_input_report_def panic_def split: option.splits sum.splits prod.splits)
    let ?t = "(settled s)\<lparr>il_unread := messages, il_core := (sys_core s)\<lparr>cm_hid_ui := Some ui',
      cm_sent := cm_sent (sys_core s) @ map ToHid reports\<rparr>\<rparr>"
    have "interleaved_step cfg (settled s) ?t"
      using report_read [of "settled s" ui _ _ report messages reports ui' cfg] Some read
      by (simp add: settled_def core_idle_def)
    moreover have "(interleaved_step cfg)\<^sup>*\<^sup>* ?t (settled (s\<lparr>sys_core := cm\<rparr>))"
      using messages_follow [of env messages ?t cm cfg] handled by (simp add: settled_def)
    ultimately show ?thesis
      by (rule converse_rtranclp_into_rtranclp)
  qed
qed

lemma loop_begin_fails: "loop_begin env pending c = (ef, pending', Inl e) \<Longrightarrow> pending' = pending"
  by (auto simp: loop_begin_def Let_def DriveActions_take_def split: prod.splits sum.splits if_splits)

lemma cycle_interleaved:
  assumes "manager_step p cfg env (cm_drive (sys_core s)) (sys_manager s) = Some (ef, iface, m)"
  shows "(interleaved_step cfg)\<^sup>*\<^sup>* (settled s) (settled (s\<lparr>sys_core := (sys_core s)\<lparr>cm_drive := iface\<rparr>,
    sys_manager := m, sys_datagrams := sys_datagrams s @ (case ef_sent ef of None \<Rightarrow> [] | Some dg \<Rightarrow> [dg])\<rparr>))"
proof (cases "mgr_connection (sys_manager s)")
  case None
  with assms have iface: "iface = cm_drive (sys_core s)"
    by (auto simp: manager_step_def Let_def split: prod.splits sum.splits Option.bind_splits)
  have "interleaved_step cfg (settled s) (sends ef ((settled s)\<lparr>il_manager := m\<rparr>))"
    using connects [of "settled s" p cfg env ef iface m] None assms by (simp add: settled_def)
  then show ?thesis
    by (simp add: settled_def sends_def iface r_into_rtranclp)
next
  case (Some c)
  let ?iface = "cm_drive (sys_core s)"
  from assms Some obtain r where tick: "loop_tick p (me_cycle env) ?iface c = Some (ef, iface, r)"
    and m: "m = (case r of Inr c \<Rightarrow> (sys_manager s)\<lparr>mgr_connection := Some c\<rparr>
      | Inl _ \<Rightarrow> (sys_manager s)\<lparr>mgr_connection := None\<rparr>)"
    by (auto simp: manager_step_def split: Option.bind_splits)
  obtain pending r' where begins: "loop_begin (me_cycle env) (pending_actions (sys_core s)) c = (ef, pending, r')"
    and iface: "iface = ?iface\<lparr>di_actions := pending\<rparr>"
    and ends: "case r' of Inl e \<Rightarrow> r = Inl e
      | Inr mid \<Rightarrow> \<exists>c'. loop_end p (env_lock_free (me_cycle env)) (di_commands ?iface) mid = Some c' \<and> r = Inr c'"
    using tick
    by (auto simp: loop_tick_def pending_actions_def split: prod.splits sum.splits Option.bind_splits)
  have core: "(sys_core s)\<lparr>cm_drive := iface\<rparr> = with_actions pending (sys_core s)"
    by (simp add: with_actions_def iface)
  show ?thesis
  proof (cases r')
    case (Inl e)
    have "interleaved_step cfg (settled s)
        (sends ef ((settled s)\<lparr>il_manager := (sys_manager s)\<lparr>mgr_connection := None\<rparr>\<rparr>))"
      using cycle_fails [of "settled s" c "me_cycle env" ef pending e cfg] Some begins Inl
      by (simp add: settled_def)
    then show ?thesis
      using Inl ends m core loop_begin_fails [of "me_cycle env" "pending_actions (sys_core s)" c ef pending e] begins
      by (simp add: settled_def sends_def r_into_rtranclp)
  next
    case (Inr mid)
    then obtain c' where c': "loop_end p (env_lock_free (me_cycle env)) (di_commands ?iface) mid = Some c'"
      "r = Inr c'"
      using ends by auto
    let ?t = "sends ef ((settled s)\<lparr>il_core := with_actions pending (sys_core s), il_cycle := Some mid\<rparr>)"
    have "interleaved_step cfg (settled s) ?t"
      using cycle_begins [of "settled s" c "me_cycle env" ef pending mid cfg] Some begins Inr
      by (simp add: settled_def)
    moreover have "interleaved_step cfg ?t (settled (s\<lparr>sys_core := (sys_core s)\<lparr>cm_drive := iface\<rparr>,
        sys_manager := m, sys_datagrams := sys_datagrams s @ (case ef_sent ef of None \<Rightarrow> [] | Some dg \<Rightarrow> [dg])\<rparr>))"
      using cycle_ends [of ?t mid p "env_lock_free (me_cycle env)" c' cfg] c' m core
      by (simp add: settled_def sends_def shared_commands_def with_actions_def)
    ultimately show ?thesis
      by (meson converse_rtranclp_into_rtranclp r_into_rtranclp)
  qed
qed

text \<open>The interleaved system can do what the atomic one does.\<close>

lemma atomic_runs_are_interleavings:
  assumes "(system_step cfg)\<^sup>*\<^sup>* s s'"
  shows "(interleaved_step cfg)\<^sup>*\<^sup>* (settled s) (settled s')"
  using assms
proof induction
  case (step t t')
  from step.hyps(2) have "(interleaved_step cfg)\<^sup>*\<^sup>* (settled t) (settled t')"
    by (cases rule: system_step_cases) (auto intro: event_interleaved cycle_interleaved)
  with step.IH show ?case by simp
qed simp

lemma settled_start: "settled (system_start limits hid_io ws) = interleaved_start limits hid_io ws"
  by (simp add: settled_def system_start_def interleaved_start_def)

subsection \<open>Concrete runs\<close>

lemma example_connected:
  "\<exists>s c. (interleaved_step example_config)\<^sup>*\<^sup>* (interleaved_start example_limits True True) s \<and>
    il_datagrams s = [request_bytes Request_default] \<and> mgr_connection (il_manager s) = Some c"
proof -
  let ?s = "interleaved_start example_limits True True"
  obtain ef m c where connect: "manager_step Debug example_config example_manager_env (cm_drive (il_core ?s))
      (il_manager ?s) = Some (ef, cm_drive (il_core ?s), m)"
    "ef_sent ef = Some (request_bytes Request_default)" "mgr_connection m = Some c"
    using example_connects [of "cm_drive (il_core ?s)"] by (auto simp: interleaved_start_def)
  have "interleaved_step example_config ?s (sends ef (?s\<lparr>il_manager := m\<rparr>))"
    using connects [OF _ connect(1)] by (simp add: interleaved_start_def manager_initial_def)
  then show ?thesis
    using connect by (intro exI [of _ "sends ef (?s\<lparr>il_manager := m\<rparr>)"] exI [of _ c])
      (simp add: sends_def interleaved_start_def r_into_rtranclp)
qed

text \<open>A browser has taken the write access; it disconnects, the drive thread connects and makes a cycle.\<close>

definition example_held_system :: system where
  "example_held_system = (system_start example_limits True True)\<lparr>sys_core := example_held\<rparr>"

lemma example_held_reached:
  "(interleaved_step example_config)\<^sup>*\<^sup>* (interleaved_start example_limits True True) (settled example_held_system)"
proof -
  have "system_step example_config (system_start example_limits True True) example_held_system"
    using core_event [of example_env _ "system_start example_limits True True"] example_held(1)
    by (simp add: example_held_system_def system_start_def example_core_def)
  from atomic_runs_are_interleavings [OF r_into_rtranclp [where r = "system_step example_config", OF this]]
  show ?thesis by (simp add: settled_start)
qed

lemma example_switched_off:
  "\<exists>cm t mid conn u dg. handle_event example_env (ControllerDisconnected (WebSocket 3)) (with_actions 0 example_held) =
      (Inr (), cm) \<and>
    (unpowered_interleaving example_config)\<^sup>*\<^sup>* (core_publishes cm (settled example_held_system)) t \<and>
    il_cycle t = Some mid \<and> loop_end Debug True (shared_commands (il_core t)) mid = Some conn \<and>
    (unpowered_interleaving example_config)\<^sup>*\<^sup>*
      (t\<lparr>il_cycle := None, il_manager := (il_manager t)\<lparr>mgr_connection := Some conn\<rparr>\<rparr>) u \<and>
    il_datagrams u = il_datagrams t @ [dg]"
proof -
  obtain cm where event: "handle_event example_env (ControllerDisconnected (WebSocket 3)) example_held = (Inr (), cm)"
    and off: "dc_commands (di_commands (cm_drive cm)) = []" "\<not> dc_power_enabled (di_commands (cm_drive cm))"
    using example_held(3) by blast
  obtain b where disconnect: "handle_event example_env (ControllerDisconnected (WebSocket 3)) (with_actions 0 example_held) =
      (Inr (), with_actions b cm)"
    using event_adds [OF event] by auto
  let ?s = "core_publishes (with_actions b cm) (settled example_held_system)"
  have shared: "\<not> dc_power_enabled (shared_commands (il_core ?s))" "dc_commands (shared_commands (il_core ?s)) = []"
    using off by (simp_all add: shared_commands_def [of cm])
  have start: "il_manager ?s = manager_initial" "il_cycle ?s = None" "mgr_connection manager_initial = None"
    by (simp_all add: settled_def example_held_system_def system_start_def manager_initial_def)
  obtain ef m c where connect: "manager_step Debug example_config example_manager_env (cm_drive (il_core ?s))
      (il_manager ?s) = Some (ef, cm_drive (il_core ?s), m)"
    and c: "mgr_connection m = Some c" "length (c_buffer c) = BUFFER_SIZE" "sane_connection c"
    using example_connects [of "cm_drive (il_core ?s)"] start by auto
  have live: "connection_live example_config c"
    using live.manager_step_keeps [OF connect] example_config_ok c(1) start shared(2)
    by (auto simp: sane_commands_def shared_commands_def)
  let ?t = "sends ef (?s\<lparr>il_manager := m\<rparr>)"
  have to_t: "unpowered_interleaving example_config ?s ?t"
    using connects [OF _ connect] start shared(1) by (simp add: unpowered_interleaving_def)
  obtain ef2 mid conn where cycle: "loop_begin (me_cycle example_manager_env) (pending_actions (il_core ?t)) c = (ef2, 0, Inr mid)"
    "loop_end Debug True (shared_commands (il_core ?s)) mid = Some conn"
    using torn_cycle_answered [OF live example_drive_answers(1,2), of "pending_actions (il_core ?t)"] shared(2)
    by (fastforce simp: sane_commands_def)
  let ?u = "sends ef2 (?t\<lparr>il_core := with_actions 0 (il_core ?t), il_cycle := Some mid\<rparr>)"
  have to_u: "unpowered_interleaving example_config ?t ?u"
    using cycle_begins [OF _ _ cycle(1)] start c(1) shared(1) by (simp add: unpowered_interleaving_def)
  let ?v = "?u\<lparr>il_cycle := None, il_manager := (il_manager ?u)\<lparr>mgr_connection := Some conn\<rparr>\<rparr>"
  have "connection_live example_config conn"
    using torn_live.end_keeps [OF torn_live.begin_begun [OF cycle(1)] cycle(2)] live shared(2) example_config_ok
    by (simp add: sane_commands_def)
  then obtain ef3 mid2 where again: "loop_begin (me_cycle example_manager_env) (pending_actions (il_core ?v)) conn =
      (ef3, 0, Inr mid2)" "ef_sent ef3 = Some (request_bytes (request_of conn))"
    using torn_cycle_answered [OF _ example_drive_answers(1,2)] by blast
  let ?w = "sends ef3 (?v\<lparr>il_core := with_actions 0 (il_core ?v), il_cycle := Some mid2\<rparr>)"
  have "unpowered_interleaving example_config ?v ?w"
    using cycle_begins [OF _ _ again(1)] shared(1) by (simp add: unpowered_interleaving_def)
  moreover have "(unpowered_interleaving example_config)\<^sup>*\<^sup>* ?s ?u"
    using to_t to_u by (meson converse_rtranclp_into_rtranclp r_into_rtranclp)
  moreover have "il_cycle ?u = Some mid" "loop_end Debug True (shared_commands (il_core ?u)) mid = Some conn"
    "il_datagrams ?w = il_datagrams ?u @ [request_bytes (request_of conn)]"
    using cycle(2) again(2) by simp_all
  ultimately show ?thesis
    using disconnect by (meson r_into_rtranclp)
qed

lemma example_cycle_ends:
  assumes "run_core evs example_core = (Inr (), cm)"
  shows "\<exists>s mid c. (interleaved_step example_config)\<^sup>*\<^sup>* (interleaved_start example_limits True True) s \<and>
    il_cycle s = Some mid \<and> loop_end Debug True (shared_commands (il_core s)) mid = Some c \<and>
    shared_commands (il_core s) = di_commands (cm_drive cm) \<and> c_last_response mid = example_answer \<and>
    connection_live example_config c"
proof -
  obtain s0 c0 where s0: "(system_step example_config)\<^sup>*\<^sup>* (system_start example_limits True True) s0"
    "mgr_connection (sys_manager s0) = Some c0"
    and same: "shared_commands (sys_core s0) = di_commands (cm_drive cm)"
    using example_ready [OF assms] by (auto simp: shared_commands_def)
  let ?s = "settled s0"
  have reached: "(interleaved_step example_config)\<^sup>*\<^sup>* (interleaved_start example_limits True True) ?s"
    using atomic_runs_are_interleavings [OF s0(1)] by (simp add: settled_start)
  have live: "connection_live example_config c0"
    using interleaved_live(1) [OF reached example_config_ok example_limits_small] s0(2)
    by (simp add: settled_def)
  have sane: "sane_commands (dc_commands (shared_commands (sys_core s0)))"
    using shared_sane [OF interleaved_reachable(1) [OF reached] example_limits_small] by (simp add: settled_def)
  obtain ef mid c where cycle: "loop_begin (me_cycle example_manager_env) (pending_actions (sys_core s0)) c0 = (ef, 0, Inr mid)"
    "loop_end Debug True (shared_commands (sys_core s0)) mid = Some c"
    using torn_cycle_answered [OF live example_drive_answers(1,2)] sane by blast
  let ?t = "sends ef (?s\<lparr>il_core := with_actions 0 (il_core ?s), il_cycle := Some mid\<rparr>)"
  have "interleaved_step example_config ?s ?t"
    using cycle_begins [of ?s c0 "me_cycle example_manager_env" ef 0 mid] s0(2) cycle(1)
    by (simp add: settled_def)
  with reached have "(interleaved_step example_config)\<^sup>*\<^sup>* (interleaved_start example_limits True True) ?t"
    by (rule rtranclp.rtrancl_into_rtrancl)
  moreover have "answered (env_exchange (me_cycle example_manager_env)) example_answer"
    using example_drive_answers(1) by (simp add: drive_answers_def)
  then have "c_last_response mid = example_answer"
    using loop_begin_settings(5) [OF cycle(1)] live by (simp add: connection_live_def)
  moreover have "connection_live example_config c"
    using torn_live.end_keeps [OF torn_live.begin_begun [OF cycle(1)] cycle(2)] live sane example_config_ok by simp
  ultimately show ?thesis
    using cycle(2) same by (intro exI [of _ ?t] exI [of _ mid] exI [of _ c]) (simp add: settled_def)
qed

lemma example_moving:
  "\<exists>s mid c. (interleaved_step example_config)\<^sup>*\<^sup>* (interleaved_start example_limits True True) s \<and>
    il_cycle s = Some mid \<and> loop_end Debug True (shared_commands (il_core s)) mid = Some c \<and>
    dc_power_enabled (shared_commands (il_core s)) \<and> dc_motion_enabled (shared_commands (il_core s)) \<and>
    dc_commands (shared_commands (il_core s)) \<noteq> [] \<and> c_last_response mid = example_answer \<and>
    connection_live example_config c"
  using example_started example_cycle_ends by (metis published_def)

end
