(* ===== verification/ActionDelivery.thy ===== *)
theory ActionDelivery
  imports Interleaving
begin

text \<open>
  What becomes of an action bit, from the message that makes the core set it to the datagram that
  carries it out: the core sets it (\<open>fetch_or\<close>), a cycle takes it (\<open>swap\<close>) and puts the acknowledgement
  into the control flags, and the next cycle sends these.  All of it on the interleaved system.
\<close>

subsection \<open>The stages of an acknowledgement\<close>

abbreviation ACKNOWLEDGE :: ControlFlags where
  "ACKNOWLEDGE \<equiv> ControlFlags_const ControlFlags_ERROR_ACKNOWLEDGE"

definition acknowledges :: "connection \<Rightarrow> bool" where
  "acknowledges c \<longleftrightarrow> flags_contains (c_control_flags c) ACKNOWLEDGE"

text \<open>The bit is set, or the core is about to set it.\<close>

definition ack_queued :: "interleaved \<Rightarrow> bool" where
  "ack_queued s \<longleftrightarrow> pending_actions (il_core s) AND ACTION_ACK_ERROR \<noteq> 0 \<or>
     il_unsent s AND ACTION_ACK_ERROR \<noteq> 0"

text \<open>A cycle has taken the bit, and the next datagram is to carry the acknowledgement.\<close>

definition ack_staged :: "interleaved \<Rightarrow> bool" where
  "ack_staged s \<longleftrightarrow> (case il_cycle s of
     Some mid \<Rightarrow> acknowledges mid
   | None \<Rightarrow> (case mgr_connection (il_manager s) of None \<Rightarrow> False | Some c \<Rightarrow> acknowledges c))"

definition acknowledging :: "u8 list \<Rightarrow> bool" where
  "acknowledging dg \<longleftrightarrow> (case drive_request dg of
     None \<Rightarrow> False
   | Some req \<Rightarrow> (case req_control_flags req of
       None \<Rightarrow> False | Some flags \<Rightarrow> flags_contains flags ACKNOWLEDGE))"

text \<open>
  The cycle at its middle was answered by a drive that is in another state than that of an error, or
  with a reply that does not say what state the drive is in.
\<close>

definition answered_in_state :: "(State option \<Rightarrow> bool) \<Rightarrow> interleaved \<Rightarrow> bool" where
  "answered_in_state P s \<longleftrightarrow> (case il_cycle s of
     None \<Rightarrow> False | Some mid \<Rightarrow> P (Response_state (c_last_response mid)))"

fun left_error :: "State option \<Rightarrow> bool" where
  "left_error None \<longleftrightarrow> False"
| "left_error (Some (State_Error code)) \<longleftrightarrow> False"
| "left_error (Some _) \<longleftrightarrow> True"

text \<open>The connection is given up before a datagram has left.\<close>

definition lost_unsent :: "interleaved \<Rightarrow> interleaved \<Rightarrow> bool" where
  "lost_unsent s s' \<longleftrightarrow> mgr_connection (il_manager s) \<noteq> None \<and> mgr_connection (il_manager s') = None \<and>
     il_datagrams s' = il_datagrams s"

subsection \<open>The halves of a cycle\<close>

lemma insert_contains: "flags_contains (flags_insert flags f) f"
  by (simp add: flags_contains_def flags_insert_def and.assoc bit.conj_disj_distrib2)

lemma contains_without_switch_on:
  assumes "flags_contains flags 128"
  shows "flags_contains (flags_remove flags 1) 128"
proof -
  have "(flags AND NOT 1) AND 128 = (flags AND 128) AND NOT 1"
    by (simp only: and.assoc and.commute [of "NOT 1" 128])
  with assms show ?thesis
    by (simp add: flags_contains_def flags_remove_def)
qed

lemma begin_takes:
  assumes "loop_begin env pending c = (ef, pending', Inr mid)" "pending AND ACTION_ACK_ERROR \<noteq> 0"
  shows "acknowledges mid"
  using assms by (auto simp: loop_begin_def DriveActions_take_def apply_actions_def Let_def
      acknowledges_def insert_contains split: prod.splits sum.splits if_splits)

lemma begin_sends_request:
  assumes "loop_begin env pending c = (ef, pending', r)" "length (c_buffer c) = BUFFER_SIZE" "acknowledges c"
  shows "ef_sent ef = None \<and> (\<exists>e. r = Inl e) \<or> (\<exists>dg. ef_sent ef = Some dg \<and> acknowledging dg)"
proof (cases "ef_sent ef")
  case (Some dg)
  from loop_begin_sent [OF assms(1) this assms(2)] assms(3) Some show ?thesis
    by (simp add: acknowledging_def acknowledges_def on_the_wire_request_of)
next
  case None
  then show ?thesis
    using assms(1) by (auto simp: loop_begin_def send_request_def Let_def DriveActions_take_def
        split: prod.splits sum.splits if_splits)
qed

lemma end_keeps_acknowledge:
  assumes "loop_end p free shared mid = Some c" "acknowledges mid"
    and "Response_state (c_last_response mid) = Some (State_Error code)"
  shows "acknowledges c"
  using assms by (auto simp: loop_end_def compute_next_request_def update_control_flags_def acknowledges_def
      read_commands_def Let_def contains_without_switch_on split: if_splits)

lemma queued_or:
  fixes a b m :: u8
  shows "(a OR b) AND m \<noteq> 0 \<longleftrightarrow> a AND m \<noteq> 0 \<or> b AND m \<noteq> 0"
  by (simp add: bit.conj_disj_distrib2 or_eq_0_iff)

lemma ack_step:
  assumes "interleaved_step cfg s s'" "ack_queued s \<or> ack_staged s"
    and "pred_option (\<lambda>c. length (c_buffer c) = BUFFER_SIZE) (mgr_connection (il_manager s))"
  shows "ack_queued s' \<or> ack_staged s' \<or> (\<exists>dg. il_datagrams s' = il_datagrams s @ [dg] \<and> acknowledging dg) \<or>
    ack_staged s \<and> (il_cycle s' = None \<and>
      (answered_in_state left_error s \<or> answered_in_state (\<lambda>st. st = None) s) \<or> lost_unsent s s')"
  using assms(1)
proof (cases rule: interleaved_step_cases)
  case (cycle_begins c env ef pending mid)
  then show ?thesis
    using assms(2,3) begin_takes [OF cycle_begins(4)] begin_sends_request [OF cycle_begins(4)]
    by (auto simp: ack_queued_def ack_staged_def)
next
  case (cycle_fails c env ef pending e)
  then show ?thesis
    using assms(2,3) begin_sends_request [OF cycle_fails(4)]
    by (auto simp: ack_queued_def ack_staged_def lost_unsent_def)
next
  case (cycle_ends mid p free c)
  then show ?thesis
    using assms(2) end_keeps_acknowledge [OF cycle_ends(3)]
    by (cases "Response_state (c_last_response mid)" rule: left_error.cases)
      (auto simp: ack_queued_def ack_staged_def answered_in_state_def)
qed (use assms(2) in \<open>auto simp: ack_queued_def ack_staged_def core_idle_def pending_actions_def queued_or
  with_actions_def send_actions_def DriveActions_send_def split: option.splits\<close>)

text \<open>
  The acknowledgement is dropped: a cycle ends that was answered by a drive that has left the error state, or
  by a reply without a state, after which all control flags are cleared; or the connection is given up.
\<close>

definition ack_dropped :: "interleaved \<Rightarrow> interleaved \<Rightarrow> bool" where
  "ack_dropped s s' \<longleftrightarrow> ack_staged s \<and> \<not> ack_staged s' \<and>
     (il_cycle s' = None \<and>
        (answered_in_state left_error s \<or> answered_in_state (\<lambda>st. st = None) s) \<or>
      lost_unsent s s')"

lemma stateless_reply_drops_acknowledgement:
  assumes "loop_end p free shared mid = Some c" "Response_state (c_last_response mid) = None"
  shows "\<not> acknowledges c"
  using assms by (auto simp: loop_end_def compute_next_request_def acknowledges_def read_commands_def
      flags_contains_def flags_empty_def split: if_splits)

lemma ack_run:
  assumes "(interleaved_step cfg)\<^sup>*\<^sup>* (interleaved_start limits hid_io ws) s" "ack_queued s"
    and "(interleaved_step cfg)\<^sup>*\<^sup>* s t"
  shows "\<exists>new. il_datagrams t = il_datagrams s @ new \<and>
    (ack_queued t \<or> ack_staged t \<or> list_ex acknowledging new \<or>
     (\<exists>u u'. (interleaved_step cfg)\<^sup>*\<^sup>* s u \<and> interleaved_step cfg u u' \<and> (interleaved_step cfg)\<^sup>*\<^sup>* u' t \<and>
        ack_dropped u u'))"
  using assms(3)
proof induction
  case (step t t')
  from rtranclp_trans [OF assms(1) step.hyps(1)]
  have buffers: "pred_option (\<lambda>c. length (c_buffer c) = BUFFER_SIZE) (mgr_connection (il_manager t))"
    using interleaved_reachable(2) by (fastforce simp: connection_allowed_def option.pred_set)
  obtain more where more: "il_datagrams t' = il_datagrams t @ more"
    using step.hyps(2) by (cases rule: interleaved_step_cases) (simp_all add: sends_def)
  obtain new where new: "il_datagrams t = il_datagrams s @ new"
    and stage: "ack_queued t \<or> ack_staged t \<or> list_ex acknowledging new \<or>
      (\<exists>u u'. (interleaved_step cfg)\<^sup>*\<^sup>* s u \<and> interleaved_step cfg u u' \<and> (interleaved_step cfg)\<^sup>*\<^sup>* u' t \<and>
        ack_dropped u u')"
    using step.IH by blast
  have "ack_queued t' \<or> ack_staged t' \<or> list_ex acknowledging (new @ more) \<or>
      (\<exists>u u'. (interleaved_step cfg)\<^sup>*\<^sup>* s u \<and> interleaved_step cfg u u' \<and> (interleaved_step cfg)\<^sup>*\<^sup>* u' t' \<and>
        ack_dropped u u')"
    using stage
  proof (elim disjE)
    assume "\<exists>u u'. (interleaved_step cfg)\<^sup>*\<^sup>* s u \<and> interleaved_step cfg u u' \<and>
      (interleaved_step cfg)\<^sup>*\<^sup>* u' t \<and> ack_dropped u u'"
    then show ?thesis
      using step.hyps(2) by (meson rtranclp.rtrancl_into_rtrancl)
  next
    assume "list_ex acknowledging new"
    then show ?thesis by simp
  qed (use ack_step [OF step.hyps(2) _ buffers] step.hyps more in \<open>fastforce simp: ack_dropped_def\<close>)+
  with new more show ?case
    by (intro exI [of _ "new @ more"]) simp
qed (use assms(2) in simp)

subsection \<open>The message\<close>

lemma acknowledge_error_publishes:
  assumes "handle_message env ctl (AcknowledgeError seq) (with_actions 0 cm) = (Inr (), cm')"
    and "holder cm = Some ctl" "cs_drive_state (cm_core_state cm) = Errored"
  shows "pending_actions cm' = ACTION_ACK_ERROR"
proof -
  have "send env (Some ctl) (Ack seq True None) (send_actions ACTION_ACK_ERROR (with_actions 0 cm)) = (Inr (), cm')"
    using assms by (simp add: handle_message_def acknowledge_error_def with_actions_def holder_def)
  from send_effect [OF this] have "cm_drive cm' = cm_drive (send_actions ACTION_ACK_ERROR (with_actions 0 cm))"
    by (auto simp: only_sends_simps(2))
  then show ?thesis
    by (simp add: pending_actions_def with_actions_def send_actions_def DriveActions_send_def)
qed

text \<open>
  C11: what becomes of an acknowledged error on the way to the drive: after the core has accepted
  the acknowledgement, then in every interleaving of the core and the drive thread the action bit is set or about
  to be, or a cycle has taken it and the next datagram is to carry it, or a datagram with the
  acknowledge flag has been sent, or it was dropped, which happens in three cases only: in the cycle that
  took it the drive was no longer in the error state; or the drive's reply in that cycle had no status word, so
  that its state was unknown (the drive may still be in error then); or the connection was given up
  before the datagram left.
\<close>

theorem acknowledge_reaches_drive:
  assumes "(interleaved_step cfg)\<^sup>*\<^sup>* (interleaved_start limits hid_io ws) s" "il_unsent s = 0"
    and "il_unread s = [] \<and> ms = [] \<or> ctl = Hid \<and> il_unread s = AcknowledgeError seq # ms"
    and "holder (il_core s) = Some ctl" "cs_drive_state (cm_core_state (il_core s)) = Errored"
    and "handle_message env ctl (AcknowledgeError seq) (with_actions 0 (il_core s)) = (Inr (), cm)"
    and "(interleaved_step cfg)\<^sup>*\<^sup>* (core_publishes cm (s\<lparr>il_unread := ms\<rparr>)) t"
  shows "\<exists>new. il_datagrams t = il_datagrams s @ new \<and>
    (ack_queued t \<or> ack_staged t \<or> list_ex acknowledging new \<or>
     (\<exists>u u'. (interleaved_step cfg)\<^sup>*\<^sup>* (core_publishes cm (s\<lparr>il_unread := ms\<rparr>)) u \<and>
        interleaved_step cfg u u' \<and> (interleaved_step cfg)\<^sup>*\<^sup>* u' t \<and> ack_dropped u u'))"
proof -
  let ?s = "core_publishes cm (s\<lparr>il_unread := ms\<rparr>)"
  have "interleaved_step cfg s ?s"
  proof (cases "il_unread s = []")
    case True
    then have "s\<lparr>il_unread := ms\<rparr> = s"
      using assms(3) by simp
    then show ?thesis
      using core_handles [of s "Message ctl (AcknowledgeError seq)" env cm cfg] assms(2,6) True
      by (simp add: core_idle_def handle_event_def)
  next
    case False
    then show ?thesis
      using message_handled [of s "AcknowledgeError seq" ms env cm cfg] assms(2,3,6) by simp
  qed
  with assms(1) have reached: "(interleaved_step cfg)\<^sup>*\<^sup>* (interleaved_start limits hid_io ws) ?s"
    by (rule rtranclp.rtrancl_into_rtrancl)
  have "ack_queued ?s"
    using acknowledge_error_publishes [OF assms(6,4,5)] by (simp add: ack_queued_def ACTION_ACK_ERROR_def)
  from ack_run [OF reached this assms(7)] show ?thesis by simp
qed

text \<open>A browser acknowledges an error; then the bit is set and the drive thread connects.\<close>

definition example_errored :: "(core_env \<times> CoreEvent) list" where
  "example_errored = map (Pair example_env)
     [Message (WebSocket 3) (RequestWriteAccess 1),
      DriveStateUpdated (DriveFeedback_default\<lparr>fb_drive_state := Errored\<rparr>)]"

lemma example_errored:
  "\<exists>cm cm'. run_core example_errored example_core = (Inr (), cm) \<and> holder cm = Some (WebSocket 3) \<and>
    cs_drive_state (cm_core_state cm) = Errored \<and>
    handle_message example_env (WebSocket 3) (AcknowledgeError 2) (with_actions 0 cm) = (Inr (), cm')"
  by (simp add: example_errored_def example_core_def run_defs acknowledge_error_def with_actions_def
      holder_def state_after_feedback_def)

theorem acknowledge_reaches_drive_witness:
  "\<exists>s cm t new. (interleaved_step example_config)\<^sup>*\<^sup>* (interleaved_start example_limits True True) s \<and>
    handle_message example_env (WebSocket 3) (AcknowledgeError 2) (with_actions 0 (il_core s)) = (Inr (), cm) \<and>
    (interleaved_step example_config)\<^sup>*\<^sup>* (core_publishes cm s) t \<and>
    mgr_connection (il_manager t) \<noteq> None \<and> il_unsent t = 0 \<and>
    il_datagrams t = il_datagrams s @ new \<and>
    (ack_queued t \<or> ack_staged t \<or> list_ex acknowledging new \<or>
     (\<exists>u u'. (interleaved_step example_config)\<^sup>*\<^sup>* (core_publishes cm s) u \<and>
        interleaved_step example_config u u' \<and>
        (interleaved_step example_config)\<^sup>*\<^sup>* u' t \<and> ack_dropped u u'))"
proof -
  obtain core cm where core: "run_core example_errored example_core = (Inr (), core)"
    "holder core = Some (WebSocket 3)" "cs_drive_state (cm_core_state core) = Errored"
    "handle_message example_env (WebSocket 3) (AcknowledgeError 2) (with_actions 0 core) = (Inr (), cm)"
    using example_errored by blast
  let ?sys = "(system_start example_limits True True)\<lparr>sys_core := core\<rparr>"
  have "(system_step example_config)\<^sup>*\<^sup>* (system_start example_limits True True) ?sys"
    by (rule system_run_core) (use core(1) in \<open>simp add: system_start_def example_core_def\<close>)
  from atomic_runs_are_interleavings [OF this]
  have s: "(interleaved_step example_config)\<^sup>*\<^sup>* (interleaved_start example_limits True True) (settled ?sys)"
    by (simp add: settled_start)
  let ?s = "settled ?sys"
  have idle: "il_unsent ?s = 0" "il_unread ?s = []" "?s\<lparr>il_unread := []\<rparr> = ?s" "il_core ?s = core"
    "il_manager ?s = manager_initial"
    by (simp_all add: settled_def system_start_def)
  let ?t = "core_publishes cm ?s"
  let ?u = "?t\<lparr>il_core := send_actions (il_unsent ?t) (il_core ?t), il_unsent := 0\<rparr>"
  obtain ef m c where connect: "manager_step Debug example_config example_manager_env (cm_drive (il_core ?u))
      (il_manager ?u) = Some (ef, cm_drive (il_core ?u), m)" "mgr_connection m = Some c"
    using example_connects [of "cm_drive (il_core ?u)"] idle(5) by auto
  have "interleaved_step example_config ?t ?u"
    by (rule actions_set)
  moreover have "interleaved_step example_config ?u (sends ef (?u\<lparr>il_manager := m\<rparr>))"
    using connects [OF _ connect(1)] idle(5) by (simp add: manager_initial_def)
  ultimately have t: "(interleaved_step example_config)\<^sup>*\<^sup>* ?t (sends ef (?u\<lparr>il_manager := m\<rparr>))"
    by (meson converse_rtranclp_into_rtranclp r_into_rtranclp)
  have message: "handle_message example_env (WebSocket 3) (AcknowledgeError 2) (with_actions 0 (il_core ?s)) = (Inr (), cm)"
    "holder (il_core ?s) = Some (WebSocket 3)" "cs_drive_state (cm_core_state (il_core ?s)) = Errored"
    using core(2-4) by (simp_all add: idle(4))
  have mine: "il_unread ?s = [] \<and> [] = ([] :: ClientMessage list) \<or>
      WebSocket 3 = Hid \<and> il_unread ?s = AcknowledgeError 2 # []"
    using idle(2) by simp
  from acknowledge_reaches_drive [OF s idle(1) mine message(2,3,1), unfolded idle(3), OF t]
  obtain new where new: "il_datagrams (sends ef (?u\<lparr>il_manager := m\<rparr>)) = il_datagrams ?s @ new \<and>
    (ack_queued (sends ef (?u\<lparr>il_manager := m\<rparr>)) \<or> ack_staged (sends ef (?u\<lparr>il_manager := m\<rparr>)) \<or>
     list_ex acknowledging new \<or>
     (\<exists>v v'. (interleaved_step example_config)\<^sup>*\<^sup>* ?t v \<and> interleaved_step example_config v v' \<and>
        (interleaved_step example_config)\<^sup>*\<^sup>* v' (sends ef (?u\<lparr>il_manager := m\<rparr>)) \<and> ack_dropped v v'))"
    by blast
  have "mgr_connection (il_manager (sends ef (?u\<lparr>il_manager := m\<rparr>))) \<noteq> None" "il_unsent (sends ef (?u\<lparr>il_manager := m\<rparr>)) = 0"
    using connect(2) by simp_all
  with s message(1) t new show ?thesis by blast
qed

end
