(* ===== verification/FeedbackDelivery.thy ===== *)
theory FeedbackDelivery
  imports System
begin

text \<open>
  The way of the drive's state: from the response to a cycle, through the feedback of the drive thread
  (\<open>drive.rs\<close>), the state of the core (\<open>main.rs\<close>) and the broadcast of the server (\<open>websocket.rs\<close>), to the
  text on the socket of a browser.
\<close>

subsection \<open>From the drive to the core\<close>

lemma begin_feedback:
  assumes "loop_begin env pending c = (ef, pending', Inr mid)" "length (c_buffer c) = BUFFER_SIZE"
    and "answered (env_exchange env) rsp" "ef_feedback ef = Some fb"
  shows "\<exists>state cf. feedback_of cf = Some (state, fb) \<and> c_last_response cf = rsp \<and>
    c_motion_enabled cf = c_motion_enabled c \<and> c_active_command_index cf = c_active_command_index c"
proof -
  let ?c = "c\<lparr>c_next_motion_command := None\<rparr>"
  obtain sent rsp0 c0 where
    send: "send_request (env_exchange env) (request_of c) ?c = (sent, Inr (rsp0, c0))"
    and feedback: "ef_feedback ef = map_option snd (feedback_of (c0\<lparr>c_last_response := rsp0,
        c_last_request := request_of c, c_last_command_index := c_active_command_index c0\<rparr>))"
    using assms(1) by (auto simp: loop_begin_def request_of_def [symmetric] Let_def DriveActions_take_def
        split: prod.splits sum.splits if_splits)
  from send_request_buffer [of ?c "request_of c" "env_exchange env"] send assms(2)
  have c0: "c0 = ?c\<lparr>c_buffer := c_buffer c0, c_last_rtt := c_last_rtt c0\<rparr>"
    by auto
  have "c_motion_enabled c0 = c_motion_enabled c" "c_active_command_index c0 = c_active_command_index c"
    by (subst c0, simp)+
  moreover have "rsp0 = rsp"
    using send_request_answered [OF _ assms(3), of ?c "request_of c"] send assms(2) by auto
  moreover obtain state where "feedback_of (c0\<lparr>c_last_response := rsp0, c_last_request := request_of c,
      c_last_command_index := c_active_command_index c0\<rparr>) = Some (state, fb)"
    using feedback assms(4) by (cases "feedback_of (c0\<lparr>c_last_response := rsp0,
      c_last_request := request_of c, c_last_command_index := c_active_command_index c0\<rparr>)") auto
  ultimately show ?thesis
    by (intro exI [of _ state] exI conjI) (assumption, simp_all)
qed

text \<open>The state of the core that shows a response of the drive.\<close>

definition shows_response :: "Response \<Rightarrow> bool \<Rightarrow> CoreState \<Rightarrow> bool" where
  "shows_response rsp motion_enabled st \<longleftrightarrow>
     map_option (\<lambda>state. drive_state_of state motion_enabled) (Response_state rsp) = Some (cs_drive_state st) \<and>
     rsp_actual_position rsp = Some (cs_actual_position st) \<and>
     rsp_demand_position rsp = Some (cs_demand_position st) \<and>
     map_option (\<lambda>(v, a, dt, mt). (Velocity v, Acceleration a, DriveTemperature (ucast dt), MotorTemperature (ucast mt)))
         (rsp_monitoring_channel rsp) =
       Some (cs_demand_velocity st, cs_demand_acceleration st, cs_drive_temperature st, cs_motor_temperature st) \<and>
     rsp_current rsp = Some (cs_current_draw st) \<and>
     map_option WarningFlags_display (rsp_warning_flags rsp) = Some (cs_warnings st) \<and>
     map_option (\<lambda>code. if code = NoError then None else Some (ErrorCode_display code)) (Response_error_code rsp) =
       Some (cs_error_code st)"

lemma feedback_shows:
  assumes "feedback_of c = Some (state, fb)"
  shows "shows_response (c_last_response c) (c_motion_enabled c) (state_after_feedback fb cs)"
    "cs_active_command_index (state_after_feedback fb cs) = c_active_command_index c"
proof -
  let ?r = "c_last_response c"
  from assms obtain pos dpos current ws code v a dt mt where fields: "Response_state ?r = Some state"
    "rsp_actual_position ?r = Some pos" "rsp_demand_position ?r = Some dpos" "rsp_current ?r = Some current"
    "rsp_warning_flags ?r = Some ws" "Response_error_code ?r = Some code"
    "rsp_monitoring_channel ?r = Some (v, a, dt, mt)"
    by (simp add: feedback_of_def Let_def split: option.split_asm prod.split_asm)
  with assms have fb: "fb = \<lparr>fb_drive_state = drive_state_of state (c_motion_enabled c),
      fb_active_command_index = c_active_command_index c, fb_actual_position = pos, fb_demand_position = dpos,
      fb_demand_velocity = Velocity v, fb_demand_acceleration = Acceleration a, fb_current_draw = current,
      fb_warning_flags = ws, fb_error_code = code, fb_drive_temperature = DriveTemperature (ucast dt),
      fb_motor_temperature = MotorTemperature (ucast mt)\<rparr>"
    by (simp add: feedback_of_def Let_def)
  show "shows_response ?r (c_motion_enabled c) (state_after_feedback fb cs)"
    "cs_active_command_index (state_after_feedback fb cs) = c_active_command_index c"
    by (simp_all add: fb fields shows_response_def state_after_feedback_def)
qed

subsection \<open>From the core to the browser\<close>

lemma state_broadcast:
  assumes "handle_event env (DriveStateUpdated fb) cm = (Inr (), cm')" "cm_websocket_server cm"
    and "cm_sent cm' = cm_sent cm @ new"
  shows "meant_for t (queued new) = [StateMessage None (state_after_feedback fb (cm_core_state cm))]"
    "cm_core_state cm' = state_after_feedback fb (cm_core_state cm)"
    "cm_drive cm' = cm_drive cm" "cm_active_command_set cm' = cm_active_command_set cm"
proof -
  have "only_sends (feed_back fb cm) cm'"
    using simple_events(3) [OF assms(1)] .
  from only_sends_simps [OF this] show "cm_core_state cm' = state_after_feedback fb (cm_core_state cm)"
    "cm_drive cm' = cm_drive cm" "cm_active_command_set cm' = cm_active_command_set cm"
    by (simp_all add: feed_back_def)
  have outs: "queued (map ToHid out) = []" for out
    by (induction out) simp_all
  show "meant_for t (queued new) = [StateMessage None (state_after_feedback fb (cm_core_state cm))]"
    using assms
    by (auto simp: handle_event_def send_def send_hid_def send_websocket_def and_then_def ok_def Let_def
        meant_for_def outs split: option.splits sum.splits prod.splits if_splits)
qed

text \<open>A drive that answers with everything it was asked for gives the core feedback.\<close>

lemma begin_gives_feedback:
  assumes "loop_begin env pending c = (ef, pending', Inr mid)" "length (c_buffer c) = BUFFER_SIZE"
    and "answered (env_exchange env) rsp" "shows_response rsp motion st"
  shows "\<exists>fb. ef_feedback ef = Some fb"
proof -
  let ?c = "c\<lparr>c_next_motion_command := None\<rparr>"
  obtain sent rsp0 c0 where
    send: "send_request (env_exchange env) (request_of c) ?c = (sent, Inr (rsp0, c0))"
    and feedback: "ef_feedback ef = map_option snd (feedback_of (c0\<lparr>c_last_response := rsp0,
        c_last_request := request_of c, c_last_command_index := c_active_command_index c0\<rparr>))"
    using assms(1) by (auto simp: loop_begin_def request_of_def [symmetric] Let_def DriveActions_take_def
        split: prod.splits sum.splits if_splits)
  have "rsp0 = rsp"
    using send_request_answered [OF _ assms(3), of ?c "request_of c"] send assms(2) by auto
  then show ?thesis
    using feedback assms(4) by (auto simp: feedback_of_def shows_response_def Let_def)
qed

text \<open>
  C19: what the drive reports reaches the browsers: when the drive answers a cycle and the core handles the
  feedback, the server writes exactly one text to the socket of each connected browser, the state of
  the core, in which every measured value is the one of the response, the drive state is what its
  status word means, and the index is that of the command the drive thread was at; the event changes
  nothing else in the core.
\<close>

theorem drive_state_reaches_browsers:
  assumes "loop_begin env pending c = (ef, pending', Inr mid)" "length (c_buffer c) = BUFFER_SIZE"
    and "answered (env_exchange env) rsp" "ef_feedback ef = Some fb"
    and "handle_event core_env (DriveStateUpdated fb) cm = (Inr (), cm')"
    and "cm_sent cm' = cm_sent cm @ new" "cm_websocket_server cm"
    and "run_event_loop ws_env polls server_start = (r, s)" "receiving ws_env" "iterates_clients ws_env"
    and "takes_texts ws_env t s" "\<And>message. we_to_json ws_env message \<noteq> None"
    and "handle_outbound ws_env (queued new) s = (r', s')"
  shows "\<exists>written st. ws_sent s' = ws_sent s @ written \<and>
    texts t written = [the (we_to_json ws_env (StateMessage None st))] \<and> st = cm_core_state cm' \<and>
    shows_response rsp (c_motion_enabled c) st \<and> cs_active_command_index st = c_active_command_index c \<and>
    cs_write_access_holder st = holder cm \<and>
    cs_command_set_version st = cs_command_set_version (cm_core_state cm) \<and>
    cm_drive cm' = cm_drive cm \<and> cm_active_command_set cm' = cm_active_command_set cm"
proof -
  obtain state cf where cf: "feedback_of cf = Some (state, fb)" "c_last_response cf = rsp"
    "c_motion_enabled cf = c_motion_enabled c" "c_active_command_index cf = c_active_command_index c"
    using begin_feedback [OF assms(1-4)] by blast
  let ?st = "state_after_feedback fb (cm_core_state cm)"
  note broadcast = state_broadcast [OF assms(5,7,6)]
  have "list_all (\<lambda>(_, message). we_to_json ws_env message \<noteq> None) (queued new)"
    using assms(12) by (auto simp: list_all_iff)
  from handle_outbound_texts [OF assms(13,9,10) server_reachable [OF assms(8-10)] assms(11) this]
  obtain written where "ws_sent s' = ws_sent s @ written"
    "texts t written = [the (we_to_json ws_env (StateMessage None ?st))]"
    by (auto simp: broadcast(1))
  moreover have "shows_response rsp (c_motion_enabled c) ?st"
    "cs_active_command_index ?st = c_active_command_index c"
    using feedback_shows [OF cf(1), of "cm_core_state cm"] cf(2-4) by simp_all
  moreover have "cs_write_access_holder ?st = holder cm"
    "cs_command_set_version ?st = cs_command_set_version (cm_core_state cm)"
    by (simp_all add: state_after_feedback_def holder_def)
  ultimately show ?thesis
    using broadcast(2-4) by (intro exI [of _ written] exI [of _ ?st]) simp
qed

text \<open>The drive answers the first cycle while a browser is connected.\<close>

lemma example_feedback:
  "\<exists>ef mid fb. loop_begin example_cycle 0 (Connection_initial example_config) = (ef, 0, Inr mid) \<and>
    ef_feedback ef = Some fb"
proof -
  obtain ef c' where tick: "loop_tick Debug example_cycle (example_published True True)
      (Connection_initial example_config) = Some (ef, example_published True True, Inr c')"
    using example_tick [OF example_sane(3,1), of Debug True True] by blast
  then obtain mid where mid: "loop_begin example_cycle 0 (Connection_initial example_config) = (ef, 0, Inr mid)"
    by (auto simp: loop_tick_def example_published_def split: prod.splits sum.splits Option.bind_splits)
  have "shows_response example_answer True (CoreState_default\<lparr>
      cs_drive_state := drive_state_of (OperationEnabled 5 False False False True) True,
      cs_actual_position := Position 70000, cs_demand_position := Position 70000,
      cs_demand_velocity := Velocity 0, cs_demand_acceleration := Acceleration 0,
      cs_drive_temperature := DriveTemperature 300, cs_motor_temperature := MotorTemperature 300,
      cs_current_draw := Current 0, cs_warnings := WarningFlags_display 0, cs_error_code := None\<rparr>)"
    by (simp add: shows_response_def example_drive_state)
      (simp add: example_answer_def Response_error_code_def ErrorCode_from_def)
  with begin_gives_feedback [OF mid example_sane(3) example_answered] mid show ?thesis
    by blast
qed

theorem drive_state_reaches_browsers_witness:
  "\<exists>ef pending mid fb cm new r s' written st.
     loop_begin example_cycle 0 (Connection_initial example_config) = (ef, pending, Inr mid) \<and>
     ef_feedback ef = Some fb \<and>
     handle_event example_env (DriveStateUpdated fb) example_core = (Inr (), cm) \<and>
     cm_sent cm = cm_sent example_core @ new \<and>
     handle_outbound example_ws_env (queued new) example_server = (r, s') \<and>
     ws_sent s' = ws_sent example_server @ written \<and>
     texts 2 written = [the (we_to_json example_ws_env (StateMessage None st))] \<and>
     shows_response example_answer False st"
proof -
  obtain ef mid fb where cycle:
    "loop_begin example_cycle 0 (Connection_initial example_config) = (ef, 0, Inr mid)"
    and fb: "ef_feedback ef = Some fb"
    using example_feedback by blast
  obtain cm new where event: "handle_event example_env (DriveStateUpdated fb) example_core = (Inr (), cm)"
    and sent: "cm_sent cm = cm_sent example_core @ new"
    by (simp add: run_defs example_core_def)
  have listens: "cm_websocket_server example_core"
    by (simp add: example_core_def CoreManager_new_def)
  obtain r s' where outbound: "handle_outbound example_ws_env (queued new) example_server = (r, s')"
    by fastforce
  from drive_state_reaches_browsers [OF cycle example_sane(3) example_answered fb event sent listens
      example_polls example_ws_env(1,2,4,3) outbound]
  obtain written st where written: "ws_sent s' = ws_sent example_server @ written"
    "texts 2 written = [the (we_to_json example_ws_env (StateMessage None st))]"
    "shows_response example_answer False st"
    by (auto simp: Connection_initial_def)
  with cycle fb event sent outbound show ?thesis
    by blast
qed

end
