(* ===== verification/StaleStart.thy ===== *)
theory StaleStart
  imports Interleaving
begin

text \<open>
  A start that is accepted while the power is off (\<open>set_motion_state\<close> in \<open>main.rs\<close> looks at the drive state
  of the last feedback only), and what it does to the drive when the power is switched on again.
\<close>

subsection \<open>The switches\<close>


definition switches :: "CoreManager \<Rightarrow> bool \<times> bool" where
  "switches cm = (dc_power_enabled (di_commands (cm_drive cm)), dc_motion_enabled (di_commands (cm_drive cm)))"



lemma switches_outputs [simp]:
  "switches (send_actions bits cm) = switches cm" "switches (set_holder h cm) = switches cm"
  "switches (cm\<lparr>cm_saved_command_sets := saved\<rparr>) = switches cm"
  by (simp_all add: switches_def send_actions_def set_holder_def)






subsection \<open>The motor moves when the power comes back\<close>





end
