(* ===== verification/DeviceDisplay.thy ===== *)
theory DeviceDisplay
  imports CoreService
begin

text \<open>
  What the handheld controller shows, against what the user interface of the core
  (\<open>src/hid/ui_manager.rs\<close>) remembers having sent: over whole runs of the core, and for a device that
  may be restarted or exchanged between two connections.
\<close>

subsection \<open>The device\<close>

text \<open>
  The device as the protocol describes it (\<open>docs/hid_protocol.md\<close>, 2.4): a screen clears the values of the
  display variables and leaves the hardware parameters; an update stores its entries; a reset is not a value
  but restarts the device, which then shows nothing, \<open>None\<close>, until it gets its screen when it has connected again.
\<close>

type_synonym variables = "u8 \<rightharpoonup> VariableEntry"

fun is_hardware :: "VariableEntry \<Rightarrow> bool" where
  "is_hardware (HardwareControlEntry _) = True"
| "is_hardware _ = False"

definition hardware_only :: "variables \<Rightarrow> variables" where
  "hardware_only vars key = (case vars key of None \<Rightarrow> None | Some v \<Rightarrow> if is_hardware v then Some v else None)"

fun device_receive :: "OutputReport \<Rightarrow> variables option \<Rightarrow> variables option" where
  "device_receive (ScreenSpecReport _) device =
     Some (case device of None \<Rightarrow> Map.empty | Some vars \<Rightarrow> hardware_only vars)"
| "device_receive (VariableUpdate vs) device =
     (if HardwareControlEntry Reset \<in> set vs then None else map_option (fold store_variable vs) device)"

definition restarts :: "OutputReport \<Rightarrow> bool" where
  "restarts report \<longleftrightarrow> (\<exists>vs. report = VariableUpdate vs \<and> HardwareControlEntry Reset \<in> set vs)"

text \<open>Only a restart makes the device show nothing.\<close>

lemma device_restarted:
  assumes "fold device_receive reports (Some vars) = None"
  shows "list_ex restarts reports"
  using assms
proof (induction reports arbitrary: vars)
  case (Cons report reports)
  then show ?case
    by (cases report) (auto simp: restarts_def split: if_splits)
qed simp

subsection \<open>What the device shows\<close>

text \<open>
  Everything that is remembered is shown, and of anything else only hardware parameters, which the
  device may have kept from an earlier connection.
\<close>

definition showing :: "variables \<Rightarrow> variables \<Rightarrow> bool" where
  "showing vars sent \<longleftrightarrow> (\<forall>key. vars key = sent key \<or> sent key = None \<and> pred_option is_hardware (vars key))"

lemma showing_store: "showing vars sent \<Longrightarrow> showing (store_variable v vars) (store_variable v sent)"
  by (simp add: showing_def store_variable_def)

lemma showing_update: "showing vars sent \<Longrightarrow> showing (fold store_variable vs vars) (fold store_variable vs sent)"
  by (induction vs arbitrary: vars sent) (simp_all add: showing_store)

lemma showing_cleared: "showing (hardware_only vars) Map.empty" "showing Map.empty Map.empty"
  by (simp_all add: showing_def hardware_only_def split: option.split)

text \<open>
  Of the reports that were sent, the device has got those from one of its screens on; before that it showed
  whatever it liked.
\<close>

definition displayed :: "OutputReport list \<Rightarrow> variables \<Rightarrow> bool" where
  "displayed reports sent \<longleftrightarrow> (\<forall>before spec after device.
     reports = before @ ScreenSpecReport spec # after \<longrightarrow>
     pred_option (\<lambda>vars. showing vars sent) (fold device_receive (ScreenSpecReport spec # after) device))"

lemma displayed_screen: "displayed (reports @ [ScreenSpecReport spec]) Map.empty"
proof -
  have "pred_option (\<lambda>vars. showing vars Map.empty) (device_receive (ScreenSpecReport spec) device)" for device
    by (cases device) (simp_all add: showing_cleared)
  moreover have "fold device_receive (ScreenSpecReport spec' # after) device =
      device_receive (ScreenSpecReport spec) (if after = [] then device
        else fold device_receive (ScreenSpecReport spec' # butlast after) device)"
    if "reports @ [ScreenSpecReport spec] = before @ ScreenSpecReport spec' # after" for before spec' after device
    using that by (cases after rule: rev_cases) auto
  ultimately show ?thesis
    unfolding displayed_def by metis
qed

lemma displayed_update:
  assumes "displayed reports sent" "retain_changed vs sent = (kept, sent')"
  shows "displayed (reports @ [VariableUpdate kept]) sent'"
  unfolding displayed_def
proof (intro allI impI)
  fix before spec after device
  assume "reports @ [VariableUpdate kept] = before @ ScreenSpecReport spec # after"
  then obtain after' where after: "after = after' @ [VariableUpdate kept]"
    "reports = before @ ScreenSpecReport spec # after'"
    by (cases after rule: rev_cases) auto
  have "sent' = fold store_variable kept sent"
    using retain_changed_lossless(1) [OF assms(2)] by simp
  moreover have "pred_option (\<lambda>vars. showing vars sent) (fold device_receive (ScreenSpecReport spec # after') device)"
    using assms(1) after(2) unfolding displayed_def by blast
  ultimately show "pred_option (\<lambda>vars. showing vars sent') (fold device_receive (ScreenSpecReport spec # after) device)"
    using showing_update after(1)
    by (cases "fold device_receive (ScreenSpecReport spec # after') device") simp_all
qed

lemma displayed_same: "displayed reports sent \<Longrightarrow> retain_changed vs sent = ([], sent') \<Longrightarrow> displayed reports sent'"
  using retain_changed_lossless(1) [of vs sent "[]" sent'] by simp

subsection \<open>The core\<close>

fun hid_reports :: "delivery list \<Rightarrow> OutputReport list" where
  "hid_reports [] = []"
| "hid_reports (ToHid report # ds) = report # hid_reports ds"
| "hid_reports (_ # ds) = hid_reports ds"

lemma hid_reports_append [simp]: "hid_reports (xs @ ys) = hid_reports xs @ hid_reports ys"
  by (induction xs rule: hid_reports.induct) simp_all

lemma hid_reports_map [simp]: "hid_reports (map ToHid reports) = reports"
  by (induction reports) simp_all

definition device_in_step :: "CoreManager \<Rightarrow> bool" where
  "device_in_step cm \<longleftrightarrow> (case cm_hid_ui cm of
     None \<Rightarrow> hid_reports (cm_sent cm) = []
   | Some ui \<Rightarrow> displayed (hid_reports (cm_sent cm)) (ui_last_sent_variables ui))"

text \<open>Only the message that a connection is answered with has an effect on the device.\<close>

fun greets :: "CoreMessage \<Rightarrow> bool" where
  "greets (Connected _ _ _) = True"
| "greets _ = False"

definition silent :: "CoreManager \<Rightarrow> CoreManager \<Rightarrow> bool" where
  "silent cm cm' \<longleftrightarrow> cm_hid_ui cm' = cm_hid_ui cm \<and> hid_reports (cm_sent cm') = hid_reports (cm_sent cm)"

lemma silent_refl [simp]: "silent cm cm"
  by (simp add: silent_def)

lemma silent_trans: "silent a b \<Longrightarrow> silent b c \<Longrightarrow> silent a c"
  by (simp add: silent_def)

lemma silent_in_step: "silent cm cm' \<Longrightarrow> device_in_step cm' = device_in_step cm"
  by (simp add: silent_def device_in_step_def split: option.split)

lemma send_hid_silent:
  assumes "send_hid env m ui cm = (r, cm')" "cm_hid_ui cm = Some ui" "\<not> greets m"
  shows "silent cm cm'"
proof -
  have "process_core_message alive m ui = Inr ([], ui)" for alive
    using assms(3) by (cases m) (simp_all add: process_core_message_def)
  with assms(1,2) show ?thesis
    by (auto simp: send_hid_def silent_def)
qed

lemma send_websocket_silent: "send_websocket env token m cm = (r, cm') \<Longrightarrow> silent cm cm'"
  by (auto simp: send_websocket_def silent_def split: if_splits)

lemma send_silent:
  assumes "send env d m cm = (r, cm')" "\<not> greets m"
  shows "silent cm cm'"
proof (cases d)
  case None
  with assms(1) have "and_then
      (\<lambda>cm. case cm_hid_ui cm of Some ui \<Rightarrow> send_hid env m ui cm | None \<Rightarrow> ok cm)
      (\<lambda>cm. if cm_websocket_server cm then send_websocket env None m cm else ok cm) cm = (r, cm')"
    by (simp add: send_def)
  then show ?thesis
  proof (cases rule: and_then_cases)
    case (fail e)
    then show ?thesis
      using send_hid_silent [OF _ _ assms(2)] by (auto simp: ok_def split: option.splits)
  next
    case (go cm1)
    have "silent cm cm1"
      using go(1) send_hid_silent [OF _ _ assms(2)] by (auto simp: ok_def split: option.splits)
    moreover have "silent cm1 cm'"
      using go(2) send_websocket_silent by (auto simp: ok_def split: if_splits)
    ultimately show ?thesis
      by (rule silent_trans)
  qed
next
  case (Some c)
  with assms send_hid_silent [OF _ _ assms(2)] send_websocket_silent show ?thesis
    by (cases c) (auto simp: send_def split: option.splits if_splits)
qed

lemma send_all_silent:
  assumes "send_all env post cm = (r, cm')" "list_all (\<lambda>(_, m). \<not> greets m) post"
  shows "silent cm cm'"
  using assms
proof (induction post arbitrary: cm)
  case (Cons dm post)
  obtain d m where dm: "dm = (d, m)" by fastforce
  with Cons.prems(1) have "and_then (send env d m) (send_all env post) cm = (r, cm')" by simp
  then show ?case
  proof (cases rule: and_then_cases)
    case (go cm1)
    with Cons dm show ?thesis
      using send_silent [OF go(1)] silent_trans by auto
  qed (use Cons.prems(2) dm send_silent in auto)
qed (simp add: ok_def)

lemma plan_never_greets:
  assumes "plan env c m cm = Some (cm', post)"
  shows "list_all (\<lambda>(_, m). \<not> greets m) post"
proof -
  have active: "list_all (\<lambda>(_, m). \<not> greets m) post"
    if "plan_replace env c seq base new cm = Some (cm', post)" for seq base new
    using that by (cases rule: plan_replace_cases) simp_all
  have upd: "list_all (\<lambda>(_, m). \<not> greets m) post"
    if "plan_update env c seq u cm = Some (cm', post)" for seq u
    using that by (cases rule: plan_update_cases) auto
  have saved: "list_all (\<lambda>(_, m). \<not> greets m) post"
    if "plan_saved env c seq name base new cm = Some (cm', post)" for seq name base new
    using that by (cases rule: plan_saved_cases) simp_all
  show ?thesis
    using assms by (cases m; cases "controls m \<and> holder cm \<noteq> Some c")
      (auto simp: plan_def answer_def dest: active upd saved split: if_splits option.splits prod.splits)
qed

lemma handle_message_silent:
  assumes "handle_message env c m cm = (Inr (), cm')"
  shows "silent cm cm'"
  using assms
proof (cases rule: handle_message_cases)
  case (plan cm1 post new)
  have "silent cm cm1"
    using plan_frame [OF plan(1)] by (simp add: silent_def)
  with send_all_silent [OF plan(2) plan_never_greets [OF plan(1)]] show ?thesis
    by (blast intro: silent_trans)
qed simp

lemma handle_messages_silent:
  "handle_messages env c ms cm = (Inr (), cm') \<Longrightarrow> silent cm cm'"
proof (induction ms arbitrary: cm)
  case (Cons m ms)
  then have "and_then (handle_message env c m) (handle_messages env c ms) cm = (Inr (), cm')"
    by simp
  then show ?case
    by (cases rule: and_then_cases) (use Cons.IH handle_message_silent silent_trans in blast)+
qed (simp add: ok_def)

text \<open>What an input report makes the interface send and remember, with the screen it computed.\<close>

lemma input_report_displayed:
  assumes "process_input_report p alive report limits core_state ui = Some (Inr (ms, out, ui'))"
    and "displayed reports (ui_last_sent_variables ui)"
  shows "displayed (reports @ out) (ui_last_sent_variables ui')"
  using assms(1)
proof (cases rule: process_input_report_cases)
  case (edit m u vs ui1 screen kept sent)
  have "ui_last_sent_variables ui1 = ui_last_sent_variables ui"
    using edit(2,3) turn_encoders_keep_sent handle_hid_events_keep_sent by metis
  with assms(2) edit(5-7) show ?thesis
    using displayed_update displayed_same by auto
qed (use assms(2) in simp)

lemma input_report_current:
  assumes "process_input_report p alive report limits core_state ui = Some (Inr (ms, out, ui'))"
    and "cs_write_access_holder core_state = Some Hid"
  shows "\<exists>screen. screen_variables limits core_state ui' = Some screen \<and>
    (\<forall>v \<in> set screen. ui_last_sent_variables ui' (get_variable_key v) = Some v)"
  using assms(1)
proof (cases rule: process_input_report_cases)
  case (edit m u vs ui1 screen kept sent)
  have "sent (get_variable_key v) = Some v" if "v \<in> set screen" for v
    unfolding retain_changed_lossless(2) [OF edit(5), symmetric]
    using fold_store_distinct [OF screen_keys_distinct [OF edit(4)] that] by simp
  moreover have "screen_variables limits core_state ui' = Some screen"
    using edit(4,6) by (simp add: screen_variables_def)
  ultimately show ?thesis
    using edit(6) by simp
qed (use assms(2) in simp)

lemma hid_input_report_cases:
  assumes "hid_input_report env report cm = (Inr (), cm')"
  obtains (off) "cm_hid_ui cm = None" "cm' = cm"
    | (on) ui ms out ui' where "cm_hid_ui cm = Some ui"
      "process_input_report (ce_profile env) (ce_hid_alive env (length (cm_sent cm))) report
         (cm_limits cm) (cm_core_state cm) ui = Some (Inr (ms, out, ui'))"
      "cm_hid_ui cm' = Some ui'" "hid_reports (cm_sent cm') = hid_reports (cm_sent cm) @ out"
proof (cases "cm_hid_ui cm")
  case None
  with assms show thesis
    by (intro off) (simp_all add: hid_input_report_def ok_def)
next
  case (Some ui)
  with assms obtain ms out ui' where
    "process_input_report (ce_profile env) (ce_hid_alive env (length (cm_sent cm))) report
      (cm_limits cm) (cm_core_state cm) ui = Some (Inr (ms, out, ui'))"
    and run: "handle_messages env Hid ms (cm\<lparr>cm_hid_ui := Some ui', cm_sent := cm_sent cm @ map ToHid out\<rparr>)
      = (Inr (), cm')"
    by (auto simp: hid_input_report_def panic_def split: option.splits sum.splits prod.splits)
  with Some handle_messages_silent [OF run] show thesis
    by (intro on) (auto simp: silent_def)
qed

lemma device_in_step_event:
  assumes "handle_event env ev cm = (Inr (), cm')" "device_in_step cm"
  shows "device_in_step cm'"
proof (cases ev)
  case (ControllerConnected c)
  with assms(1) have sent: "send env (Some c) (Connected c (cm_limits cm) (cm_core_state cm)) cm = (Inr (), cm')"
    by (simp add: handle_event_def)
  show ?thesis
  proof (cases c)
    case Hid
    with sent obtain ui where "cm_hid_ui cm = Some ui"
      "cm_hid_ui cm' = Some (ui\<lparr>ui_last_sent_variables := Map.empty\<rparr>)"
      "hid_reports (cm_sent cm') = hid_reports (cm_sent cm) @ [ScreenSpecReport (ui_active_screen ui)]"
      by (auto simp: send_def send_hid_def process_core_message_def split: option.splits if_splits)
    then show ?thesis
      by (simp add: device_in_step_def displayed_screen)
  next
    case (WebSocket t)
    with sent have "silent cm cm'"
      using send_websocket_silent by (auto simp: send_def split: if_splits)
    with assms(2) show ?thesis by (simp add: silent_in_step)
  qed
next
  case (ControllerDisconnected c)
  have "silent cm cm'"
  proof (cases "holder cm = Some c")
    case True
    let ?cut = "lock_commands (\<lambda>commands. commands\<lparr>dc_power_enabled := False, dc_motion_enabled := False\<rparr>)
        (set_holder None cm)"
    have "send env None (WriteAccessChanged None (Some c)) ?cut = (Inr (), cm')"
      using assms(1) ControllerDisconnected True by (simp add: handle_event_def controller_disconnected_def)
    from send_silent [OF this] show ?thesis
      by (simp add: silent_def lock_commands_def set_holder_def)
  qed (use assms(1) ControllerDisconnected in \<open>simp add: handle_event_def controller_disconnected_def ok_def\<close>)
  with assms(2) show ?thesis by (simp add: silent_in_step)
next
  case (Message c m)
  with assms show ?thesis
    using handle_message_silent [of env c m cm cm'] silent_in_step by (simp add: handle_event_def)
next
  case (DriveStateUpdated fb)
  let ?fed = "cm\<lparr>cm_core_state := state_after_feedback fb (cm_core_state cm)\<rparr>"
  have "send env None (StateMessage None (cm_core_state ?fed)) ?fed = (Inr (), cm')"
    using assms(1) DriveStateUpdated by (simp add: handle_event_def Let_def)
  from send_silent [OF this] have "silent cm cm'"
    by (simp add: silent_def)
  with assms(2) show ?thesis by (simp add: silent_in_step)
next
  case (HidInputReport report)
  with assms(1) have "hid_input_report env report cm = (Inr (), cm')"
    by (simp add: handle_event_def)
  then show ?thesis
  proof (cases rule: hid_input_report_cases)
    case (on ui ms out ui')
    with assms(2) input_report_displayed [OF on(2)] show ?thesis
      by (simp add: device_in_step_def)
  qed (use assms(2) in simp)
qed

lemma device_in_step_run:
  "run_core evs cm = (Inr (), cm') \<Longrightarrow> device_in_step cm \<Longrightarrow> device_in_step cm'"
proof (induction evs arbitrary: cm)
  case (Cons x evs)
  obtain env ev where x: "x = (env, ev)" by fastforce
  from Cons.prems(1) obtain cm1 where "handle_event env ev cm = (Inr (), cm1)" "run_core evs cm1 = (Inr (), cm')"
    unfolding x by (rule run_core_Cons)
  with Cons.IH Cons.prems(2) device_in_step_event show ?case by blast
qed (simp add: ok_def)

lemma device_in_step_new: "device_in_step (CoreManager_new limits hid_io ws)"
  by (simp add: device_in_step_def CoreManager_new_def displayed_def)

text \<open>
  C29: the handheld controller shows the state of the core, although only the variables that changed are
  sent.  After any run of the core and an input report that it handles while the handheld controller has the
  write access: whatever the device was showing before, restarted or exchanged or not, once it has received the reports
  from one of its screens on, either it has been told to restart, or it shows every variable of the screen with the
  value it has for the state the core handled the report in; what it shows is then what the interface
  remembers having sent, except for hardware parameters that were not sent since.
\<close>

theorem variables_reach_device:
  assumes "run_core evs (CoreManager_new limits hid_io ws) = (Inr (), cm)"
    and "holder cm = Some Hid" "handle_event env (HidInputReport report) cm = (Inr (), cm')"
    and "hid_reports (cm_sent cm') = before @ ScreenSpecReport spec # after"
  shows "\<exists>ui screen. cm_hid_ui cm' = Some ui \<and>
    screen_variables (cm_limits cm) (cm_core_state cm) ui = Some screen \<and>
    (case fold device_receive (ScreenSpecReport spec # after) device of
       None \<Rightarrow> list_ex restarts after
     | Some vars \<Rightarrow> (\<forall>v \<in> set screen. vars (get_variable_key v) = Some v) \<and>
         showing vars (ui_last_sent_variables ui))"
proof -
  have in_step: "device_in_step cm'"
    using device_in_step_event [OF assms(3)] device_in_step_run [OF assms(1) device_in_step_new] .
  have "hid_input_report env report cm = (Inr (), cm')"
    using assms(3) by (simp add: handle_event_def)
  then show ?thesis
  proof (cases rule: hid_input_report_cases)
    case off
    then have "hid_reports (cm_sent cm') = []"
      using in_step by (simp add: device_in_step_def)
    with assms(4) show ?thesis by simp
  next
    case (on ui ms out ui')
    obtain screen where screen: "screen_variables (cm_limits cm) (cm_core_state cm) ui' = Some screen"
      "\<forall>v \<in> set screen. ui_last_sent_variables ui' (get_variable_key v) = Some v"
      using input_report_current [OF on(2)] assms(2) by (auto simp: holder_def)
    have "displayed (hid_reports (cm_sent cm')) (ui_last_sent_variables ui')"
      using in_step on(3) by (simp add: device_in_step_def)
    with assms(4) have shown: "pred_option (\<lambda>vars. showing vars (ui_last_sent_variables ui'))
        (fold device_receive (ScreenSpecReport spec # after) device)"
      unfolding displayed_def by blast
    show ?thesis
    proof (cases "fold device_receive (ScreenSpecReport spec # after) device")
      case None
      then have "list_ex restarts after"
        using device_restarted by simp
      with None on(3) screen(1) show ?thesis by simp
    next
      case (Some vars)
      then have "showing vars (ui_last_sent_variables ui')"
        using shown by simp
      moreover from this screen(2) have "\<forall>v \<in> set screen. vars (get_variable_key v) = Some v"
        unfolding showing_def by (metis option.distinct(1))
      ultimately show ?thesis
        using Some on(3) screen(1) by simp
    qed
  qed
qed

text \<open>The device connects, a first report takes the write access, and a second one is handled.\<close>

lemma example_display:
  "\<exists>cm cm' out. run_core [(example_env, ControllerConnected Hid), (example_env, HidInputReport example_report)]
      (CoreManager_new example_limits True True) = (Inr (), cm) \<and> holder cm = Some Hid \<and>
    handle_event example_env (HidInputReport example_report) cm = (Inr (), cm') \<and>
    hid_reports (cm_sent cm') = [] @ ScreenSpecReport default_screen # out"
proof -
  let ?new = "CoreManager_new example_limits True True"
  have env: "receivers_alive example_env" "ce_profile example_env = Release"
    by (simp_all add: receivers_alive_def example_env_def)
  obtain cm where run: "run_core [(example_env, ControllerConnected Hid), (example_env, HidInputReport example_report)]
      ?new = (Inr (), cm)" and cm: "holder cm = Some Hid" "hid_reports (cm_sent cm) = [ScreenSpecReport default_screen]"
    by (auto simp: run_defs hid_input_report_def process_input_report_def example_limits_def
        clamp_command_def commands_to_vec_def UiManager_new_def DEFAULT_COMMANDS_def
        DEFAULT_COMMAND_def ord_clamp_def less_Position_def less_eq_Position_def
        less_Velocity_def less_eq_Velocity_def less_Acceleration_def less_eq_Acceleration_def
        ops_ZERO_def overflow_def)
  have has: "has_source ?new (ControllerConnected Hid)" "has_source ?new (HidInputReport example_report)"
    by (simp_all add: has_source_def has_transport_def CoreManager_new_def)
  note total = handle_event_total [OF env example_hid_ok(1)]
  obtain cm1 where one: "handle_event example_env (ControllerConnected Hid) ?new = (Inr (), cm1)"
    "healthy example_limits cm1" "same_transports ?new cm1"
    using total [OF healthy_new [OF example_hid_ok(1)] has(1)] by blast
  moreover obtain cm2 where two: "handle_event example_env (HidInputReport example_report) cm1 = (Inr (), cm2)"
    "healthy example_limits cm2" "same_transports cm1 cm2"
    using total [OF one(2)] has_source_same [OF one(3)] has(2) by blast
  ultimately have "cm2 = cm"
    using run by (simp add: ok_def and_then_def)
  moreover obtain cm3 where "handle_event example_env (HidInputReport example_report) cm2 = (Inr (), cm3)"
    using total [OF two(2)] has_source_same [OF two(3)] has_source_same [OF one(3)] has(2) by blast
  moreover from this obtain out where "hid_reports (cm_sent cm3) = hid_reports (cm_sent cm2) @ out"
    by (auto simp: handle_event_def elim: hid_input_report_cases)
  ultimately show ?thesis
    using run cm by auto
qed

theorem variables_reach_device_witness:
  "\<exists>cm cm' out ui screen. run_core [(example_env, ControllerConnected Hid),
      (example_env, HidInputReport example_report)] (CoreManager_new example_limits True True) = (Inr (), cm) \<and>
    handle_event example_env (HidInputReport example_report) cm = (Inr (), cm') \<and>
    hid_reports (cm_sent cm') = [] @ ScreenSpecReport default_screen # out \<and> cm_hid_ui cm' = Some ui \<and>
    screen_variables (cm_limits cm) (cm_core_state cm) ui = Some screen \<and>
    (case fold device_receive (ScreenSpecReport default_screen # out) None of
       None \<Rightarrow> list_ex restarts out
     | Some vars \<Rightarrow> (\<forall>v \<in> set screen. vars (get_variable_key v) = Some v) \<and>
         showing vars (ui_last_sent_variables ui))"
proof -
  obtain cm cm' out where run: "run_core [(example_env, ControllerConnected Hid),
      (example_env, HidInputReport example_report)] (CoreManager_new example_limits True True) = (Inr (), cm)"
    "holder cm = Some Hid" "handle_event example_env (HidInputReport example_report) cm = (Inr (), cm')"
    "hid_reports (cm_sent cm') = [] @ ScreenSpecReport default_screen # out"
    using example_display by blast
  from variables_reach_device [OF run, where device = None] run(1,3,4) show ?thesis
    by blast
qed

subsection \<open>Restarting the device\<close>

text \<open>
  A restart is remembered like a value: until the device connects anew, a second click on the button for it
  sends nothing, whatever became of the first one.
\<close>

abbreviation RESET_KEY :: u8 where
  "RESET_KEY \<equiv> get_variable_key (HardwareControlEntry Reset)"

lemma retain_changed_known:
  assumes "retain_changed vs sent = (kept, sent')" "\<forall>w \<in> set vs. get_variable_key w = get_variable_key v \<longrightarrow> w = v"
    and "sent (get_variable_key v) = Some v"
  shows "v \<notin> set kept"
  using assms
proof (induction vs arbitrary: sent kept)
  case (Cons w vs)
  show ?case
  proof (cases "sent (get_variable_key w) = Some w")
    case True
    with Cons show ?thesis by auto
  next
    case False
    then obtain kept' where kept: "retain_changed vs (sent(get_variable_key w \<mapsto> w)) = (kept', sent')" "kept = w # kept'"
      using Cons.prems(1) by (auto simp: Let_def split: prod.splits)
    have "get_variable_key w \<noteq> get_variable_key v"
      using False Cons.prems(2,3) by auto
    with Cons.IH [OF kept(1)] Cons.prems(2,3) kept(2) show ?thesis by auto
  qed
qed simp

lemma handle_hid_events_variables:
  assumes "fold (handle_hid_event core_state) events (ms, vs, ui) = (ms', vs', ui')"
    and "set vs \<subseteq> {HardwareControlEntry Reset}"
  shows "set vs' \<subseteq> {HardwareControlEntry Reset}"
  using assms
proof (induction events arbitrary: ms vs ui)
  case (Cons event events)
  obtain ms1 vs1 ui1 where step: "handle_hid_event core_state event (ms, vs, ui) = (ms1, vs1, ui1)"
    by (metis prod_cases3)
  then have "set vs1 \<subseteq> {HardwareControlEntry Reset}"
    using Cons.prems(2) by (auto simp: handle_hid_event_def split: HidInputEvent.splits if_splits)
  with Cons step show ?case by simp
qed simp

theorem reset_sent_once:
  assumes "process_input_report p alive report limits core_state ui = Some (Inr (ms, out, ui'))"
    and "ui_last_sent_variables ui RESET_KEY = Some (HardwareControlEntry Reset)"
  shows "\<not> list_ex restarts out"
  using assms(1)
proof (cases rule: process_input_report_cases)
  case (edit m u vs ui1 screen kept sent)
  have "set vs \<subseteq> {HardwareControlEntry Reset}"
    using handle_hid_events_variables [OF edit(3)] by simp
  moreover have "get_variable_key w \<noteq> RESET_KEY" if "w \<in> set screen" for w
    using edit(4) that by (auto simp: screen_variables_def Let_def split: Option.bind_splits if_splits
        prod.splits option.splits)
  moreover have "ui_last_sent_variables ui1 = ui_last_sent_variables ui"
    using edit(2,3) turn_encoders_keep_sent handle_hid_events_keep_sent by metis
  ultimately have "HardwareControlEntry Reset \<notin> set kept"
    using assms(2) by (intro retain_changed_known [OF edit(5)]) auto
  with edit(7) show ?thesis
    by (auto simp: restarts_def)
qed simp

end
