(* ===== verification/LinmotTests.thy ===== *)
theory LinmotTests
  imports Commands Conversions QuantityText
begin

text \<open>
  The unit tests of the \<open>linmot\<close> crate (\<open>linmot/src/mci/units.rs\<close>, \<open>linmot/src/mci.rs\<close>), run on
  the model.  Each test function is a predicate, its assertions in their order; a panic is a value
  \<open>None\<close>, which no assertion accepts.  The tests validate the definitions the other theories
  reason about: a wrong factor, a wrong unit or a wrong byte order makes one of them false.
\<close>

subsection \<open>Conversions\<close>

definition test_position_conversions :: "profile \<Rightarrow> bool" where
  "test_position_conversions p \<longleftrightarrow>
     Position_from_millimeters p 100 = Some (Position 1000000) \<and>
     Position_from_millimeters_f64 (f64_decimal 1 10) = Position 1000"

definition test_velocity_conversions :: "profile \<Rightarrow> bool" where
  "test_velocity_conversions p \<longleftrightarrow>
     Velocity_from_millimeters_per_second p 1 = Some (Velocity 1000) \<and>
     Velocity_from_millimeters_per_second_f64 (f64_decimal 1 10) = Velocity 100 \<and>
     Velocity_from_meters_per_second p 1 = Some (Velocity 1000000) \<and>
     Velocity_from_meters_per_second_f64 (f64_decimal 5 10) = Velocity 500000"

definition test_acceleration_conversions :: "profile \<Rightarrow> bool" where
  "test_acceleration_conversions p \<longleftrightarrow>
     Acceleration_from_meters_per_second_squared p 1 = Some (Acceleration 100000) \<and>
     Acceleration_from_meters_per_second_squared_f64 (f64_decimal 5 10) = Acceleration 50000 \<and>
     Acceleration_from_millimeters_per_second_squared p 1 = Some (Acceleration 100) \<and>
     Acceleration_from_millimeters_per_second_squared_f64 (f64_decimal 5 10) = Acceleration 50"

definition test_jerk_conversions :: "profile \<Rightarrow> bool" where
  "test_jerk_conversions p \<longleftrightarrow>
     Jerk_from_meters_per_second_cubed p 1 = Some (Jerk 10000) \<and>
     Jerk_from_meters_per_second_cubed_f64 (f64_decimal 25 100) = Jerk 2500 \<and>
     Jerk_from_millimeters_per_second_cubed p 1 = Some (Jerk 10) \<and>
     Jerk_from_millimeters_per_second_cubed_f64 (f64_decimal 5 10) = Jerk 5"

lemmas integer_conversions = Position_from_millimeters_def
  Velocity_from_millimeters_per_second_def Velocity_from_meters_per_second_def
  Acceleration_from_meters_per_second_squared_def Acceleration_from_millimeters_per_second_squared_def
  Jerk_from_meters_per_second_cubed_def Jerk_from_millimeters_per_second_cubed_def arith_word_def

lemma conversion_tests_pass:
  "test_position_conversions p" "test_velocity_conversions p"
  "test_acceleration_conversions p" "test_jerk_conversions p"
  by (simp_all add: test_position_conversions_def test_velocity_conversions_def
      test_acceleration_conversions_def test_jerk_conversions_def integer_conversions
      f64_conversions f64_computes as_i32_def)

subsection \<open>Texts\<close>

text \<open>The characters outside ASCII that the expected texts hold, in UTF-8.\<close>

abbreviation "utf8_mu \<equiv> [CHR 0xCE, CHR 0xBC]"
abbreviation "utf8_squared \<equiv> [CHR 0xC2, CHR 0xB2]"
abbreviation "utf8_cubed \<equiv> [CHR 0xC2, CHR 0xB3]"
abbreviation "utf8_celsius \<equiv> [CHR 0xC2, CHR 0xB0, CHR ''C'']"

text \<open>The probe formats its value by \<open>fmt_scaled\<close> in its units.\<close>

record FmtProbe =
  probe_value :: f64
  probe_units :: "(string \<times> f64) list"

definition FmtProbe_debug :: "FmtProbe \<Rightarrow> string" where
  "FmtProbe_debug probe = fmt_scaled (probe_value probe) (probe_units probe)"

definition test_fmt_scaled_boundaries_and_alternate :: bool where
  "test_fmt_scaled_boundaries_and_alternate \<longleftrightarrow>
     (let units = [(''k'', f64_from 1000), (''u'', f64_from 1)] in
      FmtProbe_debug \<lparr>probe_value = f64_from 0, probe_units = units\<rparr> = ''0u'' \<and>
      FmtProbe_debug \<lparr>probe_value = f64_from 999, probe_units = units\<rparr> = ''999u'' \<and>
      FmtProbe_debug \<lparr>probe_value = f64_from 1000, probe_units = units\<rparr> = ''1k'' \<and>
      FmtProbe_debug \<lparr>probe_value = f64_from 1001, probe_units = units\<rparr> = ''1.001k'' \<and>
      FmtProbe_debug \<lparr>probe_value = f64_neg (f64_from 1001), probe_units = units\<rparr> = ''-1.001k'')"

definition test_debug_format_position :: bool where
  "test_debug_format_position \<longleftrightarrow>
     Position_debug (Position 10000000) = ''1m'' \<and>
     Position_debug (Position 10000) = ''1mm'' \<and>
     Position_debug (Position 10) = ''1'' @ utf8_mu @ ''m'' \<and>
     Position_debug (Position (- 10000)) = ''-1mm''"

definition test_debug_format_velocity :: bool where
  "test_debug_format_velocity \<longleftrightarrow>
     Velocity_debug (Velocity 1000000) = ''1m/s'' \<and>
     Velocity_debug (Velocity 1000) = ''1mm/s'' \<and>
     Velocity_debug (Velocity 1) = ''1'' @ utf8_mu @ ''m/s''"

definition test_debug_format_acceleration :: bool where
  "test_debug_format_acceleration \<longleftrightarrow>
     Acceleration_debug (Acceleration 100000) = ''1m/s'' @ utf8_squared \<and>
     Acceleration_debug (Acceleration 100) = ''1mm/s'' @ utf8_squared \<and>
     Acceleration_debug (Acceleration 1) = ''10'' @ utf8_mu @ ''m/s'' @ utf8_squared \<and>
     Acceleration_debug (Acceleration (- 100)) = ''-1mm/s'' @ utf8_squared"

definition test_debug_format_jerk :: bool where
  "test_debug_format_jerk \<longleftrightarrow>
     Jerk_debug (Jerk 10000) = ''1m/s'' @ utf8_cubed \<and>
     Jerk_debug (Jerk 10) = ''1mm/s'' @ utf8_cubed \<and>
     Jerk_debug (Jerk 1) = ''100'' @ utf8_mu @ ''m/s'' @ utf8_cubed \<and>
     Jerk_debug (Jerk (- 10)) = ''-1mm/s'' @ utf8_cubed"

definition test_debug_format_current :: bool where
  "test_debug_format_current \<longleftrightarrow>
     Current_debug (Current 2500) = ''2.5A'' \<and>
     Current_debug (Current 500) = ''500mA'' \<and>
     Current_debug (Current (- 500)) = ''-500mA'' \<and>
     Current_debug (Current 1000) = ''1A''"

definition test_debug_format_drive_temperature :: bool where
  "test_debug_format_drive_temperature \<longleftrightarrow>
     DriveTemperature_debug (DriveTemperature 0) = ''0'' @ utf8_celsius \<and>
     DriveTemperature_debug (DriveTemperature 330) = ''33'' @ utf8_celsius \<and>
     DriveTemperature_debug (DriveTemperature 335) = ''33.5'' @ utf8_celsius"

definition test_debug_format_motor_temperature :: bool where
  "test_debug_format_motor_temperature \<longleftrightarrow>
     MotorTemperature_debug (MotorTemperature 0) = ''-50'' @ utf8_celsius \<and>
     MotorTemperature_debug (MotorTemperature 72) = ''20.588'' @ utf8_celsius"

lemmas texts_compute = quantity_texts fmt_scaled_def metric_units_def e_minus_def f64_of_int_def
  f64_decimal_def f64_from_def f64_rounded_def f64_round_def f64_scale_def round_half_even_def
  bit_length.simps signed_magnitude_def Let_def trim_end_matches_def three_digits_def
  decimal_digits.simps digit_char_def

lemma test_fmt_scaled_boundaries_and_alternate_passes: test_fmt_scaled_boundaries_and_alternate
  by (simp add: test_fmt_scaled_boundaries_and_alternate_def FmtProbe_debug_def texts_compute)

lemma test_debug_format_position_passes: test_debug_format_position
  by (simp add: test_debug_format_position_def texts_compute)

lemma test_debug_format_velocity_passes: test_debug_format_velocity
  by (simp add: test_debug_format_velocity_def texts_compute)

lemma test_debug_format_acceleration_passes: test_debug_format_acceleration
  by (simp add: test_debug_format_acceleration_def texts_compute)

lemma test_debug_format_jerk_passes: test_debug_format_jerk
  by (simp add: test_debug_format_jerk_def texts_compute)

lemma test_debug_format_current_passes: test_debug_format_current
  by (simp add: test_debug_format_current_def texts_compute)

lemma test_debug_format_drive_temperature_passes: test_debug_format_drive_temperature
  by (simp add: test_debug_format_drive_temperature_def texts_compute)

lemma test_debug_format_motor_temperature_passes: test_debug_format_motor_temperature
proof -
  have "f64_add (Finite True 50 0) (Finite False 0 0) = f64_rounded True 50 1 0"
    by (simp add: signed_magnitude_def)
  moreover have "f64_mul (f64_of_int (sint (0 :: i16))) (f64_div (f64_from 50) (f64_from 51)) =
      Finite False 0 0"
    by (simp add: texts_compute)
  then have "MotorTemperature_debug (MotorTemperature 0) =
      fmt_scaled (f64_add (Finite True 50 0) (Finite False 0 0)) [(utf8_celsius, f64_from 1)]"
    by (simp only: MotorTemperature_debug_def MotorTemperature.sel)
  moreover have "fmt_scaled (f64_rounded True 50 1 0) [(utf8_celsius, f64_from 1)] =
      ''-50'' @ utf8_celsius"
    by (simp add: texts_compute)
  moreover have "MotorTemperature_debug (MotorTemperature 72) = ''20.588'' @ utf8_celsius"
    by (simp add: texts_compute)
  ultimately show ?thesis
    by (simp add: test_debug_format_motor_temperature_def)
qed

subsection \<open>A motion command on the wire\<close>

text \<open>The bytes the test takes from the LinUDP documentation.\<close>

definition test_motion_command_write_to :: "profile \<Rightarrow> bool" where
  "test_motion_command_write_to p \<longleftrightarrow>
     (case do {
        target_position \<leftarrow> Position_from_millimeters p 10;
        maximal_velocity \<leftarrow> Velocity_from_meters_per_second p 1;
        acceleration \<leftarrow> Acceleration_from_meters_per_second_squared p 10;
        deceleration \<leftarrow> Acceleration_from_meters_per_second_squared p 10;
        Some \<lparr>mci_count = 0,
              mci_command = VaiGoToPos target_position maximal_velocity acceleration deceleration\<rparr>
      } of
        None \<Rightarrow> False
      | Some command \<Rightarrow>
          (case MciMotionCommand_write_to command (Writer_new (replicate 32 0)) of
             Inl e \<Rightarrow> False
           | Inr writer \<Rightarrow>
               writer_buf writer =
                 [0x00, 0x01, 0xA0, 0x86, 0x01, 0x00, 0x40, 0x42, 0x0F, 0x00, 0x40, 0x42, 0x0F, 0x00,
                  0x40, 0x42, 0x0F, 0x00, 0x00, 0x00, 0x00, 0x00, 0x00, 0x00, 0x00, 0x00, 0x00, 0x00,
                  0x00, 0x00, 0x00, 0x00]))"

lemma command_test_passes: "test_motion_command_write_to p"
proof -
  let ?mc = "\<lparr>mci_count = 0, mci_command = VaiGoToPos (Position 100000) (Velocity 1000000)
    (Acceleration 1000000) (Acceleration 1000000)\<rparr>"
  have "room (Writer_new (replicate 32 0)) (length (command_block ?mc))"
    by (simp add: room_def Writer_new_def length_command_block)
  from command_block.write_ok [OF this] show ?thesis
    by (simp add: test_motion_command_write_to_def integer_conversions put_def Writer_new_def
        command_block_def command_header_def to_le_bytes_def upt_conv_Cons replicate_cons)
qed

end
