(* ===== verification/DriveTests.thy ===== *)
theory DriveTests
  imports Motion Conversions
begin

text \<open>
  The unit tests of \<open>src/drive.rs\<close>, run on the model.  Each test function is a definition: the
  values it sets up, the call, and its assertions; \<open>None\<close> is a panic outside the assertions, and
  the lemmas show that every test passes, whether overflow is checked or not.
\<close>

subsection \<open>Helpers of the tests\<close>

definition cmd :: "profile \<Rightarrow> i32 \<Rightarrow> MotionCommand option" where
  "cmd p position_mm = do {
     position \<leftarrow> Position_from_millimeters p position_mm;
     velocity \<leftarrow> Velocity_from_meters_per_second p 1;
     acceleration \<leftarrow> Acceleration_from_meters_per_second_squared p 4;
     deceleration \<leftarrow> Acceleration_from_meters_per_second_squared p 4;
     Some \<lparr>position = position, velocity = velocity, acceleration = acceleration,
           deceleration = deceleration\<rparr>
   }"

text \<open>\<open>clamp\<close> of the tests: the case without an approach direction.\<close>

definition clamp_without_dir ::
    "profile \<Rightarrow> Position \<Rightarrow> Velocity \<Rightarrow> Position \<Rightarrow> Acceleration \<Rightarrow> Position \<Rightarrow> Acceleration option" where
  "clamp_without_dir p demand_position demand_velocity target_position requested_deceleration
       overshoot_margin = do {
     hard_decel_min \<leftarrow> Acceleration_from_meters_per_second_squared p 10;
     hard_decel_max \<leftarrow> Acceleration_from_meters_per_second_squared p 100;
     clamp_deceleration p demand_position demand_velocity target_position requested_deceleration
       None overshoot_margin hard_decel_min hard_decel_max
   }"

definition clamp_with_dir ::
    "profile \<Rightarrow> Position \<Rightarrow> Velocity \<Rightarrow> Position \<Rightarrow> Acceleration \<Rightarrow> int \<Rightarrow> Position
     \<Rightarrow> Acceleration option" where
  "clamp_with_dir p demand_position demand_velocity target_position requested_deceleration
       approach_direction overshoot_margin = do {
     hard_decel_min \<leftarrow> Acceleration_from_meters_per_second_squared p 10;
     hard_decel_max \<leftarrow> Acceleration_from_meters_per_second_squared p 100;
     clamp_deceleration p demand_position demand_velocity target_position requested_deceleration
       (Some approach_direction) overshoot_margin hard_decel_min hard_decel_max
   }"

text \<open>The difference and its absolute value are \<open>i32\<close>.\<close>

definition assert_position_mm :: "profile \<Rightarrow> Position \<Rightarrow> f64 \<Rightarrow> bool option" where
  "assert_position_mm p result expected_mm = do {
     let expected_units = f64_as_i32 (f64_round_int (f64_mul expected_mm (f64_from 10000)));
     let tolerance = 1;
     d \<leftarrow> arith_i32 p (sint (position_0 result) - sint expected_units);
     d \<leftarrow> arith_i32 p \<bar>d\<bar>;
     Some (d \<le> tolerance)
   }"

subsection \<open>Predictions\<close>

definition zero_duration_returns_original_position :: "profile \<Rightarrow> bool option" where
  "zero_duration_returns_original_position p = do {
     position \<leftarrow> Position_from_millimeters p 100;
     velocity \<leftarrow> Velocity_from_millimeters_per_second p 500;
     acceleration \<leftarrow> Acceleration_from_meters_per_second_squared p 10;
     result \<leftarrow> predict_position p position velocity acceleration 0;
     expected \<leftarrow> Position_from_millimeters p 100;
     Some (position_0 result = position_0 expected)
   }"

definition constant_velocity_only :: "profile \<Rightarrow> bool option" where
  "constant_velocity_only p = do {
     position \<leftarrow> Position_from_millimeters p 100;
     velocity \<leftarrow> Velocity_from_millimeters_per_second p 500;
     acceleration \<leftarrow> Acceleration_from_millimeters_per_second_squared p 0;
     result \<leftarrow> predict_position p position velocity acceleration (10 * 1000000);
     assert_position_mm p result (f64_from 105)
   }"

definition acceleration_from_rest :: "profile \<Rightarrow> bool option" where
  "acceleration_from_rest p = do {
     position \<leftarrow> Position_from_millimeters p 0;
     velocity \<leftarrow> Velocity_from_millimeters_per_second p 0;
     acceleration \<leftarrow> Acceleration_from_meters_per_second_squared p 1;
     result \<leftarrow> predict_position p position velocity acceleration (1 * 1000000000);
     assert_position_mm p result (f64_from 500)
   }"

definition velocity_and_acceleration_combined :: "profile \<Rightarrow> bool option" where
  "velocity_and_acceleration_combined p = do {
     position \<leftarrow> Position_from_millimeters p 50;
     velocity \<leftarrow> Velocity_from_millimeters_per_second p 200;
     acceleration \<leftarrow> Acceleration_from_millimeters_per_second_squared p 5000;
     result \<leftarrow> predict_position p position velocity acceleration (5 * 1000000);
     assert_position_mm p result (f64_decimal 510625 10000)
   }"

definition negative_velocity_and_deceleration :: "profile \<Rightarrow> bool option" where
  "negative_velocity_and_deceleration p = do {
     position \<leftarrow> Position_from_millimeters p (- 100);
     velocity \<leftarrow> Velocity_from_millimeters_per_second p (- 500);
     acceleration \<leftarrow> Acceleration_from_millimeters_per_second_squared p (- 2000);
     result \<leftarrow> predict_position p position velocity acceleration (10 * 1000000);
     assert_position_mm p result (f64_neg (f64_decimal 1051 10))
   }"

definition predict_velocity_matches_acceleration_over_duration :: "profile \<Rightarrow> bool option" where
  "predict_velocity_matches_acceleration_over_duration p = do {
     velocity \<leftarrow> Velocity_from_meters_per_second p 1;
     acceleration \<leftarrow> Acceleration_from_meters_per_second_squared p (- 4);
     v \<leftarrow> predict_velocity p velocity acceleration (2 * 1000000);
     Some (v = Velocity_from_meters_per_second_f64 (f64_decimal 992 1000))
   }"

subsection \<open>The waypoint after a hand-off\<close>

definition early_handoff_keeps_previous_waypoint_clamp_until_new_leg_is_approached ::
    "profile \<Rightarrow> bool option" where
  "early_handoff_keeps_previous_waypoint_clamp_until_new_leg_is_approached p = do {
     a \<leftarrow> cmd p 150;
     b \<leftarrow> cmd p 50;
     fallback \<leftarrow> Position_from_millimeters p 150;
     (target, direction) \<leftarrow>
       effective_clamp_target_after_handoff p [a, b] 0 False (Some 1) fallback (Some 1);
     expected \<leftarrow> Position_from_millimeters p 50;
     Some (target = expected \<and> direction = Some (- 1))
   }"

definition clamp_reverts_to_current_leg_after_new_leg_is_approached :: "profile \<Rightarrow> bool option" where
  "clamp_reverts_to_current_leg_after_new_leg_is_approached p = do {
     a \<leftarrow> cmd p 150;
     b \<leftarrow> cmd p 50;
     fallback \<leftarrow> Position_from_millimeters p 150;
     (target, direction) \<leftarrow>
       effective_clamp_target_after_handoff p [a, b] 0 True (Some 1) fallback (Some 1);
     expected \<leftarrow> Position_from_millimeters p 150;
     Some (target = expected \<and> direction = Some 1)
   }"

definition zero_length_next_leg_does_not_keep_fake_approach_direction ::
    "profile \<Rightarrow> bool option" where
  "zero_length_next_leg_does_not_keep_fake_approach_direction p = do {
     a \<leftarrow> cmd p 100;
     b \<leftarrow> cmd p 100;
     fallback \<leftarrow> Position_from_millimeters p 100;
     (target, direction) \<leftarrow>
       effective_clamp_target_after_handoff p [a, b] 1 False None fallback None;
     expected \<leftarrow> Position_from_millimeters p 100;
     Some (target = expected \<and> direction = None)
   }"

subsection \<open>The deceleration that is sent\<close>

definition sufficient_deceleration_unchanged :: "profile \<Rightarrow> bool option" where
  "sufficient_deceleration_unchanged p = do {
     demand_position \<leftarrow> Position_from_millimeters p 50;
     demand_velocity \<leftarrow> Velocity_from_meters_per_second p 1;
     target_position \<leftarrow> Position_from_millimeters p 100;
     requested_deceleration \<leftarrow> Acceleration_from_meters_per_second_squared p 10;
     let overshoot_margin = Position 0;
     result \<leftarrow> clamp_without_dir p demand_position demand_velocity target_position
       requested_deceleration overshoot_margin;
     expected \<leftarrow> Acceleration_from_meters_per_second_squared p 10;
     Some (result = expected)
   }"

definition insufficient_deceleration_clamped :: "profile \<Rightarrow> bool option" where
  "insufficient_deceleration_clamped p = do {
     demand_position \<leftarrow> Position_from_millimeters p 50;
     demand_velocity \<leftarrow> Velocity_from_meters_per_second p 1;
     target_position \<leftarrow> Position_from_millimeters p 100;
     requested_deceleration \<leftarrow> Acceleration_from_meters_per_second_squared p 5;
     let overshoot_margin = Position 0;
     result \<leftarrow> clamp_without_dir p demand_position demand_velocity target_position
       requested_deceleration overshoot_margin;
     expected \<leftarrow> Acceleration_from_meters_per_second_squared p 10;
     Some (result = expected)
   }"

definition overshoot_margin_avoids_clamp :: "profile \<Rightarrow> bool option" where
  "overshoot_margin_avoids_clamp p = do {
     demand_position \<leftarrow> Position_from_millimeters p 50;
     demand_velocity \<leftarrow> Velocity_from_meters_per_second p 1;
     target_position \<leftarrow> Position_from_millimeters p 100;
     requested_deceleration \<leftarrow> Acceleration_from_meters_per_second_squared p 5;
     overshoot_margin \<leftarrow> Position_from_millimeters p 50;
     result \<leftarrow> clamp_without_dir p demand_position demand_velocity target_position
       requested_deceleration overshoot_margin;
     expected \<leftarrow> Acceleration_from_meters_per_second_squared p 5;
     Some (result = expected)
   }"

definition negative_velocity_clamped :: "profile \<Rightarrow> bool option" where
  "negative_velocity_clamped p = do {
     demand_position \<leftarrow> Position_from_millimeters p 100;
     demand_velocity \<leftarrow> Velocity_from_meters_per_second p (- 1);
     target_position \<leftarrow> Position_from_millimeters p 50;
     requested_deceleration \<leftarrow> Acceleration_from_meters_per_second_squared p 5;
     let overshoot_margin = Position 0;
     result \<leftarrow> clamp_without_dir p demand_position demand_velocity target_position
       requested_deceleration overshoot_margin;
     expected \<leftarrow> Acceleration_from_meters_per_second_squared p 10;
     Some (result = expected)
   }"

definition past_target_at_margin_boundary_applies_min_hard_decel :: "profile \<Rightarrow> bool option" where
  "past_target_at_margin_boundary_applies_min_hard_decel p = do {
     demand_position \<leftarrow> Position_from_millimeters p 110;
     demand_velocity \<leftarrow> Velocity_from_meters_per_second p 1;
     target_position \<leftarrow> Position_from_millimeters p 100;
     requested_deceleration \<leftarrow> Acceleration_from_meters_per_second_squared p 10;
     overshoot_margin \<leftarrow> Position_from_millimeters p 10;
     result \<leftarrow> clamp_without_dir p demand_position demand_velocity target_position
       requested_deceleration overshoot_margin;
     expected \<leftarrow> Acceleration_from_meters_per_second_squared p 10;
     Some (result = expected)
   }"

definition past_target_double_margin_applies_max_hard_decel :: "profile \<Rightarrow> bool option" where
  "past_target_double_margin_applies_max_hard_decel p = do {
     demand_position \<leftarrow> Position_from_millimeters p 120;
     demand_velocity \<leftarrow> Velocity_from_meters_per_second p 1;
     target_position \<leftarrow> Position_from_millimeters p 100;
     requested_deceleration \<leftarrow> Acceleration_from_meters_per_second_squared p 10;
     overshoot_margin \<leftarrow> Position_from_millimeters p 10;
     result \<leftarrow> clamp_without_dir p demand_position demand_velocity target_position
       requested_deceleration overshoot_margin;
     expected \<leftarrow> Acceleration_from_meters_per_second_squared p 100;
     Some (result = expected)
   }"

definition past_target_within_margin_clamped :: "profile \<Rightarrow> bool option" where
  "past_target_within_margin_clamped p = do {
     demand_position \<leftarrow> Position_from_millimeters p 105;
     demand_velocity \<leftarrow> Velocity_from_meters_per_second p 1;
     target_position \<leftarrow> Position_from_millimeters p 100;
     requested_deceleration \<leftarrow> Acceleration_from_meters_per_second_squared p 10;
     overshoot_margin \<leftarrow> Position_from_millimeters p 10;
     result \<leftarrow> clamp_without_dir p demand_position demand_velocity target_position
       requested_deceleration overshoot_margin;
     expected \<leftarrow> Acceleration_from_meters_per_second_squared p 100;
     Some (result = expected)
   }"

definition direction_reversal_benign_without_approach_dir :: "profile \<Rightarrow> bool option" where
  "direction_reversal_benign_without_approach_dir p = do {
     demand_position \<leftarrow> Position_from_millimeters p 50;
     demand_velocity \<leftarrow> Velocity_from_meters_per_second p (- 1);
     target_position \<leftarrow> Position_from_millimeters p 100;
     requested_deceleration \<leftarrow> Acceleration_from_meters_per_second_squared p 10;
     overshoot_margin \<leftarrow> Position_from_millimeters p 100;
     result \<leftarrow> clamp_without_dir p demand_position demand_velocity target_position
       requested_deceleration overshoot_margin;
     expected \<leftarrow> Acceleration_from_meters_per_second_squared p 10;
     Some (result = expected)
   }"

definition direction_reversal_benign_with_approach_dir :: "profile \<Rightarrow> bool option" where
  "direction_reversal_benign_with_approach_dir p = do {
     demand_position \<leftarrow> Position_from_millimeters p 50;
     demand_velocity \<leftarrow> Velocity_from_meters_per_second p (- 1);
     target_position \<leftarrow> Position_from_millimeters p 100;
     requested_deceleration \<leftarrow> Acceleration_from_meters_per_second_squared p 10;
     overshoot_margin \<leftarrow> Position_from_millimeters p 100;
     result \<leftarrow> clamp_with_dir p demand_position demand_velocity target_position
       requested_deceleration 1 overshoot_margin;
     expected \<leftarrow> Acceleration_from_meters_per_second_squared p 10;
     Some (result = expected)
   }"

definition approach_dir_prevents_false_overshoot_on_command_advance :: "profile \<Rightarrow> bool option" where
  "approach_dir_prevents_false_overshoot_on_command_advance p = do {
     demand_position \<leftarrow> Position_from_millimeters p 150;
     demand_velocity \<leftarrow> Velocity_from_meters_per_second p 1;
     target_position \<leftarrow> Position_from_millimeters p 0;
     requested_deceleration \<leftarrow> Acceleration_from_meters_per_second_squared p 5;
     overshoot_margin \<leftarrow> Position_from_millimeters p 2;
     result \<leftarrow> clamp_with_dir p demand_position demand_velocity target_position
       requested_deceleration (- 1) overshoot_margin;
     expected \<leftarrow> Acceleration_from_meters_per_second_squared p 5;
     Some (result = expected)
   }"

definition approach_dir_detects_genuine_overshoot_in_new_direction :: "profile \<Rightarrow> bool option" where
  "approach_dir_detects_genuine_overshoot_in_new_direction p = do {
     demand_position \<leftarrow> Position_from_millimeters p (- 5);
     demand_velocity \<leftarrow> Velocity_from_meters_per_second p 1;
     target_position \<leftarrow> Position_from_millimeters p 0;
     requested_deceleration \<leftarrow> Acceleration_from_meters_per_second_squared p 5;
     overshoot_margin \<leftarrow> Position_from_millimeters p 10;
     result \<leftarrow> clamp_with_dir p demand_position demand_velocity target_position
       requested_deceleration (- 1) overshoot_margin;
     expected \<leftarrow> Acceleration_from_meters_per_second_squared p 100;
     Some (result = expected)
   }"

definition triangle_motion_middle_waypoint_not_false_overshoot :: "profile \<Rightarrow> bool option" where
  "triangle_motion_middle_waypoint_not_false_overshoot p = do {
     demand_position \<leftarrow> Position_from_millimeters p 70;
     demand_velocity \<leftarrow> Velocity_from_meters_per_second p 1;
     target_position \<leftarrow> Position_from_millimeters p 75;
     requested_deceleration \<leftarrow> Acceleration_from_meters_per_second_squared p 5;
     overshoot_margin \<leftarrow> Position_from_millimeters p 2;
     result \<leftarrow> clamp_with_dir p demand_position demand_velocity target_position
       requested_deceleration 1 overshoot_margin;
     expected \<leftarrow> Acceleration_from_meters_per_second_squared p 5;
     Some (raw_a result > raw_a expected)
   }"

definition zigzag_motion_no_false_overshoot_at_intermediate :: "profile \<Rightarrow> bool option" where
  "zigzag_motion_no_false_overshoot_at_intermediate p = do {
     demand_position \<leftarrow> Position_from_millimeters p 60;
     demand_velocity \<leftarrow> Velocity_from_meters_per_second p (- 1);
     target_position \<leftarrow> Position_from_millimeters p 50;
     requested_deceleration \<leftarrow> Acceleration_from_meters_per_second_squared p 5;
     overshoot_margin \<leftarrow> Position_from_millimeters p 2;
     result \<leftarrow> clamp_with_dir p demand_position demand_velocity target_position
       requested_deceleration (- 1) overshoot_margin;
     expected \<leftarrow> Acceleration_from_meters_per_second_squared p 5;
     hard_stop_value \<leftarrow> Acceleration_from_meters_per_second_squared p 100;
     Some (raw_a result > raw_a expected \<and> raw_a result < raw_a hard_stop_value)
   }"

subsection \<open>Every test passes\<close>

lemmas drive_tests_compute = Position_from_millimeters_def
  Velocity_from_millimeters_per_second_def Velocity_from_meters_per_second_def
  Acceleration_from_meters_per_second_squared_def Acceleration_from_millimeters_per_second_squared_def
  arith_word_def arith_i32_def arith_i64_def arith_u64_def as_i64_def as_u64_def as_i32_def
  trunc_div_def as_micros_def

lemma prediction_tests_pass:
  "zero_duration_returns_original_position p = Some True"
  "constant_velocity_only p = Some True"
  "acceleration_from_rest p = Some True"
  "velocity_and_acceleration_combined p = Some True"
  "negative_velocity_and_deceleration p = Some True"
  "predict_velocity_matches_acceleration_over_duration p = Some True"
  by (simp_all add: drive_tests_compute predict_position_def predict_velocity_def
      assert_position_mm_def f64_conversions f64_computes
      zero_duration_returns_original_position_def constant_velocity_only_def
      acceleration_from_rest_def velocity_and_acceleration_combined_def
      negative_velocity_and_deceleration_def
      predict_velocity_matches_acceleration_over_duration_def)

lemma handoff_tests_pass:
  "early_handoff_keeps_previous_waypoint_clamp_until_new_leg_is_approached p = Some True"
  "clamp_reverts_to_current_leg_after_new_leg_is_approached p = Some True"
  "zero_length_next_leg_does_not_keep_fake_approach_direction p = Some True"
  by (simp_all add: drive_tests_compute cmd_def effective_clamp_target_after_handoff_def
      normalize_direction_def
      early_handoff_keeps_previous_waypoint_clamp_until_new_leg_is_approached_def
      clamp_reverts_to_current_leg_after_new_leg_is_approached_def
      zero_length_next_leg_does_not_keep_fake_approach_direction_def)

lemma clamp_tests_pass:
  "sufficient_deceleration_unchanged p = Some True"
  "insufficient_deceleration_clamped p = Some True"
  "overshoot_margin_avoids_clamp p = Some True"
  "negative_velocity_clamped p = Some True"
  "past_target_at_margin_boundary_applies_min_hard_decel p = Some True"
  "past_target_double_margin_applies_max_hard_decel p = Some True"
  "past_target_within_margin_clamped p = Some True"
  "direction_reversal_benign_without_approach_dir p = Some True"
  "direction_reversal_benign_with_approach_dir p = Some True"
  "approach_dir_prevents_false_overshoot_on_command_advance p = Some True"
  "approach_dir_detects_genuine_overshoot_in_new_direction p = Some True"
  "triangle_motion_middle_waypoint_not_false_overshoot p = Some True"
  "zigzag_motion_no_false_overshoot_at_intermediate p = Some True"
  by (simp_all add: drive_tests_compute clamp_without_dir_def clamp_with_dir_def
      clamp_deceleration_def past_target_def hard_stop_def clamp_to_budget_def sufficient_def
      div_u64_def sufficient_deceleration_unchanged_def insufficient_deceleration_clamped_def
      overshoot_margin_avoids_clamp_def negative_velocity_clamped_def
      past_target_at_margin_boundary_applies_min_hard_decel_def
      past_target_double_margin_applies_max_hard_decel_def past_target_within_margin_clamped_def
      direction_reversal_benign_without_approach_dir_def
      direction_reversal_benign_with_approach_dir_def
      approach_dir_prevents_false_overshoot_on_command_advance_def
      approach_dir_detects_genuine_overshoot_in_new_direction_def
      triangle_motion_middle_waypoint_not_false_overshoot_def
      zigzag_motion_no_false_overshoot_at_intermediate_def)

end
