(* ===== verification/HidTests.thy ===== *)
theory HidTests
  imports Hid QuantityText
begin

text \<open>
  The unit tests of \<open>src/hid.rs\<close>, run on the model: the mock device with its queues of reports,
  and one predicate for each test function.  The expected reports are the bytes the tests state,
  so the layout of the codecs is checked against them byte by byte.
\<close>

subsection \<open>The mock device\<close>

record MockHidDevice =
  input_feature_reports :: "u8 list list"
  output_reports :: "u8 list list"
  input_reports :: "u8 list list"

definition MockHidDevice_new :: MockHidDevice where
  "MockHidDevice_new = \<lparr>input_feature_reports = [], output_reports = [], input_reports = []\<rparr>"

definition add_input_feature_report :: "u8 list \<Rightarrow> MockHidDevice \<Rightarrow> MockHidDevice" where
  "add_input_feature_report report mock =
     mock\<lparr>input_feature_reports := input_feature_reports mock @ [report]\<rparr>"

definition add_input_report :: "u8 list \<Rightarrow> MockHidDevice \<Rightarrow> MockHidDevice" where
  "add_input_report report mock = mock\<lparr>input_reports := input_reports mock @ [report]\<rparr>"

text \<open>
  The report a read of the mock delivers, or nothing, which is a read of length 0; the caller's
  buffer is filled by \<open>read_into\<close>.
\<close>

definition mock_get_feature_report :: "MockHidDevice \<Rightarrow> (hid_error + u8 list) \<times> MockHidDevice" where
  "mock_get_feature_report mock =
     (case input_feature_reports mock of
        [] \<Rightarrow> (Inr [], mock)
      | report # reports \<Rightarrow> (Inr report, mock\<lparr>input_feature_reports := reports\<rparr>))"

definition mock_read_timeout :: "MockHidDevice \<Rightarrow> (hid_error + u8 list) \<times> MockHidDevice" where
  "mock_read_timeout mock =
     (case input_reports mock of
        [] \<Rightarrow> (Inr [], mock)
      | report # reports \<Rightarrow> (Inr report, mock\<lparr>input_reports := reports\<rparr>))"

definition mock_write :: "u8 list \<Rightarrow> MockHidDevice \<Rightarrow> (hid_error + nat) \<times> MockHidDevice" where
  "mock_write buf mock =
     (if length buf \<noteq> HID_REPORT_LEN then (Inl DeviceError, mock)
      else (Inr (length buf), mock\<lparr>output_reports := output_reports mock @ [buf]\<rparr>))"

text \<open>
  A routine that writes reports, run on a fresh mock: the reports the mock holds afterwards, when
  the routine returned without an error.  The mock accepts every report of the right length.
\<close>

fun mock_write_all :: "u8 list list \<Rightarrow> MockHidDevice \<Rightarrow> MockHidDevice option" where
  "mock_write_all [] mock = Some mock"
| "mock_write_all (report # reports) mock =
     (case mock_write report mock of
        (Inl e, mock) \<Rightarrow> None
      | (Inr len, mock) \<Rightarrow> mock_write_all reports mock)"

definition get_output_reports :: "((hid_error + unit) \<times> u8 list list) option \<Rightarrow> u8 list list option" where
  "get_output_reports r =
     (case r of
        Some (Inr _, reports) \<Rightarrow> map_option output_reports (mock_write_all reports MockHidDevice_new)
      | _ \<Rightarrow> None)"

text \<open>The messages of the errors that \<open>hid.rs\<close> makes itself.\<close>

fun hid_error_text :: "hid_error \<Rightarrow> string option" where
  "hid_error_text DeviceInfoTooShort = Some ''DeviceInfo feature report too short''"
| "hid_error_text (UnsupportedFirmware major minor) =
     Some (''Unsupported firmware version '' @ decimal_digits (unat major) @ ''.'' @
           decimal_digits (unat minor))"
| "hid_error_text (ScreenSpecTooLarge n) =
     Some (''ScreenSpec too large to transmit ('' @ decimal_digits n @ '' fragments)'')"
| "hid_error_text (TextLinesTooLong n) =
     Some (''TextLines too long to transmit ('' @ decimal_digits n @ '' lines)'')"
| "hid_error_text (MenuTooLong n) =
     Some (''Menu too long to transmit ('' @ decimal_digits n @ '' items)'')"
| "hid_error_text (ItemIdOutOfRange item) =
     Some (''Item ID out of range ('' @ decimal_digits (unat item) @ '' > 63)'')"
| "hid_error_text (VariableEntryTooLarge n) =
     Some (''VariableEntry too large to fit in a single report ('' @ decimal_digits n @
           '' bytes, max '' @ decimal_digits MAX_PAYLOAD @ '')'')"
| "hid_error_text (InvalidVariableIndex index) =
     Some (''Invalid variable index '' @ decimal_digits (unat index))"
| "hid_error_text (InvalidRingId ring_id) =
     Some (''Invalid ring ID '' @ decimal_digits (unat ring_id))"
| "hid_error_text InputReportTooShort = Some ''InputReport too short''"
| "hid_error_text InvalidEventSize = Some ''InputReport has invalid event size''"
| "hid_error_text _ = None"

subsection \<open>Device information\<close>

definition test_read_device_info_success :: bool where
  "test_read_device_info_success \<longleftrightarrow>
     (let report = [0x01, 0x01, 0x02, 0xAA] @ replicate (HID_REPORT_LEN - 4) 0;
          mock = add_input_feature_report report MockHidDevice_new in
      case read_device_info (fst (mock_get_feature_report mock)) of
        Inl e \<Rightarrow> False
      | Inr info \<Rightarrow> firmware_version_major info = 1 \<and> firmware_version_minor info = 2 \<and>
          features info = 0xAA)"

definition test_read_device_info_padded :: bool where
  "test_read_device_info_padded \<longleftrightarrow>
     (let report = (replicate 64 0)[0 := 0x01, 1 := 1, 2 := 2, 3 := 0xAA, 4 := 0xFF];
          mock = add_input_feature_report report MockHidDevice_new in
      case read_device_info (fst (mock_get_feature_report mock)) of
        Inl e \<Rightarrow> False
      | Inr info \<Rightarrow> firmware_version_major info = 1 \<and> firmware_version_minor info = 2 \<and>
          features info = 0xAA)"

definition test_read_device_info_too_short :: bool where
  "test_read_device_info_too_short \<longleftrightarrow>
     (let mock = add_input_feature_report [0x01, 0x01, 0x01] MockHidDevice_new in
      case read_device_info (fst (mock_get_feature_report mock)) of
        Inl e \<Rightarrow> hid_error_text e = Some ''DeviceInfo feature report too short''
      | Inr info \<Rightarrow> False)"

lemmas mock_computes = MockHidDevice_new_def add_input_feature_report_def add_input_report_def
  mock_get_feature_report_def mock_read_timeout_def mock_write_def HID_REPORT_LEN_def read_into_def
  replicate_cons Let_def

lemma device_info_tests_pass:
  "test_read_device_info_success" "test_read_device_info_padded" "test_read_device_info_too_short"
  by (simp_all add: test_read_device_info_success_def test_read_device_info_padded_def
      test_read_device_info_too_short_def read_device_info_def mock_computes)

subsection \<open>Screens\<close>

definition test_screen :: ScreenSpec where
  "test_screen =
     \<lparr>screen_id = 1,
      encoder_labels =
        (\<lparr>label_primary = ''One'', label_secondary = ''Two''\<rparr>,
         \<lparr>label_primary = ''Three'', label_secondary = ''Four''\<rparr>,
         \<lparr>label_primary = ''Five'', label_secondary = ''Six''\<rparr>,
         \<lparr>label_primary = ''Seven'', label_secondary = ''Eight''\<rparr>),
      left_main = Menu 0 ''Menu Title''
        [\<lparr>item_id = 1, item_enabled = True, item_label = ''Item 1''\<rparr>,
         \<lparr>item_id = 2, item_enabled = False, item_label = ''Item 2''\<rparr>,
         \<lparr>item_id = 3, item_enabled = True, item_label = ''Item 3''\<rparr>,
         \<lparr>item_id = 4, item_enabled = True, item_label = ''Item 4''\<rparr>],
      left_animation_type = MoveTop, left_animation_duration = 300, left_animation_delay = 0,
      right_main = TextLines 0 [''Line 1'', ''Line 2'', ''Line 3''],
      right_animation_type = MoveTop, right_animation_duration = 300, right_animation_delay = 0\<rparr>"

definition test_send_screen_update_fragmentation :: bool where
  "test_send_screen_update_fragmentation \<longleftrightarrow>
     get_output_reports (send_screen_update (\<lambda>_. True) test_screen []) =
       Some
        [[0x01, 0x01, 0x03, 0x00, 0x4F, 0x6E, 0x65, 0x00, 0x54, 0x77, 0x6F, 0x00, 0x54, 0x68,
          0x72, 0x65, 0x65, 0x00, 0x46, 0x6F, 0x75, 0x72, 0x00, 0x46, 0x69, 0x76, 0x65, 0x00,
          0x53, 0x69, 0x78, 0x00, 0x53, 0x65, 0x76, 0x65, 0x6E, 0x00, 0x45, 0x69, 0x67, 0x68,
          0x74, 0x00, 0x01, 0x00, 0x4D, 0x65, 0x6E, 0x75, 0x20, 0x54, 0x69, 0x74, 0x6C, 0x65,
          0x00, 0x04, 0x01, 0x01, 0x49, 0x74, 0x65, 0x6D],
         [0x01, 0x01, 0x03, 0x01, 0x20, 0x31, 0x00, 0x02, 0x00, 0x49, 0x74, 0x65, 0x6D, 0x20,
          0x32, 0x00, 0x03, 0x01, 0x49, 0x74, 0x65, 0x6D, 0x20, 0x33, 0x00, 0x04, 0x01, 0x49,
          0x74, 0x65, 0x6D, 0x20, 0x34, 0x00, 0x07, 0x2C, 0x01, 0x00, 0x00, 0x00, 0x00, 0x03,
          0x4C, 0x69, 0x6E, 0x65, 0x20, 0x31, 0x00, 0x4C, 0x69, 0x6E, 0x65, 0x20, 0x32, 0x00,
          0x4C, 0x69, 0x6E, 0x65, 0x20, 0x33, 0x00, 0x07],
         [0x01, 0x01, 0x03, 0x02, 0x2C, 0x01, 0x00, 0x00, 0x00, 0x00, 0x00, 0x00, 0x00, 0x00,
          0x00, 0x00, 0x00, 0x00, 0x00, 0x00, 0x00, 0x00, 0x00, 0x00, 0x00, 0x00, 0x00, 0x00,
          0x00, 0x00, 0x00, 0x00, 0x00, 0x00, 0x00, 0x00, 0x00, 0x00, 0x00, 0x00, 0x00, 0x00,
          0x00, 0x00, 0x00, 0x00, 0x00, 0x00, 0x00, 0x00, 0x00, 0x00, 0x00, 0x00, 0x00, 0x00,
          0x00, 0x00, 0x00, 0x00, 0x00, 0x00, 0x00, 0x00]]"

lemma screen_test_passes: test_send_screen_update_fragmentation
  by (simp add: test_send_screen_update_fragmentation_def test_screen_def send_screen_update_def
      ScreenSpec_encode_def encode_area_def encode_label_def as_bytes_with_nul_def
      PAYLOAD_PER_FRAGMENT_def HEADER_LEN_def fragment_def set_byte_def copy_from_slice_def
      device_write_def get_output_reports_def mock_computes to_le_bytes_def upt_conv_Cons)

subsection \<open>Variables\<close>

definition test_send_variable_updates :: "profile \<Rightarrow> bool" where
  "test_send_variable_updates p \<longleftrightarrow>
     get_output_reports (send_variable_updates p (\<lambda>_. True)
         [FixedPoint 5 2 1234, ShortString 12 ''Hello'', HardwareControlEntry (SleepLevel True),
          HardwareControlEntry (LedRingValue 2 200)] []) =
       Some
        [[0x02, 0x04, 0x05, 0x02, 0xD2, 0x04, 0x2C, 0x48, 0x65, 0x6C, 0x6C, 0x6F, 0x00, 0x65,
          0x01, 0x62, 0xC8, 0x00, 0x00, 0x00, 0x00, 0x00, 0x00, 0x00, 0x00, 0x00, 0x00, 0x00,
          0x00, 0x00, 0x00, 0x00, 0x00, 0x00, 0x00, 0x00, 0x00, 0x00, 0x00, 0x00, 0x00, 0x00,
          0x00, 0x00, 0x00, 0x00, 0x00, 0x00, 0x00, 0x00, 0x00, 0x00, 0x00, 0x00, 0x00, 0x00,
          0x00, 0x00, 0x00, 0x00, 0x00, 0x00, 0x00, 0x00]]"

definition test_long_variable_updates :: "profile \<Rightarrow> bool" where
  "test_long_variable_updates p \<longleftrightarrow>
     (case get_output_reports (send_variable_updates p (\<lambda>_. True)
         [ShortString 0 ''Long string that uses nearly a whole report'',
          ShortString 1 ''Long string that uses nearly a whole report'',
          ShortString 2 ''Long string that uses nearly a whole report''] []) of
        None \<Rightarrow> False
      | Some reports \<Rightarrow> length reports = 3)"

definition test_too_long_variable_updates :: "profile \<Rightarrow> bool" where
  "test_too_long_variable_updates p \<longleftrightarrow>
     (case send_variable_updates p (\<lambda>_. True)
         [ShortString 0
            ''Even longer longer longer string that is longer than a report can store''] [] of
        Some (Inl e, _) \<Rightarrow> hid_error_text e =
          Some ''VariableEntry too large to fit in a single report (73 bytes, max 62)''
      | _ \<Rightarrow> False)"

lemmas variables_compute = send_variable_updates_def VARIABLES_HEADER_LEN_def MAX_PAYLOAD_def
  flush_report_def next_count_def set_byte_def copy_from_slice_def device_write_def
  as_bytes_with_nul_def to_le_bytes_def upt_conv_Cons get_output_reports_def mock_computes

lemma variable_tests_pass:
  "test_send_variable_updates p" "test_long_variable_updates p" "test_too_long_variable_updates p"
  by (simp_all add: test_send_variable_updates_def test_long_variable_updates_def
      test_too_long_variable_updates_def decimal_digits.simps digit_char_def variables_compute)

subsection \<open>Input reports\<close>

definition test_read_input_report_events :: bool where
  "test_read_input_report_events \<longleftrightarrow>
     (let report = (replicate 11 0)[0 := 0x01, 1 := 42, 6 := 2, 7 := 0x04, 8 := 0x45, 9 := 0x05,
            10 := 0x00];
          mock = add_input_report report MockHidDevice_new in
      case read_input_report (fst (mock_read_timeout mock)) of
        Inr (Some input) \<Rightarrow>
          ir_active_screen_id input = 42 \<and> length (ir_events input) = 2 \<and>
          (case ir_events input ! 0 of
             MenuSelect display item \<Rightarrow> display = 1 \<and> item = 5 | _ \<Rightarrow> False) \<and>
          (case ir_events input ! 1 of MenuCancel display_id \<Rightarrow> display_id = 0 | _ \<Rightarrow> False)
      | _ \<Rightarrow> False)"

definition test_read_input_report_padded :: bool where
  "test_read_input_report_padded \<longleftrightarrow>
     (let report = (replicate 64 0)[0 := 0x01, 1 := 7, 2 := 1, 3 := - 2, 4 := 3, 5 := - 4, 6 := 1,
            7 := 0, 8 := 0];
          mock = add_input_report report MockHidDevice_new in
      case read_input_report (fst (mock_read_timeout mock)) of
        Inr (Some input) \<Rightarrow>
          ir_active_screen_id input = 7 \<and> ir_encoder_deltas input = (1, - 2, 3, - 4) \<and>
          length (ir_events input) = 1
      | _ \<Rightarrow> False)"

definition test_read_input_report_too_short :: bool where
  "test_read_input_report_too_short \<longleftrightarrow>
     (let report = (replicate 64 0)[0 := 0x01, 6 := 100];
          mock = add_input_report report MockHidDevice_new in
      case read_input_report (fst (mock_read_timeout mock)) of
        Inl e \<Rightarrow> hid_error_text e = Some ''InputReport has invalid event size''
      | _ \<Rightarrow> False)"

lemma input_report_tests_pass:
  "test_read_input_report_events" "test_read_input_report_padded"
  "test_read_input_report_too_short"
  by (simp_all add: test_read_input_report_events_def test_read_input_report_padded_def
      test_read_input_report_too_short_def read_input_report_def HidInputEvent_from_raw_def
      List.map_filter_def upt_conv_Cons mock_computes)

end
