(* ===== verification/ServerTests.thy ===== *)
theory ServerTests
  imports WebSocketServer
begin

text \<open>
  A test of \<open>src/websocket.rs\<close>, run on the model: a browser connects and drops its socket without
  closing it.  How often the handshake is interrupted depends on the network, so it is an argument,
  and the test passes for every value of it.
\<close>

text \<open>The polls while a client connects, and the one that finds its socket dropped.\<close>

definition connecting_polls :: "nat \<Rightarrow> nat \<Rightarrow> poll_event option list" where
  "connecting_polls token interruptions =
     (if interruptions = 0
      then [Some ((example_poll SERVER)\<lparr>pe_streams := [(True, HandshakeDone)]\<rparr>)]
      else Some ((example_poll SERVER)\<lparr>pe_streams := [(True, HandshakeInterrupted)]\<rparr>) #
        replicate (interruptions - 1) (Some ((example_poll token)\<lparr>pe_handshake := HandshakeInterrupted\<rparr>)) @
        [Some (example_poll token)])"

definition dropped_poll :: "nat \<Rightarrow> poll_event option" where
  "dropped_poll token = Some ((example_poll token)\<lparr>pe_read_end := ReadError\<rparr>)"

definition test_websocket_tcp_close :: "nat \<Rightarrow> bool" where
  "test_websocket_tcp_close interruptions \<longleftrightarrow>
     (case run_event_loop example_ws_env (connecting_polls 2 interruptions @ [dropped_poll 2]) server_start of
        (Inr _, s) \<Rightarrow>
          (case ws_inbound s of
             [ControllerConnected (WebSocket token), ControllerDisconnected (WebSocket t)] \<Rightarrow> t = token
           | _ \<Rightarrow> False)
      | _ \<Rightarrow> False)"

lemmas server_test_computes = handle_poll_event_def handle_client_event_def process_client_def
  example_poll_def example_ws_env_def server_start_def notify_def put_client_def SERVER_def WAKER_def

lemma interrupted_polls:
  assumes "ws_clients s 2 = Some ClientHandshaking"
  shows "run_event_loop example_ws_env
      (replicate n (Some ((example_poll 2)\<lparr>pe_handshake := HandshakeInterrupted\<rparr>)) @ polls) s =
    run_event_loop example_ws_env polls s"
proof (induction n)
  case (Suc n)
  have "put_client 2 (Some ClientHandshaking) (put_client 2 None s) = s"
    using assms by (cases s) (auto simp: put_client_def)
  with Suc assms show ?case
    by (simp add: handle_poll_event_def handle_client_event_def process_client_def example_poll_def
        SERVER_def WAKER_def)
qed simp

lemma tcp_close_test_passes: "test_websocket_tcp_close interruptions"
proof (cases interruptions)
  case 0
  then show ?thesis
    by (simp add: test_websocket_tcp_close_def connecting_polls_def dropped_poll_def server_test_computes)
next
  case (Suc n)
  let ?s = "server_start\<lparr>ws_clients := [2 \<mapsto> ClientHandshaking], ws_next_token := 3\<rparr>"
  have "run_event_loop example_ws_env (connecting_polls 2 interruptions @ [dropped_poll 2]) server_start =
      run_event_loop example_ws_env
        (replicate n (Some ((example_poll 2)\<lparr>pe_handshake := HandshakeInterrupted\<rparr>)) @
          [Some (example_poll 2), dropped_poll 2]) ?s"
    by (simp add: Suc connecting_polls_def server_test_computes)
  also have "\<dots> = run_event_loop example_ws_env [Some (example_poll 2), dropped_poll 2] ?s"
    by (rule interrupted_polls) simp
  finally show ?thesis
    by (simp add: test_websocket_tcp_close_def dropped_poll_def server_test_computes)
qed

end
