(* ===== verification/Spec2Isabelle.thy ===== *)
theory Spec2Isabelle
  imports Startup DriveThread HidThread TerminalMirror TerminalDrawing HwmonStats ActionDelivery
    FeedbackDelivery StaleStart DeviceDisplay LinmotTests DriveTests HidTests ServerTests
begin

text \<open>
  Puddle drives a LinMot linear servo: browsers and a handheld controller edit a list of motion
  commands, and the program makes the drive move along it.  It consists of threads that talk
  over channels and share one small structure with the drive thread:

  \<^item> the core (\<open>src/src/main.rs\<close>) processes one event at a time; it owns the write access, the
    active command set, the saved sets, and decides power and motion;
  \<^item> the drive thread (\<open>src/src/drive.rs\<close>) exchanges a datagram with the drive every few
    milliseconds, over the library \<open>src/linmot\<close>, and reports what it learns to the core;
  \<^item> the WebSocket server (\<open>src/src/websocket.rs\<close>) and the HID thread (\<open>src/src/hid.rs\<close>) turn what
    their connections deliver into events of the core, and deliver the core's messages;
  \<^item> the user interface of the handheld controller (\<open>src/src/hid/ui_manager.rs\<close>) runs in the core's
    thread and behaves like one more client;
  \<^item> the terminal client (\<open>src/src/bin/puddle-cli.rs\<close>) is a program of its own, a client of the WebSocket
    server; a further thread stores a record of each cycle in a database (\<open>src/src/metrics.rs\<close>), and
    another program samples the sensors of the host (\<open>src/src/bin/puddle-rpi-stats.rs\<close>).

  \<^bold>\<open>Theories.\<close>  \<open>Prelude\<close>: integers at their Rust width, the two build profiles, results.
  \<open>Wire\<close>: reader and writer of \<open>linmot/src/udp\<close>, with the traits \<open>WireRead\<close> and \<open>WireWrite\<close> as
  locales.  \<open>Units\<close>, \<open>Mci\<close>, \<open>Commands\<close>, \<open>Udp\<close>: quantities, flag words, states, motion commands
  and datagrams of \<open>linmot\<close>, each with the drive's reading of it.  \<open>Messages\<close>: the shared types
  (\<open>lib.rs\<close>, \<open>messages.rs\<close>).  \<open>Motion\<close>: prediction and the clamped deceleration; \<open>Drive\<close>: the loop,
  its state \<open>connection\<close>, and the connection manager (\<open>drive.rs\<close>), with its properties in
  \<open>DriveLoop\<close>.  \<open>HidMessages\<close> and \<open>UiManager\<close> (\<open>hid/messages.rs\<close>, \<open>hid/ui_manager.rs\<close>), properties
  in \<open>UiBehaviour\<close>.  \<open>Core\<close>: \<open>CoreManager\<close> with one definition per message and event (\<open>main.rs\<close>); its
  specification and the contract of its invariants in \<open>CoreSpec\<close>, what it lets reach the drive in
  \<open>CoreSafety\<close>, what it does for its clients in \<open>CoreService\<close>.  \<open>Hid\<close>: codecs and I/O thread (\<open>hid.rs\<close>),
  properties in \<open>HidScreens\<close> and \<open>HidReports\<close>.  \<open>WebSocketServer\<close>: the poll loop and its table of
  clients (\<open>websocket.rs\<close>).  \<open>Metrics\<close>: the record of a cycle, its row in the database, and the
  thread that buffers, sends and reconnects (\<open>metrics.rs\<close>).  \<open>System\<close>: the composition of core and
  drive thread with whole events and cycles as steps; \<open>Interleaving\<close>: the same with the interleaving
  of the code, which the properties of this theory are about; \<open>ActionDelivery\<close>: the way of an action
  bit through it; \<open>FeedbackDelivery\<close>: the way of the drive's answer to the browsers;
  \<open>StaleStart\<close>: a start that waits for the power.  \<open>DeviceDisplay\<close>: what the handheld controller
  shows, over runs of the core.  \<open>DriveThread\<close>: the timed loop around the cycles and its log;
  \<open>HidThread\<close>: the loop that finds and serves the handheld controller.  \<open>Float64\<close>: Rust's \<open>f64\<close> and its
  rounding; on it \<open>Conversions\<close>, the unit conversions from larger units, and \<open>QuantityText\<close>, the debug
  texts of the quantities (\<open>units.rs\<close>).  \<open>Startup\<close>: the options and what \<open>main\<close> makes of them.  \<open>TerminalClient\<close>: the terminal
  client; \<open>TerminalDrawing\<close>: what it draws; \<open>TerminalMirror\<close>: it together with the core.
  \<open>HwmonStats\<close>: the statistics of the host.  \<open>LinmotTests\<close>, \<open>DriveTests\<close>, \<open>HidTests\<close>, \<open>ServerTests\<close>: the
  program's own unit tests, each test function a definition that is proved to pass on the model.
  Structs are records with a prefix per type (\<open>c_\<close> connection, \<open>cm_\<close> core, \<open>ws_\<close> server), methods
  keep their names, and a handler that is one long match is one definition per arm.

  \<^bold>\<open>Conventions.\<close>  State is passed explicitly.  A \<open>Result\<close> is a sum; a panic is \<open>None\<close>, or the
  error \<open>Panic\<close> in the core, where what happened before it is kept.  What a socket, the clock, a
  channel, a mutex, a \<open>HashMap\<close> iteration or the JSON library returns is an argument of the step.
  A channel whose receiver may be gone is a function from what was sent before to whether the next
  send succeeds.  The recursions are structural, over the list of things a loop processes, so no
  fuel is needed; that the core and the drive loop go on is proved (\<open>core_keeps_running\<close>,
  \<open>drive_thread_goes_on\<close>), in the bounds their statements name.

  \<^bold>\<open>What the lemmas show.\<close>  For the drive: requests and responses survive the wire exactly; the
  deceleration sent is sufficient, or the largest there is, and least, except on the target, where the
  requested one is kept, and past the margin, where the hard stop takes over
  (\<open>clamp_deceleration_stops_in_time\<close>, \<open>clamp_deceleration_minimal\<close>); a cycle stages nothing for a drive that is not powered
  and homed; predictions are accurate to a unit or two and do not overflow.  For the core: it
  refines a specification \<open>plan\<close> of one state change and a list of messages (\<open>messages_commit_first\<close>),
  over which its invariants are proved once, in the locale \<open>core_invariant\<close>; what it publishes is
  within the limits; only the controller with write access changes what the drive sees; every
  request gets one reply; a replacement based on a stale version is refused.  For the handheld
  controller: what it edits is what the core has (\<open>hid_edits_active_set\<close>), a device that has received a
  screen and the updates after it shows the current values (\<open>variables_reach_device\<close>), and screens, variables and reports survive the
  USB packing.  For the WebSocket server: the core learns of every connection in the order of its
  life, the reply to a request is written to its socket, and every browser is shown what the drive
  answered (\<open>request_answered_on_socket\<close>, \<open>drive_state_reaches_browsers\<close>).  For the composition, in this theory:
  no interleaving lets a datagram leave the limits (\<open>datagrams_within_limits\<close>), which are those of the
  command line (\<open>options_give_limits\<close>, \<open>program_respects_options\<close>); a writer that
  disconnects switches the drive off (\<open>disconnect_switches_drive_off\<close>), no writer can vanish
  unnoticed (\<open>writer_is_connected\<close>, \<open>handheld_writer_is_connected\<close>), the
  acknowledgement of an error is sent to the drive or dropped for one of three stated reasons
  (\<open>acknowledge_reaches_drive\<close>), the drive thread goes on as long as the drive answers, whatever
  the controllers send (\<open>drive_thread_goes_on\<close>), and the drive is told to move along the published
  commands when it is powered, homed and started (\<open>motion_reaches_drive\<close>); its cycles start at least
  an interval apart (\<open>cycles_spaced\<close>).  For the metrics: no
  record is lost as long as connecting and flushing succeed at some point and the library accepts the
  name of the table (\<open>metrics_not_lost\<close>).  For
  the terminal client: it shows the active command set (\<open>terminal_shows_active\<close>), and still does after
  its own edits, for which it gets no announcement (\<open>terminal_edit_in_step\<close>); drawing a frame never
  panics (\<open>drawing_never_panics\<close>).

  \<^bold>\<open>What the model found.\<close>  A start is accepted on a stale paused state after the power was cut,
  and takes effect with the next power-on (\<open>start_after_power_off\<close>); a saved set that is recreated
  reuses its version (\<open>saved_version_reused\<close>); three warnings do not fit a report and end the device
  loop (\<open>long_warnings_end_connection\<close>); a failing accept ends the server and then the program
  (\<open>accept_error_ends_server\<close>); past the margin the clamped deceleration can be below the requested
  one, and on the target an insufficient one is kept (\<open>clamp_deceleration_can_lower\<close>,
  \<open>clamp_deceleration_on_target\<close>); a cycle that falls between the two parts of a start moves the drive on
  towards the command that was active before (\<open>torn_start\<close>); the unit conversions truncate, so that 4.1 m/s or 0.57 mm loses a
  unit (\<open>conversion_truncates\<close>); a negative limit is accepted and ends the core with the first commands
  (\<open>negative_limit_ends_core\<close>); a value dialog of the terminal client is applied to its display after the
  write access was lost (\<open>dialog_outlives_access\<close>); a reply without a status word loses an acknowledgement
  (\<open>stateless_reply_drops_acknowledgement\<close>); with a table name the database library refuses, every record is
  dropped (\<open>refused_table_loses_all\<close>); a second request to restart the handheld controller is taken for an
  unchanged variable (\<open>reset_sent_once\<close>).

  \<^bold>\<open>Granularity.\<close>  In \<open>Interleaving\<close> the core and the drive thread interleave at what they share: the
  core takes the command lock once for each message it handles, sets the action bits of the message
  in a step of its own, and handles the messages of an input report one by one; a cycle of the drive
  thread takes the action bits in one step and the lock in a later one.  A run of \<open>System\<close> is such a run
  (\<open>atomic_runs_are_interleavings\<close>).  A poll event of the server and a key of the terminal are atomic:
  they share nothing but channels.

  \<^bold>\<open>Not modelled.\<close>  The parsing of the option texts (clap) and the spawning of the threads: calls
  of a library; their values and the loops the threads run are modelled.  How a layout splits an area
  and what a widget looks like (ratatui).  The serde and ts-rs derives, which are generated.  Logging
  (but for the change of the drive's state) and thread priorities.  Of the tests: the round trip of
  \<open>serde_test\<close> over the derives, and \<open>test_websocket_connection_close\<close>, whose assertions are about the
  client side of \<open>tungstenite\<close>.
\<close>

section \<open>Properties of the whole system\<close>

text \<open>
  C1: whatever the controllers, the drive and the network do, in every interleaving of the core
  with the drive thread, also in the middle of an event or a cycle, every datagram sent to the drive
  can be decoded by it, and the motion command it carries, if any, is a stop or a move whose
  position, velocity and acceleration are within the configured limits.
\<close>

theorem datagrams_within_limits:
  assumes "(interleaved_step cfg)\<^sup>*\<^sup>* (interleaved_start limits hid_io ws) s"
  shows "list_all (datagram_allowed limits) (il_datagrams s)"
  by (rule interleaved_reachable(4) [OF assms])

theorem datagrams_within_limits_witness:
  "\<exists>s. (interleaved_step example_config)\<^sup>*\<^sup>* (interleaved_start example_limits True True) s \<and>
    il_datagrams s = [request_bytes Request_default] \<and>
    list_all (datagram_allowed example_limits) (il_datagrams s)"
  using datagrams_within_limits example_connected by blast

text \<open>
  C3: when the controller with write access disconnects, then from the next cycle of the drive
  thread that finds the lock free, and in every interleaving until the core switches the power on
  again, no datagram carries a motion command or sets the switch-on bit, even across reconnections.
\<close>

theorem disconnect_switches_drive_off:
  assumes "(interleaved_step cfg)\<^sup>*\<^sup>* (interleaved_start limits hid_io ws) s" "core_idle s"
    and "handle_event env (ControllerDisconnected c) (with_actions 0 (il_core s)) = (Inr (), cm)"
    and "holder (il_core s) = Some c"
    and "(unpowered_interleaving cfg)\<^sup>*\<^sup>* (core_publishes cm s) t"
    and "il_cycle t = Some mid" "loop_end p True (shared_commands (il_core t)) mid = Some conn"
    and "(unpowered_interleaving cfg)\<^sup>*\<^sup>*
      (t\<lparr>il_cycle := None, il_manager := (il_manager t)\<lparr>mgr_connection := Some conn\<rparr>\<rparr>) u"
  shows "\<exists>new. il_datagrams u = il_datagrams t @ new \<and> list_all datagram_unpowered new"
proof -
  have "interleaved_step cfg s (core_publishes cm s)"
    using core_handles [OF assms(2) _ assms(3)] by simp
  with assms(1) unpowered_interleaving_run(1) [OF assms(5)]
  have reached: "(interleaved_step cfg)\<^sup>*\<^sup>* (interleaved_start limits hid_io ws) t"
    by (meson rtranclp.rtrancl_into_rtrancl rtranclp_trans)
  have "\<not> dc_power_enabled (shared_commands cm)"
    using disconnect_cuts_power [OF assms(3)] assms(4) by (simp add: shared_commands_def)
  then have "\<not> dc_power_enabled (shared_commands (il_core t))"
    using unpowered_interleaving_run(2) [OF assms(5)] by simp
  from interleaved_unpowered [OF reached this assms(6-8)] show ?thesis .
qed

theorem disconnect_switches_drive_off_witness:
  "\<exists>cm t mid conn u. handle_event example_env (ControllerDisconnected (WebSocket 3)) (with_actions 0 example_held) =
      (Inr (), cm) \<and>
    (unpowered_interleaving example_config)\<^sup>*\<^sup>* (core_publishes cm (settled example_held_system)) t \<and>
    il_cycle t = Some mid \<and> loop_end Debug True (shared_commands (il_core t)) mid = Some conn \<and>
    (unpowered_interleaving example_config)\<^sup>*\<^sup>*
      (t\<lparr>il_cycle := None, il_manager := (il_manager t)\<lparr>mgr_connection := Some conn\<rparr>\<rparr>) u \<and>
    (\<exists>dg new. il_datagrams u = il_datagrams t @ dg # new \<and> list_all datagram_unpowered (dg # new))"
proof -
  obtain cm t mid conn u dg where
    run: "handle_event example_env (ControllerDisconnected (WebSocket 3)) (with_actions 0 example_held) = (Inr (), cm)"
      "(unpowered_interleaving example_config)\<^sup>*\<^sup>* (core_publishes cm (settled example_held_system)) t"
      "il_cycle t = Some mid" "loop_end Debug True (shared_commands (il_core t)) mid = Some conn"
      "(unpowered_interleaving example_config)\<^sup>*\<^sup>*
        (t\<lparr>il_cycle := None, il_manager := (il_manager t)\<lparr>mgr_connection := Some conn\<rparr>\<rparr>) u"
    and sent: "il_datagrams u = il_datagrams t @ [dg]"
    using example_switched_off by blast
  have "core_idle (settled example_held_system)" "il_core (settled example_held_system) = example_held"
    "holder example_held = Some (WebSocket 3)"
    using example_held(2) by (simp_all add: core_idle_def settled_def example_held_system_def)
  with disconnect_switches_drive_off [OF example_held_reached _ _ _ run(2-5)] run sent
  show ?thesis by fastforce
qed

text \<open>
  C10: in every reachable state of the system a drive that answers keeps the drive thread going:
  with limits below 107 m and a configuration like the default one, a cycle neither fails nor
  panics, in either build profile and for any timing of the lock, and sends its datagram,
  whatever commands the controllers have sent before it or send while it runs.
\<close>

theorem drive_thread_goes_on:
  assumes "(interleaved_step cfg)\<^sup>*\<^sup>* (interleaved_start limits hid_io ws) s"
    and "config_ok cfg" "raw_p (limit_position limits) \<le> 1073741823"
    and "mgr_connection (il_manager s) = Some c"
    and "drive_answers env rsp" "env_core_alive (me_cycle env)"
    and "(interleaved_step cfg)\<^sup>*\<^sup>* s t"
  shows "\<exists>ef mid c'. loop_begin (me_cycle env) (pending_actions (il_core s)) c = (ef, 0, Inr mid) \<and>
    ef_sent ef = Some (request_bytes (request_of c)) \<and> loop_end p free (shared_commands (il_core t)) mid = Some c'"
proof -
  have "connection_live cfg c"
    using interleaved_live(1) [OF assms(1-3)] assms(4) by simp
  moreover have "sane_commands (dc_commands (shared_commands (il_core t)))"
    using shared_sane [OF interleaved_reachable(1) assms(3)] assms(1,7) rtranclp_trans by metis
  ultimately show ?thesis
    using torn_cycle_answered [OF _ assms(5,6)] by blast
qed

theorem drive_thread_goes_on_witness:
  "\<exists>s c ef mid c'. (interleaved_step example_config)\<^sup>*\<^sup>* (interleaved_start example_limits True True) s \<and>
    mgr_connection (il_manager s) = Some c \<and>
    loop_begin (me_cycle example_manager_env) (pending_actions (il_core s)) c = (ef, 0, Inr mid) \<and>
    ef_sent ef = Some (request_bytes (request_of c)) \<and>
    loop_end Debug False (shared_commands (il_core s)) mid = Some c'"
proof -
  obtain s c where s: "(interleaved_step example_config)\<^sup>*\<^sup>* (interleaved_start example_limits True True) s"
    "mgr_connection (il_manager s) = Some c"
    using example_connected by blast
  from drive_thread_goes_on [OF s(1) example_config_ok example_limits_small s(2) example_drive_answers(1,2)
      rtranclp.rtrancl_refl] s
  show ?thesis by blast
qed

text \<open>
  C9: the drive moves when it is told to: when a cycle that finds the lock free ends with power and
  motion enabled and commands published, and the drive answered in it that it is homed and accepts
  commands, then the next datagram commands a move to one of the published waypoints, under the
  successor of the drive's toggle count, with a deceleration that the clamp computed from the one
  that was asked for.
\<close>

theorem motion_reaches_drive:
  assumes "(interleaved_step cfg)\<^sup>*\<^sup>* (interleaved_start limits hid_io ws) s"
    and "config_ok cfg" "raw_p (limit_position limits) \<le> 1073741823"
    and "il_cycle s = Some mid" "loop_end p True (shared_commands (il_core s)) mid = Some c"
    and "dc_power_enabled (shared_commands (il_core s))" "dc_motion_enabled (shared_commands (il_core s))"
    and "dc_commands (shared_commands (il_core s)) \<noteq> []"
    and "Response_state (c_last_response mid) = Some (OperationEnabled n eh active inpos True)"
    and "rsp_demand_position (c_last_response mid) = Some pos"
    and "rsp_monitoring_channel (c_last_response mid) = Some (vel, rest)"
    and "loop_begin env pending c = (ef, pending', r)" "ef_sent ef = Some dg"
  shows "\<exists>req cmd d target dir. drive_request dg = Some req \<and>
    cmd \<in> set (dc_commands (shared_commands (il_core s))) \<and>
    req_motion_command req = Some \<lparr>mci_count = (n + 1) AND 0xF,
      mci_command = VaiGoToPos (position cmd) (velocity cmd) (acceleration cmd) d\<rparr> \<and>
    target \<in> position ` set (dc_commands (shared_commands (il_core s))) \<and>
    clamp_deceleration p pos (Velocity vel) target (deceleration cmd) dir (cfg_overshoot_margin cfg)
      (cfg_hard_deceleration_min cfg) (cfg_hard_deceleration_max cfg) = Some d"
proof -
  have "length (c_buffer c) = BUFFER_SIZE"
    using interleaved_moves [OF assms(1-11)] by blast
  from loop_begin_sent [OF assms(12,13) this] interleaved_moves [OF assms(1-11)] obtain cmd d target dir where
    "drive_request dg = Some (on_the_wire (request_of c))"
    "cmd \<in> set (dc_commands (shared_commands (il_core s)))"
    "c_next_motion_command c = Some \<lparr>mci_count = (n + 1) AND 0xF,
      mci_command = VaiGoToPos (position cmd) (velocity cmd) (acceleration cmd) d\<rparr>"
    "target \<in> position ` set (dc_commands (shared_commands (il_core s)))"
    "clamp_deceleration p pos (Velocity vel) target (deceleration cmd) dir (cfg_overshoot_margin cfg)
      (cfg_hard_deceleration_min cfg) (cfg_hard_deceleration_max cfg) = Some d"
    by blast
  then show ?thesis
    by (intro exI [of _ "on_the_wire (request_of c)"] exI [of _ cmd] exI [of _ d] exI [of _ target]
        exI [of _ dir]) (simp add: on_the_wire_request_of and.assoc)
qed

theorem motion_reaches_drive_witness:
  "\<exists>s mid c ef r dg req cmd d target dir.
     (interleaved_step example_config)\<^sup>*\<^sup>* (interleaved_start example_limits True True) s \<and>
     il_cycle s = Some mid \<and> loop_end Debug True (shared_commands (il_core s)) mid = Some c \<and>
     loop_begin (me_cycle example_manager_env) 0 c = (ef, 0, r) \<and> ef_sent ef = Some dg \<and>
     drive_request dg = Some req \<and> cmd \<in> set (dc_commands (shared_commands (il_core s))) \<and>
     req_motion_command req = Some \<lparr>mci_count = (5 + 1) AND 0xF,
       mci_command = VaiGoToPos (position cmd) (velocity cmd) (acceleration cmd) d\<rparr> \<and>
     target \<in> position ` set (dc_commands (shared_commands (il_core s))) \<and>
     clamp_deceleration Debug (Position 70000) (Velocity 0) target (deceleration cmd) dir
       (cfg_overshoot_margin example_config) (cfg_hard_deceleration_min example_config)
       (cfg_hard_deceleration_max example_config) = Some d"
proof -
  obtain s mid c where s: "(interleaved_step example_config)\<^sup>*\<^sup>* (interleaved_start example_limits True True) s"
      "il_cycle s = Some mid" "loop_end Debug True (shared_commands (il_core s)) mid = Some c"
    and on: "dc_power_enabled (shared_commands (il_core s))" "dc_motion_enabled (shared_commands (il_core s))"
      "dc_commands (shared_commands (il_core s)) \<noteq> []"
    and answer: "c_last_response mid = example_answer" and live: "connection_live example_config c"
    using example_moving by blast
  obtain ef mid2 where again: "loop_begin (me_cycle example_manager_env) 0 c = (ef, 0, Inr mid2)"
    "ef_sent ef = Some (request_bytes (request_of c))"
    using torn_cycle_answered [OF live example_drive_answers(1,2)] by blast
  from motion_reaches_drive [OF s(1) example_config_ok example_limits_small s(2,3) on
      example_drive_state [folded answer] again] s again
  show ?thesis by blast
qed

text \<open>
  C12: there is no ghost writer: when the core has processed what the WebSocket server told it, up
  to some events that are still pending, and a browser has the write access, then its connection
  is in the table of connected clients, or the event that takes the write access away and cuts the
  power is among those that are pending.
\<close>

theorem writer_is_connected:
  assumes "run_event_loop ws_env polls server_start = (r, s)" "receiving ws_env" "iterates_clients ws_env"
    and "run_core evs (CoreManager_new limits hid_io ws) = (Inr (), cm)"
    and "ws_inbound s = filter from_websocket (map snd evs) @ pending"
    and "holder cm = Some (WebSocket t)"
  shows "ws_clients s t = Some ClientConnected \<or> ControllerDisconnected (WebSocket t) \<in> set pending"
proof (rule disjCI)
  assume pending: "ControllerDisconnected (WebSocket t) \<notin> set pending"
  have "holder (CoreManager_new limits hid_io ws) = None"
    by (simp add: holder_def CoreManager_new_def CoreState_default_def)
  with run_holder [OF assms(4,6)] obtain pre m post where
    own: "map snd evs = pre @ Message (WebSocket t) m # post"
      "ControllerDisconnected (WebSocket t) \<notin> set post"
    by auto
  let ?pre = "filter from_websocket pre" and ?post = "filter from_websocket post @ pending"
  have inbound: "ws_inbound s = ?pre @ Message (WebSocket t) m # ?post"
    by (simp add: assms(5) own(1) from_websocket_def)
  have agrees: "agrees (ws_clients s t) (session t (ws_inbound s))"
    using tracked_session [OF server_reachable [OF assms(1-3)]] .
  then have "session t (ws_inbound s) \<noteq> None"
    by (cases "(ws_clients s t, session t (ws_inbound s))" rule: agrees.cases) auto
  then have "session t (ws_inbound s) = Some Open"
    using session_open_after_message [of t ?pre m ?post] own(2) pending by (simp add: inbound)
  with agrees show "ws_clients s t = Some ClientConnected"
    by (cases "(ws_clients s t, session t (ws_inbound s))" rule: agrees.cases) auto
qed

theorem writer_is_connected_witness:
  "\<exists>cm. run_core [(example_env, ControllerConnected (WebSocket 2)),
       (example_env, Message (WebSocket 2) (RequestWriteAccess 1))]
       (CoreManager_new example_limits True True) = (Inr (), cm) \<and>
     holder cm = Some (WebSocket 2) \<and>
     (ws_clients example_server 2 = Some ClientConnected \<or>
      ControllerDisconnected (WebSocket 2) \<in> set [])"
proof -
  let ?evs = "[(example_env, ControllerConnected (WebSocket 2)),
    (example_env, Message (WebSocket 2) (RequestWriteAccess 1))]"
  obtain cm where run: "run_core ?evs (CoreManager_new example_limits True True) = (Inr (), cm)"
    and held: "holder cm = Some (WebSocket 2)"
    by (simp add: run_defs)
  have "ws_inbound example_server = filter from_websocket (map snd ?evs) @ []"
    by (simp add: example_server_def from_websocket_def)
  from writer_is_connected [OF example_polls example_ws_env(1,2) run this held] run held
  show ?thesis by blast
qed

text \<open>
  C2: started with options that make sense, the program stays within them: in every state it can
  reach, every datagram sent to the drive is a request the drive can decode, and a move in it goes
  to a position between 0 and the stroke limit, with at most the velocity and acceleration that the
  options allow, in millimetres and seconds, up to a thousandth of a raw unit.
\<close>

theorem program_respects_options:
  assumes "main_start hid_ok ws_ok options = Inr (cfg, s0)" "options_ok options"
    and "(interleaved_step cfg)\<^sup>*\<^sup>* (settled s0) s"
  shows "list_all (datagram_respects options) (il_datagrams s)"
proof -
  from main_start_system [OF assms(1)] assms(3)
  have "list_all (datagram_allowed (main_limits options)) (il_datagrams s)"
    using interleaved_reachable(4) [of cfg "main_limits options"] by (auto simp: settled_start)
  then show ?thesis
    by (rule list.pred_mono_strong) (rule datagram_allowed_respects [OF assms(2)])
qed

theorem program_respects_options_witness:
  "\<exists>s. main_start True True (Options_default ''drive'' True True) =
      Inr (example_config, system_start example_limits True True) \<and>
    (interleaved_step example_config)\<^sup>*\<^sup>* (settled (system_start example_limits True True)) s \<and>
    il_datagrams s = [request_bytes Request_default] \<and>
    list_all (datagram_respects (Options_default ''drive'' True True)) (il_datagrams s)"
proof -
  obtain s where "(interleaved_step example_config)\<^sup>*\<^sup>* (settled (system_start example_limits True True)) s"
    "il_datagrams s = [request_bytes Request_default]"
    using example_connected by (auto simp: settled_start)
  with program_respects_options [OF default_start [of "''drive''"] default_options_ok this(1)]
    default_start [of "''drive''"]
  show ?thesis by blast
qed

text \<open>
  The options become the limits of the core and the settings of the drive loop: each limit is
  the option in raw units, truncated, and options that make sense give limits and settings for
  which the properties of the core and of the drive loop hold.
\<close>

theorem options_give_limits:
  assumes "main_start hid_ok ws_ok options = Inr (cfg, s)" "options_ok options"
  shows "raw_of (raw_p (limit_position (cm_limits (sys_core s)))) (f64_real (opt_stroke_limit options) * 10000) \<and>
    raw_of (raw_v (limit_velocity (cm_limits (sys_core s)))) (f64_real (opt_velocity_limit options) * 1000000) \<and>
    raw_of (raw_a (limit_acceleration (cm_limits (sys_core s))))
      (f64_real (opt_acceleration_limit options) * 100000) \<and>
    limits_ok (cm_limits (sys_core s)) \<and> config_ok cfg"
  using main_start_system [OF assms(1)] main_limits_units [OF assms(2)] main_limits_ok [OF assms(2)]
    main_config_ok [OF assms(2)]
  by (simp add: system_start_def CoreManager_new_def)

theorem options_give_limits_witness:
  "raw_of (raw_p (limit_position (cm_limits (sys_core (system_start example_limits True True)))))
      (f64_real (opt_stroke_limit (Options_default ''drive'' True True)) * 10000) \<and>
    limits_ok example_limits \<and> config_ok example_config"
  using options_give_limits [OF default_start [of "''drive''"] default_options_ok]
  by (simp add: system_start_def CoreManager_new_def)



end
